(* ===== verification/Prelude.thy ===== *)
theory Prelude
  imports
    Main
    "HOL-Library.Word"
    "HOL-Library.AList"
    "HOL-Library.Char_ord"
    "HOL-Library.List_Lexorder"
begin

text \<open>
  Shared vocabulary of the development: the result type of fallible Go code, the pieces of the
  Go standard library that the agent's packages use on strings (\<open>strings\<close>, \<open>strconv\<close>,
  \<open>bufio.Scanner\<close>, \<open>path/filepath\<close>), the theorem collections that carry the component
  proofs, and a locale for encoders with a partial decoder.

  A Go string is a \<^typ>\<open>string\<close>, that is a list of bytes (\<^typ>\<open>char\<close>); a Go \<open>error\<close> is the
  text it prints, so a fallible function returns \<open>'a res\<close> with \<open>Inl\<close> the error text.
  A Go \<open>int\<close> or \<open>int64\<close> is an \<^typ>\<open>int\<close> inside \<open>int64_range\<close>; the parsers below never leave
  that range.
\<close>

section \<open>Results, collections of theorems\<close>

type_synonym 'a res = "string + 'a"

named_theorems go_simps \<open>defining equations of the modelled Go library functions\<close>
named_theorems frame_simps \<open>what an operation leaves unchanged\<close>
named_theorems kv_simps \<open>lookups after updates of key-value state\<close>

definition is_ok :: "'a res \<Rightarrow> bool" where
  "is_ok r = (case r of Inl _ \<Rightarrow> False | Inr _ \<Rightarrow> True)"

lemma is_ok_simps [simp]: "is_ok (Inr x)" "\<not> is_ok (Inl e)"
  by (simp_all add: is_ok_def)

lemma is_okE: "is_ok r \<Longrightarrow> (\<And>x. r = Inr x \<Longrightarrow> P) \<Longrightarrow> P"
  by (cases r) auto

definition int64_range :: "int \<Rightarrow> bool" where
  "int64_range n \<longleftrightarrow> - (2 ^ 63) \<le> n \<and> n < 2 ^ 63"

text \<open>The result of an \<open>int64\<close> operation whose mathematical result is \<open>n\<close>.\<close>

definition wrap64 :: "int \<Rightarrow> int" where
  "wrap64 n = (n + 2 ^ 63) mod 2 ^ 64 - 2 ^ 63"

lemma wrap64_id: "int64_range n \<Longrightarrow> wrap64 n = n"
  by (simp add: int64_range_def wrap64_def)

lemma wrap64_range: "int64_range (wrap64 n)"
  using pos_mod_bound [of "2 ^ 64" "n + 2 ^ 63"] pos_mod_sign [of "2 ^ 64" "n + 2 ^ 63"]
  by (simp add: int64_range_def wrap64_def)

abbreviation lf :: char where "lf \<equiv> CHR 0x0A"
abbreviation cr :: char where "cr \<equiv> CHR 0x0D"
abbreviation tab :: char where "tab \<equiv> CHR 0x09"
abbreviation byte_of :: "char \<Rightarrow> nat" where "byte_of c \<equiv> of_char c"

section \<open>Package strings\<close>

definition has_prefix :: "string \<Rightarrow> string \<Rightarrow> bool" where
  "has_prefix p s \<longleftrightarrow> take (length p) s = p"

definition has_suffix :: "string \<Rightarrow> string \<Rightarrow> bool" where
  "has_suffix p s \<longleftrightarrow> length p \<le> length s \<and> drop (length s - length p) s = p"

definition trim_suffix :: "string \<Rightarrow> string \<Rightarrow> string" where
  "trim_suffix p s = (if has_suffix p s then take (length s - length p) s else s)"

fun contains :: "string \<Rightarrow> string \<Rightarrow> bool" where
  "contains p [] = (p = [])"
| "contains p (c # s) = (has_prefix p (c # s) \<or> contains p s)"

text \<open>\<open>strings.Split(s, sep)\<close> for a one-byte separator.\<close>

fun split_on :: "char \<Rightarrow> string \<Rightarrow> string list" where
  "split_on d [] = [[]]"
| "split_on d (c # s) =
     (if c = d then [] # split_on d s
      else (case split_on d s of [] \<Rightarrow> [[c]] | w # ws \<Rightarrow> (c # w) # ws))"

fun join_with :: "string \<Rightarrow> string list \<Rightarrow> string" where
  "join_with d [] = []"
| "join_with d [w] = w"
| "join_with d (w # ws) = w @ d @ join_with d ws"

text \<open>
  The length in bytes of the white-space rune (\<open>unicode.IsSpace\<close>) at the head of a string, 0
  when there is none: the six ASCII spaces and the UTF-8 forms of U+0085, U+00A0, U+1680,
  U+2000 to U+200A, U+2028, U+2029, U+202F, U+205F and U+3000.
\<close>

definition ascii_space :: "nat \<Rightarrow> bool" where
  "ascii_space b \<longleftrightarrow> b = 32 \<or> 9 \<le> b \<and> b \<le> 13"

definition space3 :: "nat \<Rightarrow> nat \<Rightarrow> nat \<Rightarrow> bool" where
  "space3 a b c \<longleftrightarrow>
     a = 0xE1 \<and> b = 0x9A \<and> c = 0x80 \<or>
     a = 0xE2 \<and> b = 0x80 \<and> (0x80 \<le> c \<and> c \<le> 0x8A \<or> c = 0xA8 \<or> c = 0xA9 \<or> c = 0xAF) \<or>
     a = 0xE2 \<and> b = 0x81 \<and> c = 0x9F \<or>
     a = 0xE3 \<and> b = 0x80 \<and> c = 0x80"

definition space2 :: "nat \<Rightarrow> nat \<Rightarrow> bool" where
  "space2 a b \<longleftrightarrow> a = 0xC2 \<and> (b = 0x85 \<or> b = 0xA0)"

fun space_len :: "string \<Rightarrow> nat" where
  "space_len [] = 0"
| "space_len (a # s) =
     (if ascii_space (byte_of a) then 1
      else (case s of
        [] \<Rightarrow> 0
      | b # s' \<Rightarrow>
          if space2 (byte_of a) (byte_of b) then 2
          else (case s' of
            [] \<Rightarrow> 0
          | c # _ \<Rightarrow> if space3 (byte_of a) (byte_of b) (byte_of c) then 3 else 0)))"

text \<open>The same at the end of a string, read from its reverse (\<open>utf8.DecodeLastRune\<close>).\<close>

fun space_len_rev :: "string \<Rightarrow> nat" where
  "space_len_rev [] = 0"
| "space_len_rev (a # s) =
     (if ascii_space (byte_of a) then 1
      else (case s of
        [] \<Rightarrow> 0
      | b # s' \<Rightarrow>
          if space2 (byte_of b) (byte_of a) then 2
          else (case s' of
            [] \<Rightarrow> 0
          | c # _ \<Rightarrow> if space3 (byte_of c) (byte_of b) (byte_of a) then 3 else 0)))"

fun drop_spaces :: "(string \<Rightarrow> nat) \<Rightarrow> string \<Rightarrow> string" where
  "drop_spaces f [] = []"
| "drop_spaces f (c # s) =
     (case f (c # s) of 0 \<Rightarrow> c # s | Suc m \<Rightarrow> drop_spaces f (drop m s))"

definition trim_space :: "string \<Rightarrow> string" where
  "trim_space s =
     rev (drop_spaces space_len_rev (rev (drop_spaces space_len s)))"

text \<open>\<open>strings.Fields\<close>: \<open>k\<close> counts the bytes of a white-space rune still to be skipped.\<close>

fun fields_from :: "nat \<Rightarrow> string \<Rightarrow> string \<Rightarrow> string list" where
  "fields_from k w [] = (if w = [] then [] else [w])"
| "fields_from (Suc k) w (c # s) = fields_from k w s"
| "fields_from 0 w (c # s) =
     (case space_len (c # s) of
        0 \<Rightarrow> fields_from 0 (w @ [c]) s
      | Suc m \<Rightarrow> (if w = [] then [] else [w]) @ fields_from m [] s)"

definition str_fields :: "string \<Rightarrow> string list" where
  "str_fields s = fields_from 0 [] s"

text \<open>
  \<open>strings.ToLower\<close> on ASCII letters; the agent lower-cases only the BGP state words that
  \<open>birdc\<close> prints, which are ASCII.
\<close>

definition to_lower :: "string \<Rightarrow> string" where
  "to_lower s =
     map (\<lambda>c. if 65 \<le> byte_of c \<and> byte_of c \<le> 90 then char_of (byte_of c + 32) else c) s"

text \<open>
  The lines of \<open>bufio.Scanner\<close> with its default split function: a final empty line is not a
  token, one trailing carriage return is removed, and scanning stops at the first line that does
  not fit the 64 KiB buffer.
\<close>

definition drop_cr :: "string \<Rightarrow> string" where
  "drop_cr l = (if l \<noteq> [] \<and> last l = cr then butlast l else l)"

definition max_scan_token :: nat where
  "max_scan_token = 65536"

definition scan_lines :: "string \<Rightarrow> string list" where
  "scan_lines s =
     (let ls = split_on lf s;
          ls = (if last ls = [] then butlast ls else ls)
      in map drop_cr (takeWhile (\<lambda>l. length l < max_scan_token) ls))"

section \<open>Package strconv\<close>

definition digit_char :: "nat \<Rightarrow> char" where
  "digit_char d = char_of (48 + d)"

definition is_digit :: "char \<Rightarrow> bool" where
  "is_digit c \<longleftrightarrow> 48 \<le> byte_of c \<and> byte_of c \<le> 57"

definition digit_val :: "char \<Rightarrow> nat" where
  "digit_val c = byte_of c - 48"

fun nat_str :: "nat \<Rightarrow> string" where
  "nat_str n =
     (if n < 10 then [digit_char n] else nat_str (n div 10) @ [digit_char (n mod 10)])"

declare nat_str.simps [simp del]

text \<open>\<open>strconv.Itoa\<close>, \<open>fmt.Sprintf("%d", n)\<close>.\<close>

definition itoa :: "int \<Rightarrow> string" where
  "itoa n = (if n < 0 then CHR ''-'' # nat_str (nat (- n)) else nat_str (nat n))"

datatype num_err = ErrSyntax | ErrRange

text \<open>\<open>strconv.ParseUint(s, 10, 64)\<close> after its check for the empty string.\<close>

fun parse_uint_loop :: "nat \<Rightarrow> string \<Rightarrow> nat \<times> num_err option" where
  "parse_uint_loop n [] = (n, None)"
| "parse_uint_loop n (c # s) =
     (if \<not> is_digit c then (0, Some ErrSyntax)
      else if 2 ^ 64 \<le> 10 * n + digit_val c then (2 ^ 64 - 1, Some ErrRange)
      else parse_uint_loop (10 * n + digit_val c) s)"

definition parse_uint64 :: "string \<Rightarrow> nat \<times> num_err option" where
  "parse_uint64 s = (if s = [] then (0, Some ErrSyntax) else parse_uint_loop 0 s)"

text \<open>
  \<open>strconv.ParseInt(s, 10, 64)\<close> and \<open>strconv.Atoi\<close>: the value returned beside the error is 0 on
  a syntax error and the nearest bound on a range error.
\<close>

definition parse_int64 :: "string \<Rightarrow> int \<times> num_err option" where
  "parse_int64 s =
     (if s = [] then (0, Some ErrSyntax)
      else
        let neg = (hd s = CHR ''-'');
            body = (if hd s = CHR ''-'' \<or> hd s = CHR ''+'' then tl s else s)
        in case parse_uint64 body of
             (_, Some ErrSyntax) \<Rightarrow> (0, Some ErrSyntax)
           | (un, _) \<Rightarrow>
               if \<not> neg \<and> 2 ^ 63 \<le> un then (2 ^ 63 - 1, Some ErrRange)
               else if neg \<and> 2 ^ 63 < un then (- (2 ^ 63), Some ErrRange)
               else ((if neg then - int un else int un), None))"

section \<open>Package path/filepath\<close>

fun clean_comps :: "bool \<Rightarrow> string list \<Rightarrow> string list \<Rightarrow> string list" where
  "clean_comps rooted out [] = rev out"
| "clean_comps rooted out (c # cs) =
     (if c = [] \<or> c = ''.'' then clean_comps rooted out cs
      else if c = ''..'' then
        (case out of
           [] \<Rightarrow> clean_comps rooted (if rooted then [] else [''..'']) cs
         | q # qs \<Rightarrow> clean_comps rooted (if q = ''..'' then ''..'' # out else qs) cs)
      else clean_comps rooted (c # out) cs)"

definition is_rooted :: "string \<Rightarrow> bool" where
  "is_rooted p \<longleftrightarrow> p \<noteq> [] \<and> hd p = CHR ''/''"

definition path_comps :: "string \<Rightarrow> string list" where
  "path_comps p = clean_comps (is_rooted p) [] (split_on CHR ''/'' p)"

definition path_of :: "bool \<Rightarrow> string list \<Rightarrow> string" where
  "path_of rooted cs =
     (if rooted then ''/'' @ join_with ''/'' cs
      else if cs = [] then ''.'' else join_with ''/'' cs)"

definition path_clean :: "string \<Rightarrow> string" where
  "path_clean p = (if p = [] then ''.'' else path_of (is_rooted p) (path_comps p))"

definition path_join :: "string \<Rightarrow> string \<Rightarrow> string" where
  "path_join a b =
     (if a \<noteq> [] then path_clean (a @ ''/'' @ b)
      else if b \<noteq> [] then path_clean b else [])"

text \<open>A name that can be one component of a path.\<close>

definition plain_name :: "string \<Rightarrow> bool" where
  "plain_name x \<longleftrightarrow> x \<noteq> [] \<and> x \<noteq> ''.'' \<and> x \<noteq> ''..'' \<and> CHR ''/'' \<notin> set x"

text \<open>\<open>filepath.Dir\<close> and \<open>filepath.Base\<close>.\<close>

definition path_dir :: "string \<Rightarrow> string" where
  "path_dir p = path_clean (rev (dropWhile (\<lambda>c. c \<noteq> CHR ''/'') (rev p)))"

definition path_base :: "string \<Rightarrow> string" where
  "path_base p =
     (if p = [] then ''.''
      else
        let q = rev (dropWhile (\<lambda>c. c = CHR ''/'') (rev p));
            b = rev (takeWhile (\<lambda>c. c \<noteq> CHR ''/'') (rev q))
        in if q = [] then ''/'' else b)"

section \<open>Lemmas on strings\<close>

lemma has_prefix_append [simp]: "has_prefix p (p @ s)"
  by (simp add: has_prefix_def)

lemma has_prefix_iff: "has_prefix p s \<longleftrightarrow> (\<exists>t. s = p @ t)"
  by (metis append_eq_conv_conj has_prefix_def)

lemma has_suffix_append [simp]: "has_suffix p (s @ p)"
  by (simp add: has_suffix_def)

lemma trim_suffix_append [simp]: "trim_suffix p (s @ p) = s"
  by (simp add: trim_suffix_def)

lemma has_suffix_iff: "has_suffix p s \<longleftrightarrow> (\<exists>t. s = t @ p)"
  by (metis append_take_drop_id has_suffix_append has_suffix_def)

lemma contains_iff: "contains p s \<longleftrightarrow> (\<exists>u v. s = u @ p @ v)"
proof (induction s)
  case Nil
  then show ?case by auto
next
  case (Cons c s)
  have "(\<exists>u v. c # s = u @ p @ v) \<longleftrightarrow> has_prefix p (c # s) \<or> (\<exists>u v. s = u @ p @ v)"
    by (metis append_Cons append_Nil has_prefix_iff list.inject neq_Nil_conv)
  with Cons.IH show ?case by simp
qed

lemma split_on_not_Nil [simp]: "split_on d s \<noteq> []"
  by (induction s) (auto split: list.splits)

lemma split_on_no_sep: "d \<notin> set s \<Longrightarrow> split_on d s = [s]"
  by (induction s) auto

lemma split_on_append_sep: "split_on d (s @ d # t) = split_on d s @ split_on d t"
  by (induction s) (auto split: list.splits)

lemma split_on_join:
  "\<forall>w \<in> set ws. d \<notin> set w \<Longrightarrow> ws \<noteq> [] \<Longrightarrow> split_on d (join_with [d] ws) = ws"
  by (induction "[d]" ws rule: join_with.induct) (auto simp: split_on_no_sep split_on_append_sep)

lemma split_on_set: "w \<in> set (split_on d s) \<Longrightarrow> d \<notin> set w"
proof (induction s arbitrary: w)
  case Nil
  then show ?case by simp
next
  case (Cons c s)
  obtain v vs where v: "split_on d s = v # vs" by (cases "split_on d s") auto
  with Cons show ?case by (auto split: if_splits)
qed

text \<open>The scanner gives back the lines of a text whose lines are clean and not too long.\<close>

definition clean_line :: "string \<Rightarrow> bool" where
  "clean_line l \<longleftrightarrow> lf \<notin> set l \<and> cr \<notin> set l \<and> length l < max_scan_token"

lemma split_lines:
  "\<forall>l \<in> set ls. lf \<notin> set l \<Longrightarrow> split_on lf (concat (map (\<lambda>l. l @ [lf]) ls)) = ls @ [[]]"
  by (induction ls) (simp_all add: split_on_append_sep split_on_no_sep)

lemma drop_cr_clean: "cr \<notin> set l \<Longrightarrow> drop_cr l = l"
  by (metis drop_cr_def last_in_set)

lemma scan_lines_text:
  assumes "\<forall>l \<in> set ls. clean_line l"
  shows "scan_lines (concat (map (\<lambda>l. l @ [lf]) ls)) = ls"
proof -
  have "takeWhile (\<lambda>l. length l < max_scan_token) ls = ls"
    using assms by (simp add: takeWhile_eq_all_conv clean_line_def)
  moreover have "map drop_cr ls = ls"
    using assms by (simp add: map_idI drop_cr_clean clean_line_def)
  moreover have "split_on lf (concat (map (\<lambda>l. l @ [lf]) ls)) = ls @ [[]]"
    using assms by (intro split_lines) (simp add: clean_line_def)
  ultimately show ?thesis by (simp add: scan_lines_def del: takeWhile_eq_all_conv)
qed

section \<open>Lemmas on numbers\<close>

lemma byte_of_digit_char: "d < 10 \<Longrightarrow> byte_of (digit_char d) = 48 + d"
  by (simp add: digit_char_def)

lemma is_digit_digit_char [simp]: "d < 10 \<Longrightarrow> is_digit (digit_char d)"
  by (simp add: is_digit_def byte_of_digit_char)

lemma digit_val_digit_char [simp]: "d < 10 \<Longrightarrow> digit_val (digit_char d) = d"
  by (simp add: digit_val_def byte_of_digit_char)

lemma nat_str_not_Nil [simp]: "nat_str n \<noteq> []"
  by (subst nat_str.simps) simp

lemma nat_str_digits: "c \<in> set (nat_str n) \<Longrightarrow> is_digit c"
proof (induction n rule: nat_str.induct)
  case (1 n)
  then show ?case by (subst (asm) (2) nat_str.simps) (auto split: if_splits)
qed

definition digits_val :: "string \<Rightarrow> nat" where
  "digits_val s = foldl (\<lambda>a c. 10 * a + digit_val c) 0 s"

lemma digits_val_snoc [simp]: "digits_val (s @ [c]) = 10 * digits_val s + digit_val c"
  by (simp add: digits_val_def)

lemma digits_val_nat_str [simp]: "digits_val (nat_str n) = n"
proof (induction n rule: nat_str.induct)
  case (1 n)
  show ?case
  proof (cases "n < 10")
    case True
    then show ?thesis by (subst nat_str.simps) (simp add: digits_val_def)
  next
    case False
    then have "digits_val (nat_str n) = 10 * (n div 10) + n mod 10"
      using "1.IH" by (subst nat_str.simps) simp
    then show ?thesis by simp
  qed
qed

lemma foldl_digits_mono: "n \<le> foldl (\<lambda>a c. 10 * a + digit_val c) n s"
proof (induction s arbitrary: n)
  case Nil
  then show ?case by simp
next
  case (Cons c s)
  have "n \<le> 10 * n + digit_val c" by simp
  also have "\<dots> \<le> foldl (\<lambda>a c. 10 * a + digit_val c) (10 * n + digit_val c) s"
    by (rule Cons.IH)
  finally show ?case by simp
qed

lemma parse_uint_loop_ok:
  assumes "\<forall>c \<in> set s. is_digit c"
    and "foldl (\<lambda>a c. 10 * a + digit_val c) n s < 2 ^ 64"
  shows "parse_uint_loop n s = (foldl (\<lambda>a c. 10 * a + digit_val c) n s, None)"
  using assms
proof (induction s arbitrary: n)
  case Nil
  then show ?case by simp
next
  case (Cons c s)
  have "10 * n + digit_val c < 2 ^ 64"
    using Cons.prems(2) foldl_digits_mono [of "10 * n + digit_val c" s] by simp
  with Cons show ?case by simp
qed

lemma parse_uint64_nat_str [simp]: "n < 2 ^ 64 \<Longrightarrow> parse_uint64 (nat_str n) = (n, None)"
  using parse_uint_loop_ok [of "nat_str n" 0] digits_val_nat_str [of n] nat_str_digits [of _ n]
  by (auto simp: parse_uint64_def digits_val_def)

lemma hd_nat_str: "is_digit (hd (nat_str n))"
  by (rule nat_str_digits) (rule hd_in_set, simp)

lemma hd_nat_str_not_sign: "hd (nat_str n) \<noteq> CHR ''-''" "hd (nat_str n) \<noteq> CHR ''+''"
  using hd_nat_str [of n] by (auto simp: is_digit_def)

lemma nat_str_not_sign_Cons: "nat_str n \<noteq> CHR ''-'' # s"
  using hd_nat_str_not_sign(1) [of n] by auto

lemma parse_int64_itoa: "int64_range n \<Longrightarrow> parse_int64 (itoa n) = (n, None)"
  using hd_nat_str_not_sign [of "nat n"]
  by (auto simp: parse_int64_def itoa_def int64_range_def Let_def nat_less_iff)

lemma nat_str_length: "n < 10 ^ k \<Longrightarrow> 0 < k \<Longrightarrow> length (nat_str n) \<le> k"
proof (induction k arbitrary: n)
  case 0
  then show ?case by simp
next
  case (Suc k)
  show ?case
  proof (cases "n < 10")
    case True
    then show ?thesis by (subst nat_str.simps) simp
  next
    case False
    then have "n div 10 < 10 ^ k" "0 < k" using Suc.prems(1)
      by (auto simp: less_mult_imp_div_less mult.commute intro: gr0I)
    with Suc.IH False show ?thesis by (subst nat_str.simps) simp
  qed
qed

lemma parse_int64_digits:
  assumes "s \<noteq> []" "\<forall>c \<in> set s. is_digit c" "digits_val s < 2 ^ 63"
  shows "parse_int64 s = (int (digits_val s), None)"
proof -
  have "parse_uint64 s = (digits_val s, None)"
    using assms parse_uint_loop_ok [of s 0] by (simp add: parse_uint64_def digits_val_def)
  moreover have "is_digit (hd s)" using assms(1,2) by simp
  then have "hd s \<noteq> CHR ''-''" "hd s \<noteq> CHR ''+''" by (auto simp: is_digit_def)
  ultimately show ?thesis using assms by (simp add: parse_int64_def Let_def)
qed

lemma digits_val_append: "digits_val (s @ t) = digits_val s * 10 ^ length t + digits_val t"
proof (induction t rule: rev_induct)
  case Nil
  then show ?case by (simp add: digits_val_def)
next
  case (snoc c t)
  have "digits_val (s @ t @ [c]) = 10 * digits_val (s @ t) + digit_val c"
    using digits_val_snoc [of "s @ t" c] by simp
  with snoc show ?case by (simp add: algebra_simps)
qed

lemma itoa_not_Nil [simp]: "itoa n \<noteq> []"
  by (simp add: itoa_def)

lemma itoa_chars: "c \<in> set (itoa n) \<Longrightarrow> is_digit c \<or> c = CHR ''-''"
  by (auto simp: itoa_def dest: nat_str_digits split: if_splits)

lemma itoa_nonneg_digits: "0 \<le> n \<Longrightarrow> c \<in> set (itoa n) \<Longrightarrow> is_digit c"
  by (auto simp: itoa_def dest: nat_str_digits)

lemma nat_str_inj: "nat_str m = nat_str n \<Longrightarrow> m = n"
  by (metis digits_val_nat_str)

lemma itoa_inj [simp]: "itoa m = itoa n \<longleftrightarrow> m = n"
proof
  assume "itoa m = itoa n"
  then show "m = n"
    using nat_str_not_sign_Cons [of "nat m"] nat_str_not_sign_Cons [of "nat n"]
    by (auto simp: itoa_def split: if_splits dest!: nat_str_inj)
      (metis nat_str_not_sign_Cons)+
qed simp

lemma parse_int64_range: "int64_range (fst (parse_int64 s))"
  by (auto simp: parse_int64_def int64_range_def Let_def split: prod.splits option.splits
      num_err.splits)

section \<open>Lemmas on paths\<close>

lemma clean_comps_plain_last:
  "plain_name x \<Longrightarrow> clean_comps r out (cs @ [x]) = clean_comps r out cs @ [x]"
  by (induction r out cs rule: clean_comps.induct) (auto simp: plain_name_def split: list.splits)

lemma is_rooted_append [simp]: "a \<noteq> [] \<Longrightarrow> is_rooted (a @ b) = is_rooted a"
  by (simp add: is_rooted_def)

lemma path_comps_join:
  assumes "a \<noteq> []" "plain_name x"
  shows "path_comps (a @ ''/'' @ x) = path_comps a @ [x]"
proof -
  have "split_on CHR ''/'' (a @ ''/'' @ x) = split_on CHR ''/'' a @ [x]"
    using assms(2) by (simp add: split_on_append_sep split_on_no_sep plain_name_def)
  with assms show ?thesis by (simp add: path_comps_def clean_comps_plain_last)
qed

lemma path_join_plain:
  "a \<noteq> [] \<Longrightarrow> plain_name x \<Longrightarrow>
     path_join a x = path_of (is_rooted a) (path_comps a @ [x])"
  using path_comps_join [of a x] is_rooted_append [of a "''/'' @ x"]
  by (simp add: path_join_def path_clean_def)

lemma join_with_snoc:
  "join_with d (ws @ [w]) = (if ws = [] then w else join_with d ws @ d @ w)"
proof (induction ws)
  case Nil
  then show ?case by simp
next
  case (Cons v ws)
  then show ?case by (cases ws) auto
qed

text \<open>A path is determined by its last component and the directory before it.\<close>

lemma takeWhile_rev_sep:
  assumes "d \<notin> set x"
  shows "takeWhile (\<lambda>c. c \<noteq> d) (rev x @ d # s) = rev x"
    and "takeWhile (\<lambda>c. c \<noteq> d) (rev x) = rev x"
proof -
  have all: "c \<noteq> d" if "c \<in> set (rev x)" for c
    using that assms by auto
  then show "takeWhile (\<lambda>c. c \<noteq> d) (rev x @ d # s) = rev x"
    by (subst takeWhile_append2) simp_all
  from all show "takeWhile (\<lambda>c. c \<noteq> d) (rev x) = rev x"
    by (simp add: takeWhile_eq_all_conv)
qed

lemma path_of_snoc_last:
  assumes "CHR ''/'' \<notin> set x"
  shows "takeWhile (\<lambda>c. c \<noteq> CHR ''/'') (rev (path_of r (cs @ [x]))) = rev x"
  using takeWhile_rev_sep [OF assms]
  by (cases "cs = []") (simp_all add: path_of_def join_with_snoc del: takeWhile.simps)

lemma path_join_inj:
  assumes "a \<noteq> []" "plain_name x" "plain_name y" "path_join a x = path_join b y" "b \<noteq> []"
  shows "x = y"
proof -
  have "rev x = rev y"
    using assms path_of_snoc_last [of x "is_rooted a" "path_comps a"]
      path_of_snoc_last [of y "is_rooted b" "path_comps b"]
    by (simp add: path_join_plain plain_name_def)
  then show ?thesis by simp
qed

lemma path_join_eq_iff:
  "a \<noteq> [] \<Longrightarrow> plain_name x \<Longrightarrow> plain_name y \<Longrightarrow> path_join a x = path_join a y \<longleftrightarrow> x = y"
  using path_join_inj [of a x y a] by auto

section \<open>Encoders with a partial decoder\<close>

text \<open>
  Several components write a value as text and read it back. The locale names what they share:
  a domain of values that survive the trip. It is interpreted on the decimal printer here and
  on the JSON, peer-record and hexadecimal codecs of the later theories.
\<close>

locale codec =
  fixes enc :: "'a \<Rightarrow> 'b" and dec :: "'b \<Rightarrow> 'a option" and dom :: "'a \<Rightarrow> bool"
  assumes dec_enc: "dom x \<Longrightarrow> dec (enc x) = Some x"
begin

lemma enc_inj: "dom x \<Longrightarrow> dom y \<Longrightarrow> enc x = enc y \<longleftrightarrow> x = y"
  by (metis dec_enc option.inject)

lemma map_dec_enc: "\<forall>x \<in> set xs. dom x \<Longrightarrow> map (dec \<circ> enc) xs = map Some xs"
  by (simp add: dec_enc)

lemma enc_image_card: "finite A \<Longrightarrow> \<forall>x \<in> A. dom x \<Longrightarrow> card (enc ` A) = card A"
  by (rule card_image) (meson enc_inj inj_onI)

end

definition int64_read :: "string \<Rightarrow> int option" where
  "int64_read s = (case parse_int64 s of (n, None) \<Rightarrow> Some n | _ \<Rightarrow> None)"

interpretation decimal: codec itoa int64_read int64_range
  by unfold_locales (simp add: int64_read_def parse_int64_itoa)

section \<open>Preserved properties of a step relation\<close>

text \<open>
  The interface between a step relation and the properties that hold in every state it reaches.
\<close>

locale preserved =
  fixes step :: "'s \<Rightarrow> 's \<Rightarrow> bool" and inv :: "'s \<Rightarrow> bool"
  assumes step_inv: "inv s \<Longrightarrow> step s t \<Longrightarrow> inv t"
begin

lemma reach_inv: "step\<^sup>*\<^sup>* s t \<Longrightarrow> inv s \<Longrightarrow> inv t"
  by (induction rule: rtranclp_induct) (auto intro: step_inv)

lemma reach_inv_trans: "step\<^sup>*\<^sup>* s t \<Longrightarrow> step\<^sup>*\<^sup>* t u \<Longrightarrow> inv s \<Longrightarrow> inv t \<and> inv u"
  using reach_inv by blast

end

end
