(* ===== verification/Host.thy ===== *)
theory Host
  imports Prelude
begin

text \<open>
  The machine the agent runs on, as the agent's packages see it: the regular files, the
  WireGuard interfaces that exist, and the files BIRD last read. Every system call of the Go
  packages \<open>os\<close> and \<open>os/exec\<close> that the source makes is a function on this state.

  What decides the outcome of a call beyond the file table is a parameter, the record
  \<open>os\<close>: \<open>fault\<close> says whether a call fails for a reason of the operating system
  (permissions, a missing directory, a full disk), \<open>short_write\<close> how much a failing write wrote,
  and \<open>exec\<close> is what running an external program (\<open>wg\<close>, \<open>wg-quick\<close>, \<open>birdc\<close>, \<open>ping\<close> and so on)
  prints and does. The state counts the calls made so far, so that two equal calls may have
  different outcomes. What the agent relies on of the external programs is stated as named
  hypotheses at the end of the theory.
\<close>

section \<open>State\<close>

record gofile =
  content :: string
  mode :: nat

record host =
  files :: "(string \<times> gofile) list"
  dirs :: "string list"
  dir_modes :: "(string \<times> nat) list"
  ifaces :: "string list"
  loaded :: "(string \<times> gofile) list"
  tick :: nat

datatype os_call =
    OpenTrunc string
  | WriteTo string
  | OpenRead string
  | Remove string
  | Stat string
  | ReadDir string
  | Rename string string
  | Chmod string
  | MkdirAll string
  | CreateTemp string
  | ReadFrom string
  | Fsync string
  | CloseFile string
  | Executable
  | ExecSelf string

record cmd_out =
  stdout :: string
  combined :: string
  cmd_err :: "string option"

record os =
  exec :: "string list \<Rightarrow> host \<Rightarrow> cmd_out \<times> host"
  fault :: "os_call \<Rightarrow> host \<Rightarrow> string option"
  short_write :: "string \<Rightarrow> host \<Rightarrow> nat"

text \<open>An error of package \<open>os\<close>: \<open>os.IsNotExist\<close> holds of the first kind only.\<close>

datatype os_err = ENOENT string string | EOTHER string

fun os_err_text :: "os_err \<Rightarrow> string" where
  "os_err_text (ENOENT call p) = call @ '' '' @ p @ '': no such file or directory''"
| "os_err_text (EOTHER e) = e"

fun is_not_exist :: "os_err \<Rightarrow> bool" where
  "is_not_exist (ENOENT call p) = True"
| "is_not_exist (EOTHER e) = False"

type_synonym 'a os_res = "os_err + 'a"

section \<open>System calls\<close>

definition fs_read :: "host \<Rightarrow> string \<Rightarrow> gofile option" where
  "fs_read h p = map_of (files h) p"

definition fs_put :: "string \<Rightarrow> gofile \<Rightarrow> host \<Rightarrow> host" where
  "fs_put p f h = h\<lparr>files := AList.update p f (files h)\<rparr>"

definition fs_del :: "string \<Rightarrow> host \<Rightarrow> host" where
  "fs_del p h = h\<lparr>files := AList.delete p (files h)\<rparr>"

definition tock :: "host \<Rightarrow> host" where
  "tock h = h\<lparr>tick := Suc (tick h)\<rparr>"

abbreviation perm_0700 :: nat where "perm_0700 \<equiv> 448"
abbreviation perm_0600 :: nat where "perm_0600 \<equiv> 384"
abbreviation perm_0644 :: nat where "perm_0644 \<equiv> 420"
abbreviation perm_0755 :: nat where "perm_0755 \<equiv> 493"

text \<open>\<open>os.OpenFile(p, O_CREATE|O_WRONLY|O_TRUNC, perm)\<close>: the mode is set only on creation.\<close>

definition os_open_trunc :: "os \<Rightarrow> string \<Rightarrow> nat \<Rightarrow> host \<Rightarrow> string res \<times> host" where
  "os_open_trunc Os p perm h =
     (case fault Os (OpenTrunc p) h of
        Some e \<Rightarrow> (Inl e, tock h)
      | None \<Rightarrow>
          (Inr p, tock (fs_put p
             (case fs_read h p of
                None \<Rightarrow> \<lparr>content = [], mode = perm\<rparr>
              | Some f \<Rightarrow> f\<lparr>content := []\<rparr>) h)))"

text \<open>Writing to an open file appends to what was written through it so far.\<close>

definition os_write :: "os \<Rightarrow> string \<Rightarrow> string \<Rightarrow> host \<Rightarrow> unit res \<times> host" where
  "os_write Os p txt h =
     (let put = (\<lambda>t. case fs_read h p of
                        None \<Rightarrow> h
                      | Some f \<Rightarrow> fs_put p (f\<lparr>content := content f @ t\<rparr>) h)
      in case fault Os (WriteTo p) h of
           Some e \<Rightarrow> (Inl e, tock (put (take (short_write Os p h) txt)))
         | None \<Rightarrow> (Inr (), tock (put txt)))"

definition os_remove :: "os \<Rightarrow> string \<Rightarrow> host \<Rightarrow> unit os_res \<times> host" where
  "os_remove Os p h =
     (case fault Os (Remove p) h of
        Some e \<Rightarrow> (Inl (EOTHER e), tock h)
      | None \<Rightarrow>
          (case fs_read h p of
             None \<Rightarrow> (Inl (ENOENT ''remove'' p), tock h)
           | Some _ \<Rightarrow> (Inr (), tock (fs_del p h))))"

definition os_stat :: "os \<Rightarrow> string \<Rightarrow> host \<Rightarrow> bool os_res \<times> host" where
  "os_stat Os p h =
     (case fault Os (Stat p) h of
        Some e \<Rightarrow> (Inl (EOTHER e), tock h)
      | None \<Rightarrow>
          (if fs_read h p \<noteq> None then (Inr False, tock h)
           else if p \<in> set (dirs h) then (Inr True, tock h)
           else (Inl (ENOENT ''stat'' p), tock h)))"

definition os_read_file :: "os \<Rightarrow> string \<Rightarrow> host \<Rightarrow> string os_res \<times> host" where
  "os_read_file Os p h =
     (case fault Os (OpenRead p) h of
        Some e \<Rightarrow> (Inl (EOTHER e), tock h)
      | None \<Rightarrow>
          (case fs_read h p of
             None \<Rightarrow> (Inl (ENOENT ''open'' p), tock h)
           | Some f \<Rightarrow> (Inr (content f), tock h)))"

text \<open>\<open>os.ReadDir\<close>: the entries of a directory in the order of their names, with \<open>IsDir\<close>.\<close>

definition dir_entries :: "host \<Rightarrow> string \<Rightarrow> (string \<times> bool) list" where
  "dir_entries h d =
     (let own = (\<lambda>p. path_dir p = path_clean d);
          fs = map (\<lambda>p. (path_base p, False)) (filter own (map fst (files h)));
          ds = map (\<lambda>p. (path_base p, True)) (filter own (dirs h))
      in sort_key fst (remdups (fs @ ds)))"

definition os_read_dir :: "os \<Rightarrow> string \<Rightarrow> host \<Rightarrow> (string \<times> bool) list res \<times> host" where
  "os_read_dir Os d h =
     (case fault Os (ReadDir d) h of
        Some e \<Rightarrow> (Inl e, tock h)
      | None \<Rightarrow> (Inr (dir_entries h d), tock h))"

text \<open>\<open>exec.Command(argv...)\<close> followed by \<open>Run\<close>, \<open>Output\<close> or \<open>CombinedOutput\<close>.\<close>

definition run_cmd :: "os \<Rightarrow> string list \<Rightarrow> host \<Rightarrow> cmd_out \<times> host" where
  "run_cmd Os argv h = (let (r, h') = exec Os argv h in (r, tock h'))"

section \<open>Key-value state\<close>

text \<open>
  The contract of a mutable map: a lookup after a put and after a delete. It is interpreted on
  association lists, which model Go maps and the file table. The lemmas are about sequences of
  puts, which is how the source fills its maps.
\<close>

locale kv_map =
  fixes look :: "'s \<Rightarrow> 'k \<Rightarrow> 'v option"
    and put :: "'k \<Rightarrow> 'v \<Rightarrow> 's \<Rightarrow> 's"
    and del :: "'k \<Rightarrow> 's \<Rightarrow> 's"
  assumes look_put: "look (put k v s) = (look s)(k \<mapsto> v)"
    and look_del: "look (del k s) = (look s)(k := None)"
begin

lemma look_put_same: "look (put k v s) k = Some v"
  by (simp add: look_put)

lemma look_put_other: "k' \<noteq> k \<Longrightarrow> look (put k v s) k' = look s k'"
  by (simp add: look_put)

lemma look_del_same: "look (del k s) k = None"
  by (simp add: look_del)

lemma look_del_other: "k' \<noteq> k \<Longrightarrow> look (del k s) k' = look s k'"
  by (simp add: look_del)

lemma look_puts:
  "look (fold (\<lambda>x. put (key x) (val x)) xs s) k =
     (case find (\<lambda>x. key x = k) (rev xs) of Some x \<Rightarrow> Some (val x) | None \<Rightarrow> look s k)"
proof (induction xs rule: rev_induct)
  case Nil
  then show ?case by simp
next
  case (snoc x xs)
  then show ?case by (simp add: look_put)
qed

lemma look_dels: "look (fold del ks s) k = (if k \<in> set ks then None else look s k)"
  by (induction ks arbitrary: s) (auto simp: look_del)

lemma dom_puts: "dom (look (fold (\<lambda>x. put (key x) (val x)) xs s)) = dom (look s) \<union> key ` set xs"
  by (induction xs arbitrary: s) (auto simp: look_put)

end

interpretation gomap: kv_map map_of AList.update AList.delete
  by unfold_locales (simp_all add: update_conv' delete_conv')

interpretation fstab: kv_map fs_read fs_put fs_del
  by unfold_locales
    (simp_all add: fs_read_def fs_put_def fs_del_def fun_eq_iff update_conv' delete_conv')

lemmas fs_simps [kv_simps] =
  fstab.look_put_same fstab.look_put_other fstab.look_del_same fstab.look_del_other

section \<open>Frames\<close>

text \<open>\<open>outside A h h'\<close>: the files other than those in \<open>A\<close> are the same in both states.\<close>

definition outside :: "string set \<Rightarrow> host \<Rightarrow> host \<Rightarrow> bool" where
  "outside A h h' \<longleftrightarrow> (\<forall>p. p \<notin> A \<longrightarrow> fs_read h' p = fs_read h p)"

lemma outside_refl [simp, intro]: "outside A h h"
  by (simp add: outside_def)

lemma outside_trans [trans]: "outside A h h' \<Longrightarrow> outside A h' h'' \<Longrightarrow> outside A h h''"
  by (simp add: outside_def)

lemma outside_mono: "outside A h h' \<Longrightarrow> A \<subseteq> B \<Longrightarrow> outside B h h'"
  by (auto simp: outside_def)

lemma outsideD: "outside A h h' \<Longrightarrow> p \<notin> A \<Longrightarrow> fs_read h' p = fs_read h p"
  by (simp add: outside_def)

lemma fs_read_tock [simp, frame_simps]: "fs_read (tock h) p = fs_read h p"
  by (simp add: fs_read_def tock_def)

lemma tock_fields [simp, frame_simps]:
  "files (tock h) = files h" "ifaces (tock h) = ifaces h" "loaded (tock h) = loaded h"
  "dirs (tock h) = dirs h"
  by (simp_all add: tock_def)

lemma fs_put_fields [simp, frame_simps]:
  "ifaces (fs_put p f h) = ifaces h" "loaded (fs_put p f h) = loaded h"
  "dirs (fs_put p f h) = dirs h"
  by (simp_all add: fs_put_def)

lemma fs_del_fields [simp, frame_simps]:
  "ifaces (fs_del p h) = ifaces h" "loaded (fs_del p h) = loaded h" "dirs (fs_del p h) = dirs h"
  by (simp_all add: fs_del_def)

lemma outside_put [simp]: "p \<in> A \<Longrightarrow> outside A h (fs_put p f h)"
  by (auto simp: outside_def fstab.look_put)

lemma outside_del [simp]: "p \<in> A \<Longrightarrow> outside A h (fs_del p h)"
  by (auto simp: outside_def fstab.look_del)

lemma outside_tock [simp]:
  "outside A h (tock h') \<longleftrightarrow> outside A h h'"
  "outside A (tock h) h' \<longleftrightarrow> outside A h h'"
  by (simp_all add: outside_def)

lemma os_open_trunc_frame:
  assumes "os_open_trunc Os p perm h = (r, h')"
  shows "outside {p} h h'" "ifaces h' = ifaces h" "loaded h' = loaded h" "dirs h' = dirs h"
    "r = Inr q \<Longrightarrow> \<exists>f. fs_read h' p = Some f \<and> content f = [] \<and>
       mode f = (case fs_read h p of None \<Rightarrow> perm | Some g \<Rightarrow> mode g)"
  using assms by (auto simp: os_open_trunc_def fstab.look_put split: option.splits)

lemma os_write_frame:
  assumes "os_write Os p txt h = (r, h')"
  shows "outside {p} h h'" "ifaces h' = ifaces h" "loaded h' = loaded h" "dirs h' = dirs h"
    "r = Inr u \<Longrightarrow> fs_read h p = Some f \<Longrightarrow> fs_read h' p = Some (f\<lparr>content := content f @ txt\<rparr>)"
  using assms
  by (auto simp: os_write_def Let_def fstab.look_put split: option.splits)

text \<open>Creating or truncating a file and writing one text through it.\<close>

lemma open_write:
  assumes "os_open_trunc Os p perm h = (Inr f, h1)" "os_write Os f txt h1 = (r, h2)"
  shows "outside {p} h h2" "ifaces h2 = ifaces h" "loaded h2 = loaded h" "dirs h2 = dirs h"
    "r = Inr u \<Longrightarrow> \<exists>g. fs_read h2 p = Some g \<and> content g = txt \<and>
       mode g = (case fs_read h p of None \<Rightarrow> perm | Some g \<Rightarrow> mode g)"
proof -
  have f: "f = p" using assms(1) by (auto simp: os_open_trunc_def split: option.splits)
  note o = os_open_trunc_frame [OF assms(1)] and w = os_write_frame [OF assms(2), unfolded f]
  show "outside {p} h h2" using o(1) w(1) by (rule outside_trans)
  show "ifaces h2 = ifaces h" "loaded h2 = loaded h" "dirs h2 = dirs h"
    using o(2-4) w(2-4) by simp_all
  show "r = Inr u \<Longrightarrow> \<exists>g. fs_read h2 p = Some g \<and> content g = txt \<and>
       mode g = (case fs_read h p of None \<Rightarrow> perm | Some g \<Rightarrow> mode g)"
    using o(5) [OF refl] w(5) by fastforce
qed

lemma os_remove_frame:
  assumes "os_remove Os p h = (r, h')"
  shows "outside {p} h h'" "ifaces h' = ifaces h" "loaded h' = loaded h" "dirs h' = dirs h"
    "fault Os (Remove p) h = None \<Longrightarrow> fs_read h' p = None"
    "fs_read h p = None \<Longrightarrow> fs_read h' p = None"
    "fs_read h' p = fs_read h p \<or> fs_read h' p = None"
  using assms by (auto simp: os_remove_def fstab.look_del split: option.splits)

lemma os_stat_frame:
  assumes "os_stat Os p h = (r, h')"
  shows "h' = tock h"
  using assms by (auto simp: os_stat_def split: option.splits if_splits)

lemma os_read_file_frame:
  assumes "os_read_file Os p h = (r, h')"
  shows "h' = tock h"
  using assms by (auto simp: os_read_file_def split: option.splits)

section \<open>What the agent relies on of the external programs\<close>

text \<open>
  \<open>wg\<close> and \<open>wg-quick\<close>, after their manual pages, for a word that names an interface (\<open>wg show\<close>
  gives \<open>all\<close> and \<open>interfaces\<close> a meaning of their own, and \<open>wg-quick\<close> takes a word with a slash for a
  path) whose configuration runs no hooks and saves nothing, as none that the agent writes does: \<open>wg show i\<close> succeeds exactly when the
  interface exists and changes nothing; \<open>wg-quick up i\<close> that succeeds creates it and one that
  fails leaves the interfaces as they were; \<open>wg-quick down i\<close> that succeeds removes it. None of
  them writes the files the agent writes.
\<close>

definition wg_iface :: "string \<Rightarrow> bool" where
  "wg_iface i \<longleftrightarrow> i \<noteq> [] \<and> i \<noteq> ''all'' \<and> i \<noteq> ''interfaces'' \<and> \<not> has_prefix ''-'' i \<and>
     CHR ''/'' \<notin> set i"

definition keeps_files :: "os \<Rightarrow> string list \<Rightarrow> bool" where
  "keeps_files Os argv \<longleftrightarrow>
     (\<forall>h. files (snd (exec Os argv h)) = files h \<and> dirs (snd (exec Os argv h)) = dirs h)"

definition wg_tools :: "os \<Rightarrow> bool" where
  "wg_tools Os \<longleftrightarrow>
     (\<forall>i. wg_iface i \<longrightarrow>
        keeps_files Os [''wg'', ''show'', i] \<and>
        keeps_files Os [''wg-quick'', ''up'', i] \<and>
        keeps_files Os [''wg-quick'', ''down'', i] \<and>
        (\<forall>h. let (r, h') = exec Os [''wg'', ''show'', i] h in
           ifaces h' = ifaces h \<and> loaded h' = loaded h \<and>
           (cmd_err r = None \<longleftrightarrow> i \<in> set (ifaces h))) \<and>
        (\<forall>h. let (r, h') = exec Os [''wg-quick'', ''up'', i] h in
           loaded h' = loaded h \<and>
           set (ifaces h') =
             (if cmd_err r = None then insert i (set (ifaces h)) else set (ifaces h))) \<and>
        (\<forall>h. let (r, h') = exec Os [''wg-quick'', ''down'', i] h in
           loaded h' = loaded h \<and>
           set (ifaces h') =
             (if cmd_err r = None then set (ifaces h) - {i} else set (ifaces h))))"

text \<open>
  \<open>birdc\<close>: no command writes files or touches interfaces; \<open>configure\<close> that succeeds makes BIRD
  read the configuration files; every other command, and one that fails, leaves what BIRD runs.
\<close>

definition birdc_tools :: "os \<Rightarrow> string \<Rightarrow> bool" where
  "birdc_tools Os birdc \<longleftrightarrow>
     (\<forall>args. keeps_files Os (birdc # args) \<and>
        (\<forall>h. let (r, h') = exec Os (birdc # args) h in
           ifaces h' = ifaces h \<and>
           loaded h' =
             (if args = [''configure''] \<and> cmd_err r = None then files h else loaded h)))"

lemma run_cmd_fst: "run_cmd Os argv h = (r, h') \<Longrightarrow> r = fst (exec Os argv h)"
  by (auto simp: run_cmd_def split: prod.splits)

lemma run_cmd_keeps_files:
  assumes "keeps_files Os argv" "run_cmd Os argv h = (r, h')"
  shows "fs_read h' p = fs_read h p" "outside A h h'" "dirs h' = dirs h" "files h' = files h"
  using assms
  by (auto simp: run_cmd_def keeps_files_def fs_read_def outside_def split: prod.splits
      dest!: spec [of _ h])

lemma wg_show_run:
  assumes "wg_tools Os" "wg_iface i" "run_cmd Os [''wg'', ''show'', i] h = (r, h')"
  shows "ifaces h' = ifaces h" "loaded h' = loaded h" "cmd_err r = None \<longleftrightarrow> i \<in> set (ifaces h)"
    "fs_read h' p = fs_read h p" "outside A h h'"
  using assms unfolding wg_tools_def run_cmd_def
  by (auto simp: Let_def keeps_files_def fs_read_def outside_def split: prod.splits
      dest!: spec [of _ i] spec [of _ h])

lemma wg_up_run:
  assumes "wg_tools Os" "wg_iface i" "run_cmd Os [''wg-quick'', ''up'', i] h = (r, h')"
  shows "loaded h' = loaded h"
    "set (ifaces h') = (if cmd_err r = None then insert i (set (ifaces h)) else set (ifaces h))"
    "fs_read h' p = fs_read h p" "outside A h h'"
  using assms unfolding wg_tools_def run_cmd_def
  by (auto simp: Let_def keeps_files_def fs_read_def outside_def split: prod.splits
      dest!: spec [of _ i] spec [of _ h])

lemma wg_down_run:
  assumes "wg_tools Os" "wg_iface i" "run_cmd Os [''wg-quick'', ''down'', i] h = (r, h')"
  shows "loaded h' = loaded h"
    "set (ifaces h') = (if cmd_err r = None then set (ifaces h) - {i} else set (ifaces h))"
    "fs_read h' p = fs_read h p" "outside A h h'"
  using assms unfolding wg_tools_def run_cmd_def
  by (auto simp: Let_def keeps_files_def fs_read_def outside_def split: prod.splits
      dest!: spec [of _ i] spec [of _ h])

lemma birdc_run:
  assumes "birdc_tools Os birdc" "run_cmd Os (birdc # args) h = (r, h')"
  shows "ifaces h' = ifaces h" "fs_read h' p = fs_read h p" "outside A h h'" "files h' = files h"
    "loaded h' = (if args = [''configure''] \<and> cmd_err r = None then files h else loaded h)"
  using assms unfolding birdc_tools_def run_cmd_def
  by (auto simp: Let_def keeps_files_def fs_read_def outside_def split: prod.splits
      dest!: spec [of _ args] spec [of _ h])

section \<open>A simulated machine\<close>

text \<open>
  A machine on which no system call fails and the programs behave as above. A command fails when
  the predicate \<open>bad\<close> says so, \<open>wg-quick up\<close> also when the interface exists and \<open>wg-quick down\<close>
  also when it does not; \<open>out\<close> is what a command prints. The witnesses run on it.
\<close>

definition cmd_result :: "string \<Rightarrow> bool \<Rightarrow> cmd_out" where
  "cmd_result txt ok =
     \<lparr>stdout = txt, combined = txt, cmd_err = (if ok then None else Some ''exit status 1'')\<rparr>"

definition sim_exec ::
    "(string list \<Rightarrow> bool) \<Rightarrow> (string list \<Rightarrow> string) \<Rightarrow> string list \<Rightarrow> host \<Rightarrow> cmd_out \<times> host" where
  "sim_exec bad out argv h =
     (if length argv = 3 \<and> take 2 argv = [''wg'', ''show''] then
        (cmd_result (out argv) (argv ! 2 \<in> set (ifaces h)), h)
      else if length argv = 3 \<and> take 2 argv = [''wg-quick'', ''up''] then
        (if bad argv \<or> argv ! 2 \<in> set (ifaces h) then (cmd_result (out argv) False, h)
         else (cmd_result (out argv) True, h\<lparr>ifaces := argv ! 2 # ifaces h\<rparr>))
      else if length argv = 3 \<and> take 2 argv = [''wg-quick'', ''down''] then
        (if bad argv \<or> argv ! 2 \<notin> set (ifaces h) then (cmd_result (out argv) False, h)
         else (cmd_result (out argv) True, h\<lparr>ifaces := removeAll (argv ! 2) (ifaces h)\<rparr>))
      else if argv = [''birdc'', ''configure''] \<and> \<not> bad argv then
        (cmd_result (out argv) True, h\<lparr>loaded := files h\<rparr>)
      else (cmd_result (out argv) (\<not> bad argv), h))"

definition sim_os :: "(string list \<Rightarrow> bool) \<Rightarrow> (string list \<Rightarrow> string) \<Rightarrow> os" where
  "sim_os bad out =
     \<lparr>exec = sim_exec bad out, fault = (\<lambda>c h. None), short_write = (\<lambda>p h. 0)\<rparr>"

definition empty_host :: host where
  "empty_host = \<lparr>files = [], dirs = [], dir_modes = [], ifaces = [], loaded = [], tick = 0\<rparr>"

lemma sim_wg_tools: "wg_tools (sim_os bad out)"
  by (auto simp: wg_tools_def keeps_files_def sim_os_def sim_exec_def cmd_result_def)

lemma sim_birdc_tools: "birdc_tools (sim_os bad out) ''birdc''"
  by (auto simp: birdc_tools_def keeps_files_def sim_os_def sim_exec_def cmd_result_def)

end
