(* ===== verification/Config.thy ===== *)
theory Config
  imports Host
begin

text \<open>
  \<open>src/internal/config/config.go\<close>: the configuration file. \<open>yaml.Unmarshal\<close> of \<open>gopkg.in/yaml.v3\<close>
  is a parameter: it takes the text and the structure with the defaults and returns the filled structure or an error.
\<close>

section \<open>The configuration\<close>

record Config =
  cf_CenterURL :: string
  cf_AgentToken :: string
  cf_NodeID :: string
  cf_BirdPeerDir :: string
  cf_WgDir :: string
  cf_BirdcPath :: string
  cf_OurASN :: int
  cf_OurLLA :: string
  cf_OurWgPrivateKey :: string
  cf_HeartbeatInterval :: int
  cf_BirdDetailInterval :: int
  cf_ReconnectMaxInterval :: int
  cf_StorePath :: string

type_synonym yaml = "string \<Rightarrow> Config \<Rightarrow> Config res"

definition maskToken :: "string \<Rightarrow> string" where
  "maskToken t = (if 8 < length t then take 8 t @ ''...'' else ''***'')"

definition default_config :: Config where
  "default_config =
     \<lparr>cf_CenterURL = [], cf_AgentToken = [], cf_NodeID = [], cf_BirdPeerDir = ''/etc/bird/dn42/peer/'',
      cf_WgDir = ''/etc/wireguard/'', cf_BirdcPath = ''/usr/sbin/birdc'', cf_OurASN = 4242420000,
      cf_OurLLA = [], cf_OurWgPrivateKey = [], cf_HeartbeatInterval = 60, cf_BirdDetailInterval = 2,
      cf_ReconnectMaxInterval = 60, cf_StorePath = []\<rparr>"

text \<open>The fields of the log entry that \<open>Load\<close> writes at debug level.\<close>

definition load_log :: "Config \<Rightarrow> (string \<times> string) list" where
  "load_log cfg =
     [(''center_url'', cf_CenterURL cfg), (''agent_token'', maskToken (cf_AgentToken cfg)),
      (''node_id'', cf_NodeID cfg), (''bird_peer_dir'', cf_BirdPeerDir cfg), (''wg_dir'', cf_WgDir cfg),
      (''birdc_path'', cf_BirdcPath cfg), (''our_asn'', itoa (cf_OurASN cfg)), (''our_lla'', cf_OurLLA cfg),
      (''our_wg_private_key'', ''***''), (''heartbeat_interval'', itoa (cf_HeartbeatInterval cfg)),
      (''reconnect_max_interval'', itoa (cf_ReconnectMaxInterval cfg)), (''store_path'', cf_StorePath cfg)]"

text \<open>The checks at the end of \<open>Load\<close>, in their order.\<close>

definition missing_field :: "Config \<Rightarrow> string option" where
  "missing_field cfg =
     (if cf_CenterURL cfg = [] then Some ''center_url is required''
      else if cf_NodeID cfg = [] then Some ''node_id is required''
      else if cf_OurLLA cfg = [] then Some ''our_lla is required''
      else if cf_OurWgPrivateKey cfg = [] then Some ''our_wg_private_key is required''
      else None)"

definition Load :: "os \<Rightarrow> yaml \<Rightarrow> string \<Rightarrow> host \<Rightarrow> Config res \<times> host" where
  "Load Os unmarshalYaml path h =
     (case os_read_file Os path h of
        (Inl e, h) \<Rightarrow> (Inl (''read config file: '' @ os_err_text e), h)
      | (Inr data, h) \<Rightarrow>
          (case unmarshalYaml data default_config of
             Inl e \<Rightarrow> (Inl (''parse config: '' @ e), h)
           | Inr cfg \<Rightarrow>
               (case missing_field cfg of
                  Some e \<Rightarrow> (Inl e, h)
                | None \<Rightarrow> (Inr cfg, h))))"

section \<open>Lemmas\<close>

lemma load_run: "Load Os y path h = (r, h') \<Longrightarrow> h' = tock h"
  by (auto simp: Load_def split: prod.splits sum.splits option.splits dest: os_read_file_frame)

lemma load_complete:
  assumes "Load Os y path h = (Inr cfg, h')"
  shows "cf_CenterURL cfg \<noteq> []" "cf_NodeID cfg \<noteq> []" "cf_OurLLA cfg \<noteq> []" "cf_OurWgPrivateKey cfg \<noteq> []"
    "\<exists>data. os_read_file Os path h = (Inr data, h') \<and> y data default_config = Inr cfg"
  using assms
  by (auto simp: Load_def missing_field_def split: prod.splits sum.splits option.splits if_splits)

text \<open>
  Two configurations that differ in the WireGuard key and in their tokens behind the first eight bytes
  leave the same log.
\<close>

lemma load_log_secrets:
  assumes "8 < length t" "8 < length t'" "take 8 t = take 8 t'"
  shows "load_log (cfg\<lparr>cf_AgentToken := t, cf_OurWgPrivateKey := k\<rparr>) =
    load_log (cfg\<lparr>cf_AgentToken := t', cf_OurWgPrivateKey := k'\<rparr>)"
  using assms by (simp add: load_log_def maskToken_def)

end
