(* ===== verification/Go_Json.thy ===== *)
theory Go_Json
  imports Prelude
begin

text \<open>
  The Go package \<open>encoding/json\<close> as the agent uses it: \<open>Marshal\<close> as the compact printer
  \<open>json_print\<close> (HTML characters, U+2028 and U+2029 escaped, invalid UTF-8 replaced), \<open>Unmarshal\<close> as
  the parser \<open>json_parse\<close> followed by a decoder per field that follows Go's rules (keys match up to case
  folding, a later duplicate wins, \<open>null\<close> leaves a value alone and clears a pointer, a number
  goes into an \<open>int64\<close> only when its literal is an integer in range). A \<open>json.RawMessage\<close> is held
  as its syntax tree. The parser has no limit on nesting; Go refuses more than 10000 levels.
  The last section proves that the parser reads back what the printer writes.
\<close>

section \<open>Syntax trees\<close>

datatype json =
    JNull
  | JBool bool
  | JNum string
  | JStr string
  | JArr "json list"
  | JObj "(string \<times> json) list"

abbreviation dq :: char where "dq \<equiv> CHR 0x22"
abbreviation bs :: char where "bs \<equiv> CHR 0x5C"

section \<open>UTF-8\<close>

definition cont_byte :: "nat \<Rightarrow> bool" where
  "cont_byte b \<longleftrightarrow> 128 \<le> b \<and> b \<le> 191"

definition rune2 :: "nat \<Rightarrow> nat \<Rightarrow> bool" where
  "rune2 a b \<longleftrightarrow> 0xC2 \<le> a \<and> a \<le> 0xDF \<and> cont_byte b"

definition rune3 :: "nat \<Rightarrow> nat \<Rightarrow> nat \<Rightarrow> bool" where
  "rune3 a b c \<longleftrightarrow>
     0xE0 \<le> a \<and> a \<le> 0xEF \<and> (if a = 0xE0 then 0xA0 else 0x80) \<le> b \<and>
     b \<le> (if a = 0xED then 0x9F else 0xBF) \<and> cont_byte c"

definition rune4 :: "nat \<Rightarrow> nat \<Rightarrow> nat \<Rightarrow> nat \<Rightarrow> bool" where
  "rune4 a b c d \<longleftrightarrow>
     0xF0 \<le> a \<and> a \<le> 0xF4 \<and> (if a = 0xF0 then 0x90 else 0x80) \<le> b \<and>
     b \<le> (if a = 0xF4 then 0x8F else 0xBF) \<and> cont_byte c \<and> cont_byte d"

text \<open>Length of the valid UTF-8 sequence at the head of a string, 0 when there is none.\<close>

definition rune_len :: "string \<Rightarrow> nat" where
  "rune_len w =
     (case w of
        [] \<Rightarrow> 0
      | a # s \<Rightarrow>
          if byte_of a < 128 then 1
          else (case s of
            [] \<Rightarrow> 0
          | b # s \<Rightarrow>
              if rune2 (byte_of a) (byte_of b) then 2
              else (case s of
                [] \<Rightarrow> 0
              | c # s \<Rightarrow>
                  if rune3 (byte_of a) (byte_of b) (byte_of c) then 3
                  else (case s of
                    [] \<Rightarrow> 0
                  | d # _ \<Rightarrow>
                      if rune4 (byte_of a) (byte_of b) (byte_of c) (byte_of d) then 4 else 0))))"

fun utf8_valid :: "string \<Rightarrow> bool" where
  "utf8_valid [] = True"
| "utf8_valid (c # s) =
     (case rune_len (c # s) of 0 \<Rightarrow> False | Suc m \<Rightarrow> utf8_valid (drop m s))"

text \<open>\<open>utf8.AppendRune\<close> for a code point that is not a surrogate.\<close>

definition utf8_enc :: "nat \<Rightarrow> string" where
  "utf8_enc r =
     (if r < 0x80 then [char_of r]
      else if r < 0x800 then [char_of (0xC0 + r div 64), char_of (0x80 + r mod 64)]
      else if r < 0x10000 then
        [char_of (0xE0 + r div 4096), char_of (0x80 + r div 64 mod 64), char_of (0x80 + r mod 64)]
      else
        [char_of (0xF0 + r div 262144), char_of (0x80 + r div 4096 mod 64),
         char_of (0x80 + r div 64 mod 64), char_of (0x80 + r mod 64)])"

definition replacement :: string where
  "replacement = [CHR 0xEF, CHR 0xBF, CHR 0xBD]"

section \<open>Printing\<close>

definition hex_char :: "nat \<Rightarrow> char" where
  "hex_char n = char_of (if n < 10 then 48 + n else 87 + n)"

definition hex_val :: "char \<Rightarrow> nat option" where
  "hex_val c =
     (let b = byte_of c in
      if 48 \<le> b \<and> b \<le> 57 then Some (b - 48)
      else if 97 \<le> b \<and> b \<le> 102 then Some (b - 87)
      else if 65 \<le> b \<and> b \<le> 70 then Some (b - 55)
      else None)"

definition esc_char :: "char \<Rightarrow> string" where
  "esc_char c =
     (let b = byte_of c in
      if c = dq \<or> c = bs then [bs, c]
      else if b = 8 then [bs, CHR ''b'']
      else if b = 12 then [bs, CHR ''f'']
      else if b = 10 then [bs, CHR ''n'']
      else if b = 13 then [bs, CHR ''r'']
      else if b = 9 then [bs, CHR ''t'']
      else if b < 32 \<or> c = CHR ''<'' \<or> c = CHR ''>'' \<or> c = CHR ''&'' then
        [bs, CHR ''u'', CHR ''0'', CHR ''0'', hex_char (b div 16), hex_char (b mod 16)]
      else [c])"

definition quote_rune :: "string \<Rightarrow> string" where
  "quote_rune r =
     (if r = [CHR 0xE2, CHR 0x80, CHR 0xA8] then bs # ''u2028''
      else if r = [CHR 0xE2, CHR 0x80, CHR 0xA9] then bs # ''u2029''
      else r)"

fun quote_body :: "string \<Rightarrow> string" where
  "quote_body [] = []"
| "quote_body (c # s) =
     (if byte_of c < 128 then esc_char c @ quote_body s
      else (case rune_len (c # s) of
              0 \<Rightarrow> bs # ''ufffd'' @ quote_body s
            | Suc m \<Rightarrow> quote_rune (c # take m s) @ quote_body (drop m s)))"

definition json_quote :: "string \<Rightarrow> string" where
  "json_quote s = dq # quote_body s @ [dq]"

fun json_print :: "json \<Rightarrow> string" where
  "json_print JNull = ''null''"
| "json_print (JBool b) = (if b then ''true'' else ''false'')"
| "json_print (JNum l) = l"
| "json_print (JStr s) = json_quote s"
| "json_print (JArr vs) = ''['' @ join_with '','' (map json_print vs) @ '']''"
| "json_print (JObj ms) =
     ''{'' @ join_with '','' (map (\<lambda>(k, v). json_quote k @ '':'' @ json_print v) ms) @ ''}''"

section \<open>Parsing\<close>

definition json_space :: "char \<Rightarrow> bool" where
  "json_space c \<longleftrightarrow> c = CHR '' '' \<or> c = tab \<or> c = lf \<or> c = cr"

definition skip_ws :: "string \<Rightarrow> string" where
  "skip_ws s = dropWhile json_space s"

fun hex4 :: "string \<Rightarrow> nat option" where
  "hex4 (a # b # c # d # s) =
     (case (hex_val a, hex_val b, hex_val c, hex_val d) of
        (Some w, Some x, Some y, Some z) \<Rightarrow> Some (w * 4096 + x * 256 + y * 16 + z)
      | _ \<Rightarrow> None)"
| "hex4 _ = None"

definition surrogate :: "nat \<Rightarrow> bool" where
  "surrogate r \<longleftrightarrow> 0xD800 \<le> r \<and> r < 0xE000"

text \<open>The code point of a \<open>\u\<close> escape whose first half is \<open>r\<close>, and the characters it takes after it.\<close>

definition second_half :: "nat \<Rightarrow> string \<Rightarrow> string \<times> nat" where
  "second_half r s =
     (if \<not> surrogate r then (utf8_enc r, 0)
      else (case s of
              a # b # s' \<Rightarrow>
                (if a = bs \<and> b = CHR ''u'' then
                   (case hex4 s' of
                      Some r' \<Rightarrow>
                        if r < 0xDC00 \<and> 0xDC00 \<le> r' \<and> r' < 0xE000
                        then (utf8_enc ((r - 0xD800) * 1024 + (r' - 0xDC00) + 0x10000), 6)
                        else (replacement, 0)
                    | None \<Rightarrow> (replacement, 0))
                 else (replacement, 0))
            | _ \<Rightarrow> (replacement, 0)))"

definition simple_escape :: "char \<Rightarrow> char option" where
  "simple_escape e =
     (if e = dq \<or> e = bs \<or> e = CHR ''/'' then Some e
      else if e = CHR ''b'' then Some (CHR 0x08)
      else if e = CHR ''f'' then Some (CHR 0x0C)
      else if e = CHR ''n'' then Some lf
      else if e = CHR ''r'' then Some cr
      else if e = CHR ''t'' then Some tab
      else None)"

definition prepend :: "string \<Rightarrow> (string \<times> 'r) option \<Rightarrow> (string \<times> 'r) option" where
  "prepend u r = map_option (\<lambda>(s, t). (u @ s, t)) r"

text \<open>A string literal after its opening quote: its value and what follows the closing quote.\<close>

fun unquote :: "string \<Rightarrow> (string \<times> string) option" where
  "unquote [] = None"
| "unquote (c # s) =
     (if c = dq then Some ([], s)
      else if c = bs then
        (case s of
           [] \<Rightarrow> None
         | e # s' \<Rightarrow>
             if e = CHR ''u'' then
               (case hex4 s' of
                  None \<Rightarrow> None
                | Some r \<Rightarrow>
                    (let (u, k) = second_half r (drop 4 s')
                     in prepend u (unquote (drop (4 + k) s'))))
             else
               (case simple_escape e of
                  None \<Rightarrow> None
                | Some x \<Rightarrow> prepend [x] (unquote s')))
      else if byte_of c < 32 then None
      else if byte_of c < 128 then prepend [c] (unquote s)
      else (case rune_len (c # s) of
              0 \<Rightarrow> prepend replacement (unquote s)
            | Suc m \<Rightarrow> prepend (c # take m s) (unquote (drop m s))))"

definition int_part :: "string \<Rightarrow> (string \<times> string) option" where
  "int_part s =
     (case s of
        [] \<Rightarrow> None
      | c # r \<Rightarrow>
          if c = CHR ''0'' then Some ([c], r)
          else if is_digit c then Some (takeWhile is_digit s, dropWhile is_digit s)
          else None)"

definition digits_after :: "string \<Rightarrow> string \<Rightarrow> (string \<times> string) option" where
  "digits_after u s =
     (if takeWhile is_digit s = [] then None
      else Some (u @ takeWhile is_digit s, dropWhile is_digit s))"

definition frac_part :: "string \<Rightarrow> (string \<times> string) option" where
  "frac_part s =
     (case s of
        [] \<Rightarrow> Some ([], [])
      | c # r \<Rightarrow> if c = CHR ''.'' then digits_after [c] r else Some ([], s))"

definition exp_part :: "string \<Rightarrow> (string \<times> string) option" where
  "exp_part s =
     (case s of
        [] \<Rightarrow> Some ([], [])
      | c # r \<Rightarrow>
          if c = CHR ''e'' \<or> c = CHR ''E'' then
            (case r of
               [] \<Rightarrow> None
             | d # r' \<Rightarrow>
                 if d = CHR ''+'' \<or> d = CHR ''-'' then digits_after [c, d] r'
                 else digits_after [c] r)
          else Some ([], s))"

definition num_unsigned :: "string \<Rightarrow> (string \<times> string) option" where
  "num_unsigned s =
     (case int_part s of
        None \<Rightarrow> None
      | Some (i, s1) \<Rightarrow>
          (case frac_part s1 of
             None \<Rightarrow> None
           | Some (f, s2) \<Rightarrow>
               (case exp_part s2 of
                  None \<Rightarrow> None
                | Some (e, s3) \<Rightarrow> Some (i @ f @ e, s3))))"

definition num_lit :: "string \<Rightarrow> (string \<times> string) option" where
  "num_lit s =
     (case s of
        [] \<Rightarrow> None
      | c # r \<Rightarrow> if c = CHR ''-'' then prepend [c] (num_unsigned r) else num_unsigned s)"

text \<open>
  The recursive descent, with fuel for the nesting of calls. \<open>json_parse\<close> gives twice the length
  of the text, which \<open>jcost_le\<close> below shows is enough for every printed value.
\<close>

fun jvalue :: "nat \<Rightarrow> string \<Rightarrow> (json \<times> string) option"
  and jelems :: "nat \<Rightarrow> string \<Rightarrow> (json list \<times> string) option"
  and jmembers :: "nat \<Rightarrow> string \<Rightarrow> ((string \<times> json) list \<times> string) option"
where
  "jvalue 0 s = None"
| "jvalue (Suc n) s =
     (case skip_ws s of
        [] \<Rightarrow> None
      | c # r \<Rightarrow>
          if c = dq then map_option (apfst JStr) (unquote r)
          else if c = CHR ''['' then
            (case skip_ws r of
               [] \<Rightarrow> None
             | d # r' \<Rightarrow>
                 if d = CHR '']'' then Some (JArr [], r')
                 else map_option (apfst JArr) (jelems n r))
          else if c = CHR ''{'' then
            (case skip_ws r of
               [] \<Rightarrow> None
             | d # r' \<Rightarrow>
                 if d = CHR ''}'' then Some (JObj [], r')
                 else map_option (apfst JObj) (jmembers n r))
          else if has_prefix ''true'' (c # r) then Some (JBool True, drop 3 r)
          else if has_prefix ''false'' (c # r) then Some (JBool False, drop 4 r)
          else if has_prefix ''null'' (c # r) then Some (JNull, drop 3 r)
          else map_option (apfst JNum) (num_lit (c # r)))"
| "jelems 0 s = None"
| "jelems (Suc n) s =
     (case jvalue n s of
        None \<Rightarrow> None
      | Some (v, r) \<Rightarrow>
          (case skip_ws r of
             [] \<Rightarrow> None
           | c # r' \<Rightarrow>
               if c = CHR '','' then map_option (apfst (\<lambda>vs. v # vs)) (jelems n r')
               else if c = CHR '']'' then Some ([v], r')
               else None))"
| "jmembers 0 s = None"
| "jmembers (Suc n) s =
     (case skip_ws s of
        [] \<Rightarrow> None
      | c # r \<Rightarrow>
          if c \<noteq> dq then None
          else (case unquote r of
            None \<Rightarrow> None
          | Some (k, r) \<Rightarrow>
              (case skip_ws r of
                 [] \<Rightarrow> None
               | c # r \<Rightarrow>
                   if c \<noteq> CHR '':'' then None
                   else (case jvalue n r of
                     None \<Rightarrow> None
                   | Some (v, r) \<Rightarrow>
                       (case skip_ws r of
                          [] \<Rightarrow> None
                        | c # r' \<Rightarrow>
                            if c = CHR '','' then map_option (apfst (\<lambda>ms. (k, v) # ms)) (jmembers n r')
                            else if c = CHR ''}'' then Some ([(k, v)], r')
                            else None)))))"

definition json_parse :: "string \<Rightarrow> json option" where
  "json_parse s =
     (case jvalue (2 * length s) s of
        Some (v, r) \<Rightarrow> if skip_ws r = [] then Some v else None
      | None \<Rightarrow> None)"

section \<open>Decoding into Go values\<close>

text \<open>\<open>foldName\<close>: ASCII letters in upper case; U+017F and U+212A fold to ASCII letters.\<close>

definition upper_char :: "char \<Rightarrow> char" where
  "upper_char c = (if 97 \<le> byte_of c \<and> byte_of c \<le> 122 then char_of (byte_of c - 32) else c)"

fun fold_name :: "string \<Rightarrow> string" where
  "fold_name [] = []"
| "fold_name (c # s) =
     (if c = CHR 0xC5 \<and> take 1 s = [CHR 0xBF] then CHR ''S'' # fold_name (drop 1 s)
      else if c = CHR 0xE2 \<and> take 2 s = [CHR 0x84, CHR 0xAA] then CHR ''K'' # fold_name (drop 2 s)
      else upper_char c # fold_name s)"

text \<open>The values an object assigns to a field, in the order of the text.\<close>

definition jfield :: "string \<Rightarrow> (string \<times> json) list \<Rightarrow> json list" where
  "jfield name ms = map snd (filter (\<lambda>(k, v). fold_name k = fold_name name) ms)"

definition get_field :: "('a \<Rightarrow> json \<Rightarrow> 'a option) \<Rightarrow> 'a \<Rightarrow> string \<Rightarrow> (string \<times> json) list \<Rightarrow> 'a option" where
  "get_field dec zero name ms =
     foldl (\<lambda>acc v. case acc of None \<Rightarrow> None | Some a \<Rightarrow> dec a v) (Some zero) (jfield name ms)"

fun dec_string :: "string \<Rightarrow> json \<Rightarrow> string option" where
  "dec_string old JNull = Some old"
| "dec_string old (JStr s) = Some s"
| "dec_string old _ = None"

fun dec_int64 :: "int \<Rightarrow> json \<Rightarrow> int option" where
  "dec_int64 old JNull = Some old"
| "dec_int64 old (JNum l) = int64_read l"
| "dec_int64 old _ = None"

fun dec_bool :: "bool \<Rightarrow> json \<Rightarrow> bool option" where
  "dec_bool old JNull = Some old"
| "dec_bool old (JBool b) = Some b"
| "dec_bool old _ = None"

text \<open>Pointers: \<open>null\<close> makes them nil.\<close>

fun dec_int_ptr :: "int option \<Rightarrow> json \<Rightarrow> int option option" where
  "dec_int_ptr old JNull = Some None"
| "dec_int_ptr old (JNum l) = map_option Some (int64_read l)"
| "dec_int_ptr old _ = None"

fun dec_string_ptr :: "string option \<Rightarrow> json \<Rightarrow> string option option" where
  "dec_string_ptr old JNull = Some None"
| "dec_string_ptr old (JStr s) = Some (Some s)"
| "dec_string_ptr old _ = None"

fun dec_bool_ptr :: "bool option \<Rightarrow> json \<Rightarrow> bool option option" where
  "dec_bool_ptr old JNull = Some None"
| "dec_bool_ptr old (JBool b) = Some (Some b)"
| "dec_bool_ptr old _ = None"

text \<open>The members a value gives to a struct; \<open>null\<close> gives none and anything else is an error.\<close>

fun members :: "json \<Rightarrow> (string \<times> json) list option" where
  "members (JObj ms) = Some ms"
| "members JNull = Some []"
| "members _ = None"

text \<open>A slice of structs: \<open>null\<close> is the empty slice, a \<open>null\<close> element is a zero struct.\<close>

fun dec_all :: "(json \<Rightarrow> 'a option) \<Rightarrow> json list \<Rightarrow> 'a list option" where
  "dec_all dec [] = Some []"
| "dec_all dec (v # vs) =
     (case dec v of
        None \<Rightarrow> None
      | Some x \<Rightarrow> map_option (\<lambda>xs. x # xs) (dec_all dec vs))"

fun dec_slice :: "(json \<Rightarrow> 'a option) \<Rightarrow> 'a list \<Rightarrow> json \<Rightarrow> 'a list option" where
  "dec_slice dec old JNull = Some []"
| "dec_slice dec old (JArr vs) = dec_all dec vs"
| "dec_slice dec old _ = None"

section \<open>The parser reads back what the printer writes\<close>

fun jwf :: "json \<Rightarrow> bool" where
  "jwf (JNum l) = (num_lit l = Some (l, []))"
| "jwf (JStr s) = utf8_valid s"
| "jwf (JArr vs) = (\<forall>v \<in> set vs. jwf v)"
| "jwf (JObj ms) = (\<forall>(k, v) \<in> set ms. utf8_valid k \<and> jwf v)"
| "jwf _ = True"

subsection \<open>Strings\<close>

lemma prepend_simps [simp]:
  "prepend u None = None" "prepend u (Some (s, t)) = Some (u @ s, t)"
  by (simp_all add: prepend_def)

lemma char_of_byte [simp]: "char_of (byte_of c :: nat) = c"
  by simp

lemma hex_val_char: "n < 16 \<Longrightarrow> hex_val (hex_char n) = Some n"
  by (auto simp: hex_val_def hex_char_def Let_def)

lemma utf8_enc_ascii: "byte_of c < 128 \<Longrightarrow> utf8_enc (byte_of c) = [c]"
  by (simp add: utf8_enc_def)

lemma hex4_byte:
  "b < 128 \<Longrightarrow> hex4 (CHR ''0'' # CHR ''0'' # hex_char (b div 16) # hex_char (b mod 16) # s) = Some b"
  by (simp add: hex_val_char) (simp add: hex_val_def)

lemma unquote_esc_u:
  assumes "byte_of c < 128"
    and "esc_char c =
      [bs, CHR ''u'', CHR ''0'', CHR ''0'', hex_char (byte_of c div 16), hex_char (byte_of c mod 16)]"
  shows "unquote (esc_char c @ s) = prepend [c] (unquote s)"
proof -
  have "\<not> surrogate (byte_of c)" using assms(1) by (simp add: surrogate_def)
  with assms show ?thesis
    using hex4_byte [OF assms(1), of s] utf8_enc_ascii [OF assms(1)]
    by (simp add: second_half_def del: hex4.simps)
qed

lemma byte_inj: "(byte_of c :: nat) = byte_of d \<Longrightarrow> c = d"
  by (metis char_of_byte)

lemma line_sep_enc:
  "utf8_enc 0x2028 = [CHR 0xE2, CHR 0x80, CHR 0xA8]"
  "utf8_enc 0x2029 = [CHR 0xE2, CHR 0x80, CHR 0xA9]"
  by (simp_all add: utf8_enc_def char_of_def bit_0)

lemma unquote_esc_char:
  assumes "byte_of c < 128"
  shows "unquote (esc_char c @ s) = prepend [c] (unquote s)"
proof (cases "c = dq \<or> c = bs \<or> byte_of c \<in> {8, 12, 10, 13, 9}")
  case True
  then have "c \<in> {dq, bs, CHR 0x08, CHR 0x0C, lf, cr, tab}"
    by (auto intro: byte_inj)
  then show ?thesis
    by (elim insertE emptyE) (simp_all add: esc_char_def simple_escape_def)
next
  case F: False
  show ?thesis
  proof (cases "byte_of c < 32 \<or> c = CHR ''<'' \<or> c = CHR ''>'' \<or> c = CHR ''&''")
    case True
    with F show ?thesis
      by (intro unquote_esc_u assms) (simp add: esc_char_def Let_def)
  next
    case False
    with F assms have "esc_char c = [c]" "c \<noteq> dq" "c \<noteq> bs" "\<not> byte_of c < 32"
      by (simp_all add: esc_char_def Let_def)
    with assms show ?thesis by simp
  qed
qed

lemma rune_len_le: "rune_len s \<le> length s"
  by (auto simp: rune_len_def split: list.splits)

lemma rune_len_ascii [simp]: "byte_of c < 128 \<Longrightarrow> rune_len (c # s) = Suc 0"
  by (simp add: rune_len_def)

lemma rune_len_append:
  "rune_len (c # s) = Suc m \<Longrightarrow> rune_len (c # take m s @ t) = Suc m"
  by (auto simp: rune_len_def split: list.splits if_splits)

lemma unquote_quote_rune:
  assumes "\<not> byte_of c < 128" "rune_len (c # s) = Suc m"
  shows "unquote (quote_rune (c # take m s) @ t) = prepend (c # take m s) (unquote t)"
proof -
  have len: "length (take m s) = m"
    using rune_len_le [of "c # s"] assms by simp
  have special: "unquote (quote_rune r @ t) = prepend r (unquote t)"
    if "r = [CHR 0xE2, CHR 0x80, CHR 0xA8] \<or> r = [CHR 0xE2, CHR 0x80, CHR 0xA9]" for r
    using that by (auto simp: quote_rune_def hex_val_def second_half_def surrogate_def line_sep_enc)
  have "c \<noteq> dq" "c \<noteq> bs" "\<not> byte_of c < 32"
    using assms(1) by auto
  then have plain: "unquote ((c # take m s) @ t) = prepend (c # take m s) (unquote t)"
    using assms rune_len_append [OF assms(2), of t] len by simp
  show ?thesis
    using special [of "c # take m s"] plain by (auto simp: quote_rune_def)
qed

lemma unquote_quote: "utf8_valid s \<Longrightarrow> unquote (quote_body s @ dq # t) = Some (s, t)"
proof (induction s rule: utf8_valid.induct)
  case 1
  then show ?case by simp
next
  case (2 c s)
  then obtain m where m: "rune_len (c # s) = Suc m" and v: "utf8_valid (drop m s)"
    by (auto split: nat.splits)
  note IH = "2.IH" [OF m v]
  show ?case
  proof (cases "byte_of c < 128")
    case True
    then have "m = 0" using m rune_len_ascii by simp
    with True IH show ?thesis
      by (simp add: unquote_esc_char)
  next
    case False
    have "unquote (quote_body (c # s) @ dq # t) =
        unquote (quote_rune (c # take m s) @ quote_body (drop m s) @ dq # t)"
      using False m by simp
    also have "\<dots> = prepend (c # take m s) (Some (drop m s, t))"
      by (simp only: unquote_quote_rune [OF False m] IH)
    finally show ?thesis by simp
  qed
qed

subsection \<open>Numbers\<close>

definition delim :: "string \<Rightarrow> bool" where
  "delim t \<longleftrightarrow> t = [] \<or> hd t = CHR '','' \<or> hd t = CHR '']'' \<or> hd t = CHR ''}''"

lemma delim_Nil [simp]: "delim []"
  by (simp add: delim_def)

lemma delim_not_digit: "delim t \<Longrightarrow> t = [] \<or> \<not> is_digit (hd t)"
  by (auto simp: delim_def is_digit_def)

lemma span_delim:
  assumes "t = [] \<or> \<not> P (hd t)"
  shows "takeWhile P (s @ t) = takeWhile P s" "dropWhile P (s @ t) = dropWhile P s @ t"
  using assms by (induction s) (cases t; auto)+

lemmas span_digits = span_delim [where P = is_digit, OF delim_not_digit]

lemma int_part_append: "int_part s = Some (a, b) \<Longrightarrow> delim t \<Longrightarrow> int_part (s @ t) = Some (a, b @ t)"
  by (cases s) (auto simp: int_part_def span_digits split: if_splits)

lemma digits_after_append:
  "digits_after u s = Some (a, b) \<Longrightarrow> delim t \<Longrightarrow> digits_after u (s @ t) = Some (a, b @ t)"
  by (auto simp: digits_after_def span_digits split: if_splits)

lemmas digits_after_append' = digits_after_append [where s = "d # s" for d s, simplified]

lemma frac_part_append:
  "frac_part s = Some (a, b) \<Longrightarrow> delim t \<Longrightarrow> frac_part (s @ t) = Some (a, b @ t)"
  by (cases s; cases t) (auto simp: frac_part_def delim_def digits_after_append split: if_splits)

lemma exp_part_append:
  "exp_part s = Some (a, b) \<Longrightarrow> delim t \<Longrightarrow> exp_part (s @ t) = Some (a, b @ t)"
  by (cases s; cases t)
    (auto simp: exp_part_def delim_def digits_after_append digits_after_append'
      split: if_splits list.splits)

lemma num_unsigned_append:
  assumes "num_unsigned s = Some (a, b)" "delim t"
  shows "num_unsigned (s @ t) = Some (a, b @ t)"
proof -
  from assms(1) obtain i s1 f s2 e where
    "int_part s = Some (i, s1)" "frac_part s1 = Some (f, s2)" "exp_part s2 = Some (e, b)" "a = i @ f @ e"
    by (auto simp: num_unsigned_def split: option.splits)
  with assms(2) show ?thesis
    by (simp add: num_unsigned_def int_part_append frac_part_append exp_part_append)
qed

lemma num_lit_append:
  assumes "num_lit s = Some (a, b)" "delim t"
  shows "num_lit (s @ t) = Some (a, b @ t)"
proof (cases s)
  case Nil
  with assms show ?thesis by (simp add: num_lit_def)
next
  case (Cons c r)
  show ?thesis
  proof (cases "c = CHR ''-''")
    case True
    with assms(1) Cons obtain a' where "num_unsigned r = Some (a', b)" "a = c # a'"
      by (auto simp: num_lit_def prepend_def)
    with True Cons assms(2) show ?thesis by (simp add: num_lit_def num_unsigned_append)
  next
    case False
    with assms(1) Cons have "num_unsigned (c # r) = Some (a, b)" by (simp add: num_lit_def)
    from num_unsigned_append [OF this assms(2)] False Cons show ?thesis
      by (simp add: num_lit_def)
  qed
qed

lemma num_unsigned_hd: "num_unsigned s = Some (a, b) \<Longrightarrow> s \<noteq> [] \<and> is_digit (hd s)"
  by (cases s) (auto simp: num_unsigned_def int_part_def is_digit_def split: if_splits option.splits)

lemma num_lit_hd: "num_lit s = Some (a, b) \<Longrightarrow> s \<noteq> [] \<and> (is_digit (hd s) \<or> hd s = CHR ''-'')"
  by (cases s) (auto simp: num_lit_def prepend_def split: if_splits dest: num_unsigned_hd)

subsection \<open>Values\<close>

lemma skip_ws_id: "s \<noteq> [] \<Longrightarrow> \<not> json_space (hd s) \<Longrightarrow> skip_ws s = s"
  by (cases s) (simp_all add: skip_ws_def)

lemma num_start:
  assumes "is_digit c \<or> c = CHR ''-''"
  shows "c \<noteq> dq" "c \<noteq> CHR ''[''" "c \<noteq> CHR ''{''" "c \<noteq> CHR ''t''" "c \<noteq> CHR ''f''" "c \<noteq> CHR ''n''"
    "\<not> json_space c" "c \<noteq> CHR '']''" "c \<noteq> CHR ''}''"
  using assms by (auto simp: is_digit_def json_space_def)

text \<open>What a printed value starts with.\<close>

lemma json_print_hd:
  assumes "jwf j"
  shows "json_print j \<noteq> [] \<and> \<not> json_space (hd (json_print j)) \<and>
    hd (json_print j) \<noteq> CHR '']'' \<and> hd (json_print j) \<noteq> CHR ''}''"
proof (cases j)
  case (JNum l)
  with assms have "l \<noteq> [] \<and> (is_digit (hd l) \<or> hd l = CHR ''-'')"
    by (auto dest: num_lit_hd)
  with JNum show ?thesis using num_start [of "hd l"] by simp
qed (auto simp: json_quote_def json_space_def)

text \<open>The fuel that reading a printed value takes.\<close>

fun jcost :: "json \<Rightarrow> nat" where
  "jcost (JArr vs) = Suc (foldr (\<lambda>v n. Suc (max (jcost v) n)) vs 0)"
| "jcost (JObj ms) = Suc (foldr (\<lambda>(k, v) n. Suc (max (jcost v) n)) ms 0)"
| "jcost _ = 1"

lemma json_quote_append: "json_quote s @ t = dq # quote_body s @ dq # t"
  by (simp add: json_quote_def)

lemma unquote_json_quote: "utf8_valid s \<Longrightarrow> unquote (quote_body s @ dq # t) = Some (s, t)"
  by (rule unquote_quote)

lemma jelems_print:
  assumes "vs \<noteq> []"
    and "\<And>v n t. v \<in> set vs \<Longrightarrow> jcost v \<le> n \<Longrightarrow> delim t \<Longrightarrow> jvalue n (json_print v @ t) = Some (v, t)"
    and "foldr (\<lambda>v n. Suc (max (jcost v) n)) vs 0 \<le> n"
  shows "jelems n (join_with '','' (map json_print vs) @ CHR '']'' # t) = Some (vs, t)"
  using assms
proof (induction vs arbitrary: n)
  case Nil
  then show ?case by simp
next
  case (Cons v vs)
  then obtain m where n: "n = Suc m" and m: "jcost v \<le> m"
    "foldr (\<lambda>v n. Suc (max (jcost v) n)) vs 0 \<le> m"
    by (cases n) auto
  show ?case
  proof (cases vs)
    case Nil
    have "jvalue m (json_print v @ CHR '']'' # t) = Some (v, CHR '']'' # t)"
      by (rule Cons.prems(2)) (simp_all add: m delim_def)
    with Nil n show ?thesis by (simp add: skip_ws_def json_space_def)
  next
    case (Cons w ws)
    let ?rest = "join_with '','' (map json_print vs) @ CHR '']'' # t"
    have "jvalue m (json_print v @ CHR '','' # ?rest) = Some (v, CHR '','' # ?rest)"
      by (rule Cons.prems(2)) (simp_all add: m delim_def)
    moreover have "jelems m ?rest = Some (vs, t)"
      by (rule Cons.IH) (use Cons Cons.prems(2) m(2) in auto)
    ultimately show ?thesis
      using Cons n by (simp add: skip_ws_def json_space_def)
  qed
qed

lemma jmembers_print:
  assumes "ms \<noteq> []"
    and "\<And>k v n t. (k, v) \<in> set ms \<Longrightarrow> jcost v \<le> n \<Longrightarrow> delim t \<Longrightarrow>
      jvalue n (json_print v @ t) = Some (v, t)"
    and "\<forall>(k, v) \<in> set ms. utf8_valid k"
    and "foldr (\<lambda>(k, v) n. Suc (max (jcost v) n)) ms 0 \<le> n"
  shows "jmembers n (join_with '','' (map (\<lambda>(k, v). json_quote k @ '':'' @ json_print v) ms) @
      CHR ''}'' # t) = Some (ms, t)"
  using assms
proof (induction ms arbitrary: n)
  case Nil
  then show ?case by simp
next
  case (Cons kv ms)
  obtain k v where kv: "kv = (k, v)" by (cases kv)
  with Cons.prems obtain m where n: "n = Suc m" and m: "jcost v \<le> m"
    "foldr (\<lambda>(k, v) n. Suc (max (jcost v) n)) ms 0 \<le> m"
    by (cases n) auto
  from kv Cons.prems(3) have k: "utf8_valid k" by simp
  show ?case
  proof (cases ms)
    case Nil
    have "jvalue m (json_print v @ CHR ''}'' # t) = Some (v, CHR ''}'' # t)"
      by (rule Cons.prems(2) [where k = k]) (simp_all add: m kv delim_def)
    with Nil n kv k show ?thesis
      by (simp add: json_quote_append unquote_json_quote skip_ws_def json_space_def)
  next
    case (Cons w ws)
    let ?rest = "join_with '','' (map (\<lambda>(k, v). json_quote k @ '':'' @ json_print v) ms) @ CHR ''}'' # t"
    have "jvalue m (json_print v @ CHR '','' # ?rest) = Some (v, CHR '','' # ?rest)"
      by (rule Cons.prems(2) [where k = k]) (simp_all add: m kv delim_def)
    moreover have "jmembers m ?rest = Some (ms, t)"
      by (rule Cons.IH) (use Cons Cons.prems(2,3) m(2) in auto)
    ultimately show ?thesis
      using Cons n kv k
      by (simp add: json_quote_append unquote_json_quote skip_ws_def json_space_def)
  qed
qed

lemma jvalue_num:
  assumes "num_lit l = Some (l, [])" "delim t"
  shows "jvalue (Suc n) (l @ t) = Some (JNum l, t)"
proof -
  from num_lit_hd [OF assms(1)] obtain c r where l: "l = c # r" and c: "is_digit c \<or> c = CHR ''-''"
    by (cases l) auto
  have "num_lit (c # r @ t) = Some (l, t)"
    using num_lit_append [OF assms] l by simp
  with l num_start [OF c] show ?thesis
    by (simp add: skip_ws_def has_prefix_def)
qed

lemma join_print_hd:
  assumes "vs \<noteq> []" "\<forall>v \<in> set vs. f v \<noteq> [] \<and> P (hd (f v))"
  shows "\<exists>c r. join_with d (map f vs) @ t = c # r @ t \<and> P c"
  using assms by (cases vs; cases "tl vs") (auto simp: neq_Nil_conv)

lemma jvalue_print_arr:
  assumes "jwf (JArr vs)" "jcost (JArr vs) \<le> n" "delim t"
    and IH: "\<And>v n t. v \<in> set vs \<Longrightarrow> jwf v \<Longrightarrow> jcost v \<le> n \<Longrightarrow> delim t \<Longrightarrow> jvalue n (json_print v @ t) = Some (v, t)"
  shows "jvalue n (json_print (JArr vs) @ t) = Some (JArr vs, t)"
proof -
  obtain m where n: "n = Suc m" and m: "foldr (\<lambda>v n. Suc (max (jcost v) n)) vs 0 \<le> m"
    using assms(2) by (cases n) auto
  show ?thesis
  proof (cases "vs = []")
    case True
    with n show ?thesis by (simp add: skip_ws_def json_space_def)
  next
    case False
    let ?body = "join_with '','' (map json_print vs) @ CHR '']'' # t"
    obtain c r where c: "?body = c # r" "\<not> json_space c" "c \<noteq> CHR '']''"
      using join_print_hd [of vs json_print "\<lambda>c. \<not> json_space c \<and> c \<noteq> CHR '']''" "'',''" "CHR '']'' # t"]
        False assms(1) json_print_hd by auto
    have "jelems m ?body = Some (vs, t)"
      by (rule jelems_print) (use False assms m in auto)
    with c n show ?thesis by (simp add: skip_ws_def json_space_def)
  qed
qed

lemma jvalue_print_obj:
  assumes "jwf (JObj ms)" "jcost (JObj ms) \<le> n" "delim t"
    and IH: "\<And>k v n t. (k, v) \<in> set ms \<Longrightarrow> jwf v \<Longrightarrow> jcost v \<le> n \<Longrightarrow> delim t \<Longrightarrow> jvalue n (json_print v @ t) = Some (v, t)"
  shows "jvalue n (json_print (JObj ms) @ t) = Some (JObj ms, t)"
proof -
  obtain m where n: "n = Suc m" and m: "foldr (\<lambda>(k, v) n. Suc (max (jcost v) n)) ms 0 \<le> m"
    using assms(2) by (cases n) auto
  show ?thesis
  proof (cases "ms = []")
    case True
    with n show ?thesis by (simp add: skip_ws_def json_space_def)
  next
    case False
    let ?pr = "\<lambda>(k, v). json_quote k @ '':'' @ json_print v"
    let ?body = "join_with '','' (map ?pr ms) @ CHR ''}'' # t"
    have "\<forall>m \<in> set ms. ?pr m \<noteq> [] \<and> hd (?pr m) = dq"
      by (auto simp: json_quote_def)
    then obtain c r where c: "?body = c # r" "c = dq"
      using join_print_hd [of ms ?pr "\<lambda>c. c = dq" "'',''" "CHR ''}'' # t"] False by blast
    have IH': "jvalue n (json_print v @ t) = Some (v, t)"
      if "(k, v) \<in> set ms" "jcost v \<le> n" "delim t" for k v n t
      using IH [OF that(1) _ that(2,3)] assms(1) that(1) by auto
    have "jmembers m ?body = Some (ms, t)"
      by (rule jmembers_print) (use False IH' assms(1-3) m in auto)
    with c n show ?thesis by (simp add: skip_ws_def json_space_def)
  qed
qed

lemma jvalue_print:
  "jwf j \<Longrightarrow> jcost j \<le> n \<Longrightarrow> delim t \<Longrightarrow> jvalue n (json_print j @ t) = Some (j, t)"
proof (induction j arbitrary: n t)
  case JNull
  then show ?case by (cases n) (simp_all add: skip_ws_def json_space_def has_prefix_def)
next
  case (JBool b)
  then show ?case by (cases n) (simp_all add: skip_ws_def json_space_def has_prefix_def)
next
  case (JNum l)
  then show ?case using jvalue_num [of l t "n - 1"] by simp
next
  case (JStr s)
  then show ?case
    by (cases n) (simp_all add: json_quote_append unquote_json_quote skip_ws_def json_space_def)
next
  case (JArr vs)
  then show ?case by (intro jvalue_print_arr)
next
  case (JObj ms)
  then show ?case by (intro jvalue_print_obj) auto
qed

lemma length_join_Cons:
  "ws \<noteq> [] \<Longrightarrow> length (join_with d (w # ws)) = length w + length d + length (join_with d ws)"
  by (cases ws) simp_all

lemma foldr_cost_le:
  assumes "\<forall>x \<in> set xs. cost x \<le> 2 * length (pr x)"
  shows "foldr (\<lambda>x n. Suc (max (cost x) n)) xs 0 \<le> 2 * length (join_with '','' (map pr xs)) + 1"
  using assms
proof (induction xs)
  case Nil
  then show ?case by simp
next
  case (Cons x xs)
  show ?case
  proof (cases "xs = []")
    case True
    with Cons.prems show ?thesis by simp
  next
    case False
    with Cons show ?thesis by (simp add: length_join_Cons)
  qed
qed

lemma jcost_le: "jwf j \<Longrightarrow> jcost j \<le> 2 * length (json_print j)"
proof (induction j)
  case (JNum l)
  then show ?case by (auto dest: num_lit_hd simp: Suc_le_eq)
next
  case (JArr vs)
  then show ?case using foldr_cost_le [of vs jcost json_print] by simp
next
  case (JObj ms)
  let ?pr = "\<lambda>(k, v). json_quote k @ '':'' @ json_print v"
  have "\<forall>x \<in> set ms. (jcost \<circ> snd) x \<le> 2 * length (?pr x)"
    using JObj by fastforce
  from foldr_cost_le [OF this] show ?case by (simp add: case_prod_unfold)
qed (auto simp: json_quote_def)

theorem json_parse_print: "jwf j \<Longrightarrow> json_parse (json_print j) = Some j"
  using jvalue_print [of j "2 * length (json_print j)" "[]"] jcost_le [of j]
  by (simp add: json_parse_def skip_ws_def)

interpretation json_text: codec json_print json_parse jwf
  by unfold_locales (rule json_parse_print)

lemma hd_nat_str_zero: "hd (nat_str n) = CHR ''0'' \<Longrightarrow> n = 0"
proof (induction n rule: nat_str.induct)
  case (1 n)
  show ?case
  proof (cases "n < 10")
    case True
    then have "digit_char n = CHR ''0''" using "1.prems" by (subst (asm) nat_str.simps) simp
    then have "digit_val (digit_char n) = 0" by (simp add: digit_val_def)
    with True show ?thesis by simp
  next
    case False
    then have "hd (nat_str (n div 10)) = CHR ''0''"
      using "1.prems" by (subst (asm) nat_str.simps) (simp add: hd_append)
    with "1.IH" False have "n div 10 = 0" by simp
    with False show ?thesis by simp
  qed
qed

lemma num_unsigned_nat_str: "num_unsigned (nat_str n) = Some (nat_str n, [])"
proof -
  have all: "takeWhile is_digit (nat_str n) = nat_str n" "dropWhile is_digit (nat_str n) = []"
    using nat_str_digits [of _ n] by (simp_all add: takeWhile_eq_all_conv)
  have "int_part (nat_str n) = Some (nat_str n, [])"
  proof (cases "hd (nat_str n) = CHR ''0''")
    case True
    then have "nat_str n = ''0''"
      using hd_nat_str_zero [of n] by (subst nat_str.simps) (simp add: digit_char_def char_of_def bit_0)
    then show ?thesis by (simp add: int_part_def)
  next
    case False
    then show ?thesis
      using all hd_nat_str [of n] nat_str_not_Nil [of n]
      by (auto simp: int_part_def split: list.splits)
  qed
  then show ?thesis by (simp add: num_unsigned_def frac_part_def exp_part_def)
qed

lemma num_lit_itoa [simp]: "num_lit (itoa n) = Some (itoa n, [])"
proof (cases "n < 0")
  case True
  then show ?thesis by (simp add: itoa_def num_lit_def num_unsigned_nat_str)
next
  case False
  then show ?thesis
    using hd_nat_str_not_sign(1) [of "nat n"] num_unsigned_nat_str [of "nat n"]
      nat_str_not_Nil [of "nat n"]
    by (auto simp: itoa_def num_lit_def split: list.splits)
qed

subsection \<open>The fuel is enough for every text\<close>

lemma prepend_Some: "prepend u x = Some (s, t) \<longleftrightarrow> (\<exists>s'. x = Some (s', t) \<and> s = u @ s')"
  by (auto simp: prepend_def)

lemma hex4_length: "hex4 s = Some r \<Longrightarrow> 4 \<le> length s"
  by (cases s rule: hex4.cases) auto

lemma unquote_length: "unquote s = Some (u, r) \<Longrightarrow> length r < length s"
proof (induction s arbitrary: u rule: unquote.induct)
  case 1
  then show ?case by simp
next
  case (2 c s)
  then show ?case
    by (fastforce simp: prepend_Some Let_def split: if_splits list.splits option.splits prod.splits
        nat.splits)
qed

lemma skip_ws_length: "length (skip_ws s) \<le> length s"
  by (simp add: skip_ws_def length_dropWhile_le)

lemma skip_ws_Cons_length: "skip_ws s = c # r \<Longrightarrow> length r < length s"
  using skip_ws_length [of s] by simp

lemma digits_after_length: "digits_after u s = Some (a, b) \<Longrightarrow> length b < length s"
  by (cases s) (auto simp: digits_after_def length_dropWhile_le less_Suc_eq_le split: if_splits)

lemma num_parts_length:
  "int_part s = Some (a, b) \<Longrightarrow> length b < length s"
  "frac_part s = Some (a, b) \<Longrightarrow> length b \<le> length s"
  "exp_part s = Some (a, b) \<Longrightarrow> length b \<le> length s"
  by (auto simp: int_part_def frac_part_def exp_part_def length_dropWhile_le less_Suc_eq_le
      split: list.splits if_splits dest!: digits_after_length)

lemma num_unsigned_length: "num_unsigned s = Some (a, b) \<Longrightarrow> length b < length s"
  by (fastforce simp: num_unsigned_def split: option.splits dest!: num_parts_length)

lemma num_lit_length: "num_lit s = Some (a, b) \<Longrightarrow> length b < length s"
  by (fastforce simp: num_lit_def prepend_Some split: list.splits if_splits
      dest: num_unsigned_length)

text \<open>
  \<open>settled f s r\<close>: a call of \<open>f\<close> on \<open>s\<close> that left \<open>r\<close> unread took something, and gives the same result with
  any fuel of at least twice what it took.
\<close>

definition settled :: "(nat \<Rightarrow> string \<Rightarrow> ('v \<times> string) option) \<Rightarrow> string \<Rightarrow> 'v \<Rightarrow> string \<Rightarrow> bool" where
  "settled f s v r \<longleftrightarrow>
     length r < length s \<and> (\<forall>m \<ge> 2 * (length s - length r). f m s = Some (v, r))"

lemma settledD: "settled f s v r \<Longrightarrow> 2 * (length s - length r) \<le> m \<Longrightarrow> f m s = Some (v, r)"
  by (simp add: settled_def)

lemma settled_jelems:
  assumes v: "settled jvalue s v r" and s: "skip_ws r = c # r'"
    and c: "c = CHR '','' \<and> settled jelems r' vs r'' \<or> c = CHR '']'' \<and> vs = [] \<and> r'' = r'"
  shows "settled jelems s (v # vs) r''"
  unfolding settled_def
proof (intro conjI allI impI)
  have l: "length r < length s" "length r' < length r"
    using v skip_ws_Cons_length [OF s] by (simp_all add: settled_def)
  have l': "length r'' \<le> length r'"
    using c by (auto simp: settled_def)
  show "length r'' < length s" using l l' by simp
  fix m assume m: "2 * (length s - length r'') \<le> m"
  then obtain k where k: "m = Suc k" using l l' by (cases m) auto
  have "jvalue k s = Some (v, r)"
    by (rule settledD [OF v]) (use k m l l' in simp)
  moreover have "jelems k r' = Some (vs, r'')" if "settled jelems r' vs r''"
    by (rule settledD [OF that]) (use k m l l' in simp)
  ultimately show "jelems m s = Some (v # vs, r'')"
    using c s k by auto
qed

lemma settled_jmembers:
  assumes q: "skip_ws s = dq # s1" "unquote s1 = Some (x, s2)" "skip_ws s2 = CHR '':'' # s3"
    and v: "settled jvalue s3 v r" and s: "skip_ws r = c # r'"
    and c: "c = CHR '','' \<and> settled jmembers r' ms r'' \<or> c = CHR ''}'' \<and> ms = [] \<and> r'' = r'"
  shows "settled jmembers s ((x, v) # ms) r''"
  unfolding settled_def
proof (intro conjI allI impI)
  have l: "length r < length s3" "length r' < length r" "length s3 < length s"
    using v skip_ws_Cons_length [OF s] skip_ws_Cons_length [OF q(1)] skip_ws_Cons_length [OF q(3)]
      unquote_length [OF q(2)] by (simp_all add: settled_def)
  have l': "length r'' \<le> length r'"
    using c by (auto simp: settled_def)
  show "length r'' < length s" using l l' by simp
  fix m assume m: "2 * (length s - length r'') \<le> m"
  then obtain k where k: "m = Suc k" using l l' by (cases m) auto
  have "jvalue k s3 = Some (v, r)"
    by (rule settledD [OF v]) (use k m l l' in simp)
  moreover have "jmembers k r' = Some (ms, r'')" if "settled jmembers r' ms r''"
    by (rule settledD [OF that]) (use k m l l' in simp)
  ultimately show "jmembers m s = Some ((x, v) # ms, r'')"
    using c s k q by auto
qed

lemma settled_jvalue_atom:
  assumes "skip_ws s = c # r" "length t < length s" "\<And>n. jvalue (Suc n) s = Some (v, t)"
  shows "settled jvalue s v t"
  unfolding settled_def
proof (intro conjI allI impI)
  show "length t < length s" by (rule assms(2))
  fix m assume "2 * (length s - length t) \<le> m"
  then obtain k where "m = Suc k" using assms(2) by (cases m) auto
  then show "jvalue m s = Some (v, t)" using assms(3) by blast
qed

lemma settled_jvalue_nested:
  assumes s: "skip_ws s = c # r" and f: "settled f r w t"
    and eq: "\<And>n. jvalue (Suc n) s = map_option (apfst con) (f n r)"
  shows "settled jvalue s (con w) t"
  unfolding settled_def
proof (intro conjI allI impI)
  have l: "length t < length r" "length r < length s"
    using f skip_ws_Cons_length [OF s] by (simp_all add: settled_def)
  then show "length t < length s" by simp
  fix m assume m: "2 * (length s - length t) \<le> m"
  then obtain k where k: "m = Suc k" using l by (cases m) auto
  have "f k r = Some (w, t)"
    by (rule settledD [OF f]) (use k m l in simp)
  then show "jvalue m s = Some (con w, t)" using eq k by simp
qed

lemma jvalue_literal_length:
  "skip_ws s = c # r \<Longrightarrow> length (drop k r) < length s"
  using skip_ws_Cons_length [of s c r] by simp

lemma settled_value_step:
  assumes "jvalue (Suc n) s = Some (v, t)"
    and "\<And>r vs t. jelems n r = Some (vs, t) \<Longrightarrow> settled jelems r vs t"
    and "\<And>r ms t. jmembers n r = Some (ms, t) \<Longrightarrow> settled jmembers r ms t"
  shows "settled jvalue s v t"
proof -
  obtain c r where s: "skip_ws s = c # r" using assms(1) by (auto split: list.splits)
  note [simp] = s
  consider "c = dq"
    | (arr) d r' where "c = CHR ''[''" "skip_ws r = d # r'" "d \<noteq> CHR '']''"
    | (arr0) r' where "c = CHR ''[''" "skip_ws r = CHR '']'' # r'"
    | (obj) d r' where "c = CHR ''{''" "skip_ws r = d # r'" "d \<noteq> CHR ''}''"
    | (obj0) r' where "c = CHR ''{''" "skip_ws r = CHR ''}'' # r'"
    | (lit) "c \<noteq> dq" "c \<noteq> CHR ''[''" "c \<noteq> CHR ''{''"
    using assms(1) by (auto split: list.splits if_splits)
  then show ?thesis
  proof cases
    case 1
    with assms(1) obtain u where u: "unquote r = Some (u, t)" "v = JStr u" by auto
    then show ?thesis
      using 1 unquote_length [OF u(1)] skip_ws_Cons_length [OF s]
      by (intro settled_jvalue_atom [OF s]) auto
  next
    case (arr d r')
    with assms(1) obtain ws where ws: "jelems n r = Some (ws, t)" "v = JArr ws" by auto
    have "settled jelems r ws t"
      by (rule assms(2) [OF ws(1)])
    from settled_jvalue_nested [OF s this, of JArr] arr ws(2) show ?thesis by simp
  next
    case (arr0 r')
    with assms(1) show ?thesis
      using skip_ws_Cons_length [OF s] skip_ws_Cons_length [OF arr0(2)]
      by (intro settled_jvalue_atom [OF s]) auto
  next
    case (obj d r')
    with assms(1) obtain ws where ws: "jmembers n r = Some (ws, t)" "v = JObj ws" by auto
    have "settled jmembers r ws t"
      by (rule assms(3) [OF ws(1)])
    from settled_jvalue_nested [OF s this, of JObj] obj ws(2) show ?thesis by simp
  next
    case (obj0 r')
    with assms(1) show ?thesis
      using skip_ws_Cons_length [OF s] skip_ws_Cons_length [OF obj0(2)]
      by (intro settled_jvalue_atom [OF s]) auto
  next
    case lit
    have "length t < length s"
      using assms(1) lit jvalue_literal_length [OF s] num_lit_length [of "c # r"]
        skip_ws_length [of s]
      by (fastforce split: if_splits)
    with lit assms(1) show ?thesis
      by (intro settled_jvalue_atom [OF s]) auto
  qed
qed

lemma settled_elems_step:
  assumes "jelems (Suc n) s = Some (vs, t)"
    and "\<And>r v t. jvalue n r = Some (v, t) \<Longrightarrow> settled jvalue r v t"
    and "\<And>r vs t. jelems n r = Some (vs, t) \<Longrightarrow> settled jelems r vs t"
  shows "settled jelems s vs t"
proof -
  obtain x r c r' where v: "jvalue n s = Some (x, r)" and s: "skip_ws r = c # r'"
    using assms(1) by (auto split: option.splits list.splits)
  have x: "settled jvalue s x r" by (rule assms(2) [OF v])
  show ?thesis
  proof (cases "c = CHR '',''")
    case True
    with assms(1) v s obtain ws where ws: "jelems n r' = Some (ws, t)" "vs = x # ws"
      by auto
    have "settled jelems r' ws t"
      by (rule assms(3) [OF ws(1)])
    with settled_jelems [OF x s, of ws t] True ws(2) show ?thesis by simp
  next
    case False
    with assms(1) v s have "c = CHR '']''" "vs = [x]" "t = r'"
      by (auto split: if_splits)
    with settled_jelems [OF x s, of "[]" r'] show ?thesis by simp
  qed
qed

lemma settled_members_step:
  assumes "jmembers (Suc n) s = Some (ms, t)"
    and "\<And>r v t. jvalue n r = Some (v, t) \<Longrightarrow> settled jvalue r v t"
    and "\<And>r ms t. jmembers n r = Some (ms, t) \<Longrightarrow> settled jmembers r ms t"
  shows "settled jmembers s ms t"
proof -
  obtain s1 k s2 s3 x r c r' where q: "skip_ws s = dq # s1" "unquote s1 = Some (k, s2)"
      "skip_ws s2 = CHR '':'' # s3" and v: "jvalue n s3 = Some (x, r)" and s: "skip_ws r = c # r'"
    using assms(1) by (auto split: option.splits list.splits if_splits)
  have x: "settled jvalue s3 x r"
    by (rule assms(2) [OF v])
  show ?thesis
  proof (cases "c = CHR '',''")
    case True
    with assms(1) q v s obtain ws where ws: "jmembers n r' = Some (ws, t)" "ms = (k, x) # ws"
      by auto
    have "settled jmembers r' ws t"
      by (rule assms(3) [OF ws(1)])
    with settled_jmembers [OF q x s, of ws t] True ws(2) show ?thesis by simp
  next
    case False
    with assms(1) q v s have "c = CHR ''}''" "ms = [(k, x)]" "t = r'"
      by (auto split: if_splits)
    with settled_jmembers [OF q x s, of "[]" r'] show ?thesis by simp
  qed
qed

lemma jparse_settled:
  "jvalue n s = Some (v, t) \<Longrightarrow> settled jvalue s v t"
  "jelems n s = Some (vs, t) \<Longrightarrow> settled jelems s vs t"
  "jmembers n s = Some (ms, t) \<Longrightarrow> settled jmembers s ms t"
proof (induction n arbitrary: s v vs ms t)
  case (Suc n)
  {
    case 1
    then show ?case by (rule settled_value_step) (fact Suc.IH)+
  next
    case 2
    then show ?case by (rule settled_elems_step) (fact Suc.IH)+
  next
    case 3
    then show ?case by (rule settled_members_step) (fact Suc.IH)+
  }
qed simp_all

text \<open>Hence a value that some amount of fuel reads is read with the fuel \<open>json_parse\<close> gives.\<close>

theorem json_parse_enough_fuel:
  assumes "jvalue n s = Some (v, r)" "skip_ws r = []"
  shows "json_parse s = Some v"
proof -
  have "jvalue (2 * length s) s = Some (v, r)"
    by (rule settledD [OF jparse_settled(1) [OF assms(1)]]) simp
  with assms(2) show ?thesis by (simp add: json_parse_def)
qed

text \<open>Text in ASCII is valid UTF-8, so the names the agent makes of numbers are.\<close>

lemma utf8_valid_ascii: "\<forall>c \<in> set s. (byte_of c :: nat) < 128 \<Longrightarrow> utf8_valid s"
  by (induction s) simp_all

lemma itoa_ascii: "c \<in> set (itoa n) \<Longrightarrow> (byte_of c :: nat) < 128"
  by (drule itoa_chars) (auto simp: is_digit_def)

end
