(* ===== verification/Bolt.thy ===== *)
theory Bolt
  imports Prelude
begin

text \<open>
  BoltDB (\<open>go.etcd.io/bbolt\<close>) as a parameter: the record of the operations that
  \<open>internal/store\<close> calls, over any type of database state, the laws it relies on, and the two
  transaction wrappers. The last section is a database in memory that satisfies the laws; the
  witnesses of the later theories run on it.
\<close>

section \<open>Operations and laws\<close>

record 'db bolt =
  bBegin :: "'db \<Rightarrow> bool \<Rightarrow> string option"
  bBucket :: "'db \<Rightarrow> string \<Rightarrow> bool"
  bCreate :: "string \<Rightarrow> 'db \<Rightarrow> string + 'db"
  bGet :: "'db \<Rightarrow> string \<Rightarrow> string \<Rightarrow> string option"
  bPut :: "string \<Rightarrow> string \<Rightarrow> string \<Rightarrow> 'db \<Rightarrow> string + 'db"
  bDelete :: "string \<Rightarrow> string \<Rightarrow> 'db \<Rightarrow> string + 'db"
  bCursor :: "'db \<Rightarrow> string \<Rightarrow> (string \<times> string) list"
  bKeyN :: "'db \<Rightarrow> string \<Rightarrow> int"
  bCommit :: "'db \<Rightarrow> 'db \<Rightarrow> string + 'db"
  bClose :: "'db \<Rightarrow> string option \<times> 'db"

text \<open>
  The laws: a successful put or delete changes one key of one bucket, creating a bucket and
  committing change no key, a cursor walks the pairs of a bucket once each in byte order of the keys, and a
  blank key is refused.
\<close>

definition bolt_laws :: "'db bolt \<Rightarrow> bool" where
  "bolt_laws B \<longleftrightarrow>
     (\<forall>b k v db db'. bPut B b k v db = Inr db' \<longrightarrow>
        (\<forall>b' k'. bGet B db' b' k' = (if b' = b \<and> k' = k then Some v else bGet B db b' k'))) \<and>
     (\<forall>b k db db'. bDelete B b k db = Inr db' \<longrightarrow>
        (\<forall>b' k'. bGet B db' b' k' = (if b' = b \<and> k' = k then None else bGet B db b' k'))) \<and>
     (\<forall>b db db'. bCreate B b db = Inr db' \<longrightarrow> bGet B db' = bGet B db) \<and>
     (\<forall>db tx db'. bCommit B db tx = Inr db' \<longrightarrow> bGet B db' = bGet B tx) \<and>
     (\<forall>db b. map_of (bCursor B db b) = bGet B db b) \<and>
     (\<forall>db b. sorted (map fst (bCursor B db b)) \<and> distinct (map fst (bCursor B db b))) \<and>
     (\<forall>b v db. \<not> is_ok (bPut B b [] v db))"

text \<open>
  \<open>db.View(fn)\<close> and \<open>db.Update(fn)\<close>: a read-write transaction whose function fails, or whose commit
  fails, is rolled back.
\<close>

definition db_view :: "'db bolt \<Rightarrow> ('db \<Rightarrow> 'e + 'a) \<Rightarrow> (string \<Rightarrow> 'e) \<Rightarrow> 'db \<Rightarrow> 'e + 'a" where
  "db_view B fn err db = (case bBegin B db False of Some e \<Rightarrow> Inl (err e) | None \<Rightarrow> fn db)"

definition db_update :: "'db bolt \<Rightarrow> ('db \<Rightarrow> string + 'db) \<Rightarrow> 'db \<Rightarrow> unit res \<times> 'db" where
  "db_update B fn db =
     (case bBegin B db True of
        Some e \<Rightarrow> (Inl e, db)
      | None \<Rightarrow>
          (case fn db of
             Inl e \<Rightarrow> (Inl e, db)
           | Inr tx \<Rightarrow>
               (case bCommit B db tx of
                  Inl e \<Rightarrow> (Inl e, db)
                | Inr db' \<Rightarrow> (Inr (), db'))))"

section \<open>Consequences of the laws\<close>

lemma db_update_err: "db_update B f db = (Inl e, db') \<Longrightarrow> db' = db"
  by (auto simp: db_update_def split: option.splits sum.splits)

lemma db_update_ok:
  assumes "db_update B f db = (Inr u, db')" "bolt_laws B"
  obtains tx where "f db = Inr tx" "bGet B db' = bGet B tx"
  using assms by (auto simp: db_update_def bolt_laws_def split: option.splits sum.splits)

lemma bolt_put:
  "bolt_laws B \<Longrightarrow> bPut B b k v db = Inr db' \<Longrightarrow>
     bGet B db' b' k' = (if b' = b \<and> k' = k then Some v else bGet B db b' k')"
  by (simp add: bolt_laws_def)

lemma bolt_delete:
  "bolt_laws B \<Longrightarrow> bDelete B b k db = Inr db' \<Longrightarrow>
     bGet B db' b' k' = (if b' = b \<and> k' = k then None else bGet B db b' k')"
  by (simp add: bolt_laws_def)

lemma bolt_cursor:
  assumes "bolt_laws B"
  shows "map_of (bCursor B db b) = bGet B db b" "distinct (map fst (bCursor B db b))"
  using assms by (simp_all add: bolt_laws_def)

section \<open>A database in memory\<close>

text \<open>The pairs of all buckets in one association list; a committed transaction is the new list.\<close>

type_synonym mem_db = "((string \<times> string) \<times> string) list"

definition mem_cursor :: "mem_db \<Rightarrow> string \<Rightarrow> (string \<times> string) list" where
  "mem_cursor db b =
     sort_key fst
       (map (\<lambda>x. (snd (fst x), snd x)) (filter (\<lambda>x. fst (fst x) = b) (AList.clearjunk db)))"

definition mem_bolt :: "mem_db bolt" where
  "mem_bolt =
     \<lparr>bBegin = (\<lambda>db w. None),
      bBucket = (\<lambda>db b. True),
      bCreate = (\<lambda>b db. Inr db),
      bGet = (\<lambda>db b k. map_of db (b, k)),
      bPut = (\<lambda>b k v db. if k = [] then Inl ''key required'' else Inr (AList.update (b, k) v db)),
      bDelete = (\<lambda>b k db. Inr (AList.delete (b, k) db)),
      bCursor = mem_cursor,
      bKeyN = (\<lambda>db b. int (length (mem_cursor db b))),
      bCommit = (\<lambda>db tx. Inr tx),
      bClose = (\<lambda>db. (None, db))\<rparr>"

lemma distinct_bucket_keys:
  assumes "distinct (map fst xs)"
  shows "distinct (map fst (map (\<lambda>x. (snd (fst x), snd x)) (filter (\<lambda>x. fst (fst x) = b) xs)))"
  using assms
proof (induction xs)
  case Nil
  then show ?case by simp
next
  case (Cons x xs)
  have "snd (fst x) \<notin> (\<lambda>x. snd (fst x)) ` {x \<in> set xs. fst (fst x) = b}" if "fst (fst x) = b"
    using that Cons.prems by (auto simp: image_iff)
  with Cons show ?case by (auto simp: comp_def)
qed

lemma map_of_bucket:
  "map_of (map (\<lambda>x. (snd (fst x), snd x)) (filter (\<lambda>x. fst (fst x) = b) xs)) k = map_of xs (b, k)"
  by (induction xs) auto

lemma map_of_sort_key:
  assumes "distinct (map fst xs)"
  shows "map_of (sort_key fst xs) = map_of xs"
proof -
  have "distinct (map fst (sort_key fst xs))"
    using assms by (simp add: distinct_map)
  with assms show ?thesis by (subst map_of_inject_set) simp_all
qed

lemma mem_cursor_props:
  "map_of (mem_cursor db b) k = map_of db (b, k)"
  "distinct (map fst (mem_cursor db b))" "sorted (map fst (mem_cursor db b))"
proof -
  let ?xs = "map (\<lambda>x. (snd (fst x), snd x)) (filter (\<lambda>x. fst (fst x) = b) (AList.clearjunk db))"
  have d: "distinct (map fst ?xs)"
    by (rule distinct_bucket_keys) (simp add: distinct_clearjunk)
  then show "map_of (mem_cursor db b) k = map_of db (b, k)"
    using map_of_bucket [of b "AList.clearjunk db" k]
    by (simp add: mem_cursor_def map_of_sort_key map_of_clearjunk del: map_map)
  show "distinct (map fst (mem_cursor db b))"
    using d by (simp add: mem_cursor_def distinct_map del: map_map)
  show "sorted (map fst (mem_cursor db b))"
    by (simp add: mem_cursor_def)
qed

lemma mem_bolt_laws: "bolt_laws mem_bolt"
  by (auto simp: bolt_laws_def mem_bolt_def mem_cursor_props update_conv' delete_conv' fun_eq_iff)

end
