(* ===== verification/Store.thy ===== *)
theory Store
  imports Go_Json Host Bolt
begin

text \<open>
  \<open>internal/store/store.go\<close>: the agent's persistent state in a BoltDB file. BoltDB itself is a
  parameter (theory \<open>Bolt\<close>). Peer records are stored as
  the JSON text \<open>encoding/json\<close> writes, so reading one back goes through \<open>json_parse\<close>.

  The three buckets exist from \<open>Open\<close> on and are never deleted, so the nil bucket that several
  functions of the source do not check for cannot occur.
\<close>

section \<open>Peer records\<close>

definition bucketPeers :: string where "bucketPeers = ''peers''"
definition bucketMeta :: string where "bucketMeta = ''meta''"
definition bucketKeys :: string where "bucketKeys = ''keys''"
definition keyVersion :: string where "keyVersion = ''version''"
definition keyUpdateID :: string where "keyUpdateID = ''update_id''"
definition keyLocalPriv :: string where "keyLocalPriv = ''local_priv''"
definition keyLocalPub :: string where "keyLocalPub = ''local_pub''"
definition keyServerPub :: string where "keyServerPub = ''server_pub''"

record PeerInfo =
  pi_ASN :: int
  pi_RemoteLLA :: string
  pi_WgInterface :: string
  pi_BgpProtoName :: string
  pi_BirdConfigFilename :: string

definition peer_info_json :: "PeerInfo \<Rightarrow> json" where
  "peer_info_json i = JObj
     ([(''asn'', JNum (itoa (pi_ASN i))),
       (''remote_lla'', JStr (pi_RemoteLLA i)),
       (''wg_interface'', JStr (pi_WgInterface i)),
       (''bgp_proto_name'', JStr (pi_BgpProtoName i))] @
      (if pi_BirdConfigFilename i = [] then []
       else [(''bird_config_filename'', JStr (pi_BirdConfigFilename i))]))"

definition peer_info_dec :: "json \<Rightarrow> PeerInfo option" where
  "peer_info_dec j =
     (case members j of
        None \<Rightarrow> None
      | Some ms \<Rightarrow>
          (case (get_field dec_int64 0 ''asn'' ms, get_field dec_string [] ''remote_lla'' ms,
                 get_field dec_string [] ''wg_interface'' ms,
                 get_field dec_string [] ''bgp_proto_name'' ms,
                 get_field dec_string [] ''bird_config_filename'' ms) of
             (Some a, Some l, Some w, Some p, Some f) \<Rightarrow>
               Some \<lparr>pi_ASN = a, pi_RemoteLLA = l, pi_WgInterface = w, pi_BgpProtoName = p,
                     pi_BirdConfigFilename = f\<rparr>
           | _ \<Rightarrow> None))"

definition peer_marshal :: "PeerInfo \<Rightarrow> string" where
  "peer_marshal i = json_print (peer_info_json i)"

definition peer_unmarshal :: "string \<Rightarrow> PeerInfo option" where
  "peer_unmarshal data =
     (case json_parse data of None \<Rightarrow> None | Some j \<Rightarrow> peer_info_dec j)"

section \<open>Operations\<close>

datatype store_err = PeerNotFound string | BadRecord | BoltErr string | NoKeysBucket | KeyNotFound

text \<open>
  \<open>Open\<close>, given what \<open>bolt.Open\<close> on the path returned. A database in which a bucket cannot be created
  is closed again.
\<close>

definition create_buckets :: "'db bolt \<Rightarrow> 'db \<Rightarrow> string + 'db" where
  "create_buckets B tx =
     (case bCreate B bucketPeers tx of
        Inl e \<Rightarrow> Inl (''create peers bucket: '' @ e)
      | Inr tx \<Rightarrow>
          (case bCreate B bucketMeta tx of
             Inl e \<Rightarrow> Inl (''create meta bucket: '' @ e)
           | Inr tx \<Rightarrow>
               (case bCreate B bucketKeys tx of
                  Inl e \<Rightarrow> Inl (''create keys bucket: '' @ e)
                | Inr tx \<Rightarrow> Inr tx)))"

definition Open :: "'db bolt \<Rightarrow> 'db res \<Rightarrow> 'db res \<times> 'db option" where
  "Open B opened =
     (case opened of
        Inl e \<Rightarrow> (Inl (''bolt open: '' @ e), None)
      | Inr db \<Rightarrow>
          (case db_update B (create_buckets B) db of
             (Inl e, db') \<Rightarrow> (Inl e, Some (snd (bClose B db')))
           | (Inr u, db') \<Rightarrow> (Inr db', Some db')))"

definition Close :: "'db bolt \<Rightarrow> 'db \<Rightarrow> string option \<times> 'db" where
  "Close B db = bClose B db"

definition PutPeer :: "'db bolt \<Rightarrow> string \<Rightarrow> PeerInfo \<Rightarrow> 'db \<Rightarrow> unit res \<times> 'db" where
  "PutPeer B peerID info db = db_update B (bPut B bucketPeers peerID (peer_marshal info)) db"

definition GetPeer :: "'db bolt \<Rightarrow> string \<Rightarrow> 'db \<Rightarrow> store_err + PeerInfo" where
  "GetPeer B peerID db =
     db_view B
       (\<lambda>tx. case bGet B tx bucketPeers peerID of
               None \<Rightarrow> Inl (PeerNotFound peerID)
             | Some data \<Rightarrow>
                 (case peer_unmarshal data of None \<Rightarrow> Inl BadRecord | Some info \<Rightarrow> Inr info))
       BoltErr db"

definition DeletePeer :: "'db bolt \<Rightarrow> string \<Rightarrow> 'db \<Rightarrow> unit res \<times> 'db" where
  "DeletePeer B peerID db = db_update B (bDelete B bucketPeers peerID) db"

text \<open>The callback of \<open>ForEachPeer\<close> updates a state \<open>'s\<close> of its own and may stop the walk.\<close>

fun for_each ::
    "(string \<Rightarrow> PeerInfo \<Rightarrow> 's \<Rightarrow> string option \<times> 's) \<Rightarrow> (string \<times> string) list \<Rightarrow> 's \<Rightarrow>
     string option \<times> 's" where
  "for_each fn [] s = (None, s)"
| "for_each fn ((k, v) # kvs) s =
     (case peer_unmarshal v of
        None \<Rightarrow> for_each fn kvs s
      | Some info \<Rightarrow>
          (case fn k info s of
             (Some e, s') \<Rightarrow> (Some e, s')
           | (None, s') \<Rightarrow> for_each fn kvs s'))"

definition ForEachPeer ::
    "'db bolt \<Rightarrow> (string \<Rightarrow> PeerInfo \<Rightarrow> 's \<Rightarrow> string option \<times> 's) \<Rightarrow> 'db \<Rightarrow> 's \<Rightarrow>
     string option \<times> 's" where
  "ForEachPeer B fn db s =
     (case bBegin B db False of
        Some e \<Rightarrow> (Some e, s)
      | None \<Rightarrow> for_each fn (bCursor B db bucketPeers) s)"

definition PeerCount :: "'db bolt \<Rightarrow> 'db \<Rightarrow> string + int" where
  "PeerCount B db =
     db_view B (\<lambda>tx. Inr (if bBucket B tx bucketPeers then bKeyN B tx bucketPeers else 0)) id db"

fun delete_keys :: "'db bolt \<Rightarrow> string list \<Rightarrow> 'db \<Rightarrow> string + 'db" where
  "delete_keys B [] tx = Inr tx"
| "delete_keys B (k # ks) tx =
     (case bDelete B bucketPeers k tx of Inl e \<Rightarrow> Inl e | Inr tx' \<Rightarrow> delete_keys B ks tx')"

fun put_peers :: "'db bolt \<Rightarrow> (string \<times> PeerInfo) list \<Rightarrow> 'db \<Rightarrow> string + 'db" where
  "put_peers B [] tx = Inr tx"
| "put_peers B ((k, info) # ps) tx =
     (case bPut B bucketPeers k (peer_marshal info) tx of
        Inl e \<Rightarrow> Inl e
      | Inr tx' \<Rightarrow> put_peers B ps tx')"

text \<open>The argument lists the Go map in the order in which \<open>range\<close> walks it.\<close>

definition ReplaceAll :: "'db bolt \<Rightarrow> (string \<times> PeerInfo) list \<Rightarrow> 'db \<Rightarrow> unit res \<times> 'db" where
  "ReplaceAll B peers db =
     db_update B
       (\<lambda>tx. case delete_keys B (map fst (bCursor B tx bucketPeers)) tx of
               Inl e \<Rightarrow> Inl e
             | Inr tx' \<Rightarrow> put_peers B peers tx') db"

fun asn_found :: "int \<Rightarrow> (string \<times> string) list \<Rightarrow> bool" where
  "asn_found asn [] = False"
| "asn_found asn ((k, v) # kvs) =
     (case peer_unmarshal v of
        None \<Rightarrow> asn_found asn kvs
      | Some info \<Rightarrow> if pi_ASN info = asn then True else asn_found asn kvs)"

text \<open>\<open>IsASNTracked\<close> returns \<open>false\<close> beside an error; the callers ignore the error.\<close>

definition IsASNTracked :: "'db bolt \<Rightarrow> int \<Rightarrow> 'db \<Rightarrow> bool \<times> string option" where
  "IsASNTracked B asn db =
     (case bBegin B db False of
        Some e \<Rightarrow> (False, Some e)
      | None \<Rightarrow> (asn_found asn (bCursor B db bucketPeers), None))"

definition get_meta :: "'db bolt \<Rightarrow> string \<Rightarrow> 'db \<Rightarrow> string \<times> string option" where
  "get_meta B k db =
     (case bBegin B db False of
        Some e \<Rightarrow> ([], Some e)
      | None \<Rightarrow> ((case bGet B db bucketMeta k of None \<Rightarrow> [] | Some v \<Rightarrow> v), None))"

definition GetVersion :: "'db bolt \<Rightarrow> 'db \<Rightarrow> string \<times> string option" where
  "GetVersion B db = get_meta B keyVersion db"

definition PutVersion :: "'db bolt \<Rightarrow> string \<Rightarrow> 'db \<Rightarrow> unit res \<times> 'db" where
  "PutVersion B v db = db_update B (bPut B bucketMeta keyVersion v) db"

definition GetUpdateID :: "'db bolt \<Rightarrow> 'db \<Rightarrow> string \<times> string option" where
  "GetUpdateID B db = get_meta B keyUpdateID db"

definition PutUpdateID :: "'db bolt \<Rightarrow> string \<Rightarrow> 'db \<Rightarrow> unit res \<times> 'db" where
  "PutUpdateID B u db = db_update B (bPut B bucketMeta keyUpdateID u) db"

definition HasKeyPair :: "'db bolt \<Rightarrow> 'db \<Rightarrow> bool" where
  "HasKeyPair B db \<longleftrightarrow>
     bBegin B db False = None \<and> bBucket B db bucketKeys \<and>
     bGet B db bucketKeys keyLocalPriv \<noteq> None \<and> bGet B db bucketKeys keyLocalPub \<noteq> None"

definition PutKeyPair :: "'db bolt \<Rightarrow> string \<Rightarrow> string \<Rightarrow> 'db \<Rightarrow> unit res \<times> 'db" where
  "PutKeyPair B priv pub db =
     db_update B
       (\<lambda>tx. case bPut B bucketKeys keyLocalPriv priv tx of
               Inl e \<Rightarrow> Inl e
             | Inr tx' \<Rightarrow> bPut B bucketKeys keyLocalPub pub tx') db"

definition GetKeyPair :: "'db bolt \<Rightarrow> 'db \<Rightarrow> store_err + (string \<times> string)" where
  "GetKeyPair B db =
     db_view B
       (\<lambda>tx. if \<not> bBucket B tx bucketKeys then Inl NoKeysBucket
             else (case (bGet B tx bucketKeys keyLocalPriv, bGet B tx bucketKeys keyLocalPub) of
                     (Some priv, Some pub) \<Rightarrow> Inr (priv, pub)
                   | _ \<Rightarrow> Inl KeyNotFound))
       BoltErr db"

definition PutServerPubKey :: "'db bolt \<Rightarrow> string \<Rightarrow> 'db \<Rightarrow> unit res \<times> 'db" where
  "PutServerPubKey B pub db = db_update B (bPut B bucketKeys keyServerPub pub) db"

definition GetServerPubKey :: "'db bolt \<Rightarrow> 'db \<Rightarrow> store_err + string" where
  "GetServerPubKey B db =
     db_view B
       (\<lambda>tx. if \<not> bBucket B tx bucketKeys then Inl NoKeysBucket
             else (case bGet B tx bucketKeys keyServerPub of
                     None \<Rightarrow> Inl KeyNotFound
                   | Some pub \<Rightarrow> Inr pub))
       BoltErr db"

section \<open>Peer records survive the trip through JSON\<close>

definition info_ok :: "PeerInfo \<Rightarrow> bool" where
  "info_ok i \<longleftrightarrow>
     int64_range (pi_ASN i) \<and> utf8_valid (pi_RemoteLLA i) \<and> utf8_valid (pi_WgInterface i) \<and>
     utf8_valid (pi_BgpProtoName i) \<and> utf8_valid (pi_BirdConfigFilename i)"

lemma jwf_peer_info: "info_ok i \<Longrightarrow> jwf (peer_info_json i)"
  by (auto simp: info_ok_def peer_info_json_def)

lemma peer_info_dec_json: "info_ok i \<Longrightarrow> peer_info_dec (peer_info_json i) = Some i"
  by (simp add: peer_info_dec_def peer_info_json_def get_field_def jfield_def upper_char_def
      info_ok_def decimal.dec_enc)

interpretation peer_record: codec peer_marshal peer_unmarshal info_ok
  by unfold_locales
    (simp add: peer_marshal_def peer_unmarshal_def json_text.dec_enc jwf_peer_info peer_info_dec_json)

section \<open>The peer table\<close>

text \<open>The abstract content of the peers bucket: the records that can be read.\<close>

definition peer_of :: "'db bolt \<Rightarrow> 'db \<Rightarrow> string \<Rightarrow> PeerInfo option" where
  "peer_of B db peerID =
     (case bGet B db bucketPeers peerID of None \<Rightarrow> None | Some d \<Rightarrow> peer_unmarshal d)"

definition peer_list :: "(string \<times> string) list \<Rightarrow> (string \<times> PeerInfo) list" where
  "peer_list kvs =
     concat (map (\<lambda>(k, v). case peer_unmarshal v of None \<Rightarrow> [] | Some i \<Rightarrow> [(k, i)]) kvs)"

lemma delete_keys_get:
  assumes "bolt_laws B"
  shows "delete_keys B ks tx = Inr tx' \<Longrightarrow>
    bGet B tx' b k = (if b = bucketPeers \<and> k \<in> set ks then None else bGet B tx b k)"
  by (induction ks arbitrary: tx) (auto split: sum.splits simp: bolt_delete [OF assms])

lemma put_peers_get:
  assumes "bolt_laws B" "distinct (map fst ps)"
  shows "put_peers B ps tx = Inr tx' \<Longrightarrow>
    bGet B tx' b k =
      (if b = bucketPeers \<and> k \<in> fst ` set ps then map_option peer_marshal (map_of ps k)
       else bGet B tx b k)"
  using assms(2)
proof (induction ps arbitrary: tx)
  case Nil
  then show ?case by simp
next
  case (Cons p ps)
  obtain x i where p: "p = (x, i)" by (cases p)
  with Cons.prems obtain tx1 where tx1: "bPut B bucketPeers x (peer_marshal i) tx = Inr tx1"
    and rest: "put_peers B ps tx1 = Inr tx'"
    by (auto split: sum.splits)
  have "distinct (map fst ps)" "x \<notin> fst ` set ps" using Cons.prems(2) p by auto
  with Cons.IH [OF rest] p show ?case by (auto simp: bolt_put [OF assms(1) tx1])
qed

lemma ReplaceAll_get:
  assumes laws: "bolt_laws B" and dist: "distinct (map fst ps)"
    and "ReplaceAll B ps db = (Inr u, db')"
  shows "bGet B db' b k =
    (if b = bucketPeers then map_option peer_marshal (map_of ps k) else bGet B db b k)"
proof -
  from assms(3) obtain tx where
    "(case delete_keys B (map fst (bCursor B db bucketPeers)) db of
        Inl e \<Rightarrow> Inl e | Inr tx' \<Rightarrow> put_peers B ps tx') = Inr tx" and get: "bGet B db' = bGet B tx"
    unfolding ReplaceAll_def by (rule db_update_ok [OF _ laws])
  then obtain tx1 where del: "delete_keys B (map fst (bCursor B db bucketPeers)) db = Inr tx1"
    and put: "put_peers B ps tx1 = Inr tx"
    by (auto split: sum.splits)
  have "bGet B db bucketPeers k = None" if "k \<notin> fst ` set (bCursor B db bucketPeers)"
    using that bolt_cursor(1) [OF laws, of db bucketPeers] by (metis map_of_eq_None_iff)
  then show ?thesis
    using get put_peers_get [OF laws dist put, of b k] delete_keys_get [OF laws del, of b k]
    by (auto simp: map_of_eq_None_iff)
qed

text \<open>
  The contract the handlers rely on: what a put, a delete and a replacement do to the table when
  they succeed, and that one that fails changes nothing. \<open>lawful\<close> is the hypothesis on the
  database and \<open>ok\<close> the records that survive storage.
\<close>

locale peer_store =
  fixes lawful :: bool
    and ok :: "'i \<Rightarrow> bool"
    and look :: "'db \<Rightarrow> string \<Rightarrow> 'i option"
    and put :: "string \<Rightarrow> 'i \<Rightarrow> 'db \<Rightarrow> unit res \<times> 'db"
    and del :: "string \<Rightarrow> 'db \<Rightarrow> unit res \<times> 'db"
    and repl :: "(string \<times> 'i) list \<Rightarrow> 'db \<Rightarrow> unit res \<times> 'db"
  assumes put_ok: "lawful \<Longrightarrow> ok i \<Longrightarrow> put k i db = (Inr u, db') \<Longrightarrow> look db' = (look db)(k \<mapsto> i)"
    and del_ok: "lawful \<Longrightarrow> del k db = (Inr u, db') \<Longrightarrow> look db' = (look db)(k := None)"
    and repl_ok: "lawful \<Longrightarrow> \<forall>(k, i) \<in> set ps. ok i \<Longrightarrow> distinct (map fst ps) \<Longrightarrow>
        repl ps db = (Inr u, db') \<Longrightarrow> look db' = map_of ps"
    and put_err: "put k i db = (Inl e, db') \<Longrightarrow> db' = db"
    and del_err: "del k db = (Inl e, db') \<Longrightarrow> db' = db"
    and repl_err: "repl ps db = (Inl e, db') \<Longrightarrow> db' = db"
begin

lemma put_look:
  assumes "lawful" "ok i" "put k i db = (r, db')"
  shows "look db' = (if is_ok r then (look db)(k \<mapsto> i) else look db)"
  using assms by (cases r) (auto dest: put_err intro: put_ok)

lemma del_look:
  assumes "lawful" "del k db = (r, db')"
  shows "look db' = (if is_ok r then (look db)(k := None) else look db)"
  using assms by (cases r) (auto dest: del_err intro: del_ok)

lemma put_del_look:
  assumes "lawful" "ok i" "put k i db = (Inr u, db1)" "del k db1 = (Inr v, db2)"
  shows "look db2 = (look db)(k := None)"
  using put_ok [OF assms(1,2,3)] del_ok [OF assms(1,4)] by simp

lemma repl_look:
  assumes "lawful" "\<forall>(k, i) \<in> set ps. ok i" "distinct (map fst ps)" "repl ps db = (r, db')"
  shows "look db' = (if is_ok r then map_of ps else look db)"
  using assms by (cases r) (auto dest: repl_err intro: repl_ok)

end

interpretation peer_table: peer_store
  "bolt_laws B" info_ok "peer_of B" "PutPeer B" "DeletePeer B" "ReplaceAll B" for B
proof (unfold_locales, goal_cases)
  case (1 i k db u db')
  from 1(3) obtain tx where tx: "bPut B bucketPeers k (peer_marshal i) db = Inr tx"
    and get: "bGet B db' = bGet B tx"
    unfolding PutPeer_def by (rule db_update_ok [OF _ 1(1)])
  show ?case
    using get 1(2) by (auto simp: peer_of_def bolt_put [OF 1(1) tx] fun_eq_iff peer_record.dec_enc)
next
  case (2 k db u db')
  from 2(2) obtain tx where tx: "bDelete B bucketPeers k db = Inr tx"
    and get: "bGet B db' = bGet B tx"
    unfolding DeletePeer_def by (rule db_update_ok [OF _ 2(1)])
  show ?case
    using get by (auto simp: peer_of_def bolt_delete [OF 2(1) tx] fun_eq_iff)
next
  case (3 ps db u db')
  have "peer_unmarshal (peer_marshal i) = Some i" if "map_of ps k = Some i" for k i
    using 3(2) that peer_record.dec_enc by (auto dest: map_of_SomeD)
  then show ?case
    using ReplaceAll_get [OF 3(1,3,4)]
    by (auto simp: peer_of_def fun_eq_iff split: option.splits)
qed (auto simp: PutPeer_def DeletePeer_def ReplaceAll_def dest: db_update_err)

lemma peer_list_Cons [simp]:
  "peer_list [] = []"
  "peer_list ((k, v) # kvs) =
     (case peer_unmarshal v of None \<Rightarrow> [] | Some i \<Rightarrow> [(k, i)]) @ peer_list kvs"
  by (simp_all add: peer_list_def)

lemma for_each_fold:
  assumes "\<And>k i s. fst (fn k i s) = None"
  shows "for_each fn kvs s = (None, fold (\<lambda>(k, i) s. snd (fn k i s)) (peer_list kvs) s)"
proof (induction kvs arbitrary: s)
  case Nil
  then show ?case by simp
next
  case (Cons kv kvs)
  obtain k v where kv: "kv = (k, v)" by (cases kv)
  show ?case
  proof (cases "peer_unmarshal v")
    case None
    with Cons kv show ?thesis by simp
  next
    case (Some i)
    obtain s' where "fn k i s = (None, s')"
      using assms [of k i s] by (cases "fn k i s") simp
    with Some Cons kv show ?thesis by simp
  qed
qed

lemma set_peer_list:
  "(k, i) \<in> set (peer_list kvs) \<longleftrightarrow> (\<exists>v. (k, v) \<in> set kvs \<and> peer_unmarshal v = Some i)"
  by (induction kvs) (auto split: option.splits)

lemma set_peer_list_cursor:
  assumes "bolt_laws B"
  shows "(k, i) \<in> set (peer_list (bCursor B db bucketPeers)) \<longleftrightarrow> peer_of B db k = Some i"
proof -
  have "(k, v) \<in> set (bCursor B db bucketPeers) \<longleftrightarrow> bGet B db bucketPeers k = Some v" for v
    using bolt_cursor [OF assms, of db bucketPeers] by (metis map_of_eq_Some_iff)
  then show ?thesis by (auto simp: set_peer_list peer_of_def split: option.splits)
qed

lemma asn_found_iff: "asn_found asn kvs \<longleftrightarrow> (\<exists>(k, i) \<in> set (peer_list kvs). pi_ASN i = asn)"
  by (induction asn kvs rule: asn_found.induct) (auto split: option.splits)

lemma GetPeer_ok:
  "GetPeer B peerID db = Inr i \<longleftrightarrow> bBegin B db False = None \<and> peer_of B db peerID = Some i"
  by (auto simp: GetPeer_def db_view_def peer_of_def split: option.splits)

section \<open>Properties\<close>

text \<open>
  C26: a peer that \<open>PutPeer\<close> stored is what \<open>GetPeer\<close> returns, through the JSON text in
  the database and back, and every other peer is as it was.
\<close>

theorem put_then_get:
  assumes "bolt_laws B" "info_ok info" "PutPeer B peerID info db = (Inr (), db')"
    and "bBegin B db' False = None"
  shows "GetPeer B peerID db' = Inr info \<and>
    (\<forall>other. other \<noteq> peerID \<longrightarrow> peer_of B db' other = peer_of B db other)"
  using peer_table.put_ok [OF assms(1-3)] assms(4) by (simp add: GetPeer_ok)

definition demo_info :: PeerInfo where
  "demo_info = \<lparr>pi_ASN = 4242420123, pi_RemoteLLA = ''fe80::2'', pi_WgInterface = ''dn42x'',
     pi_BgpProtoName = ''dn42_4242420123'', pi_BirdConfigFilename = ''dn42_4242420123.conf''\<rparr>"

lemma demo_info_ok: "info_ok demo_info"
  by (simp add: info_ok_def demo_info_def int64_range_def)

theorem put_then_get_witness:
  "\<exists>db'. PutPeer mem_bolt ''p1'' demo_info [] = (Inr (), db') \<and>
     GetPeer mem_bolt ''p1'' db' = Inr demo_info"
proof -
  define db' where "db' = snd (PutPeer mem_bolt ''p1'' demo_info [])"
  have put: "PutPeer mem_bolt ''p1'' demo_info [] = (Inr (), db')"
    by (simp add: db'_def PutPeer_def db_update_def mem_bolt_def)
  have "bBegin mem_bolt db' False = None" by (simp add: mem_bolt_def)
  from put_then_get [OF mem_bolt_laws demo_info_ok put this] put show ?thesis by blast
qed

text \<open>
  C27: \<open>ReplaceAll\<close> is atomic. When it succeeds, the peer table is exactly the map it was
  given, whatever the order in which Go walks the map, and the version, update and key entries are
  untouched; when it fails, nothing has changed.
\<close>

theorem replace_all_exact:
  assumes "bolt_laws B" "\<forall>(k, i) \<in> set peers. info_ok i" "distinct (map fst peers)"
    and "ReplaceAll B peers db = (r, db')"
  shows "if is_ok r
    then peer_of B db' = map_of peers \<and> (\<forall>b. b \<noteq> bucketPeers \<longrightarrow> bGet B db' b = bGet B db b)
    else db' = db"
proof (cases r)
  case (Inl e)
  with assms(4) show ?thesis by (auto dest: peer_table.repl_err)
next
  case (Inr u)
  with assms(4) have "ReplaceAll B peers db = (Inr u, db')" by simp
  from ReplaceAll_get [OF assms(1,3) this] peer_table.repl_ok [OF assms(1-3) this] Inr
  show ?thesis by (auto simp: fun_eq_iff)
qed

theorem replace_all_exact_witness:
  "\<exists>db'. ReplaceAll mem_bolt [(''p1'', demo_info)] [((''peers'', ''old''), ''x''), ((''meta'', ''version''), ''v1'')]
      = (Inr (), db') \<and> peer_of mem_bolt db' = [''p1'' \<mapsto> demo_info]"
proof -
  let ?db = "[((''peers'', ''old''), ''x''), ((''meta'', ''version''), ''v1'')] :: mem_db"
  define r where "r = fst (ReplaceAll mem_bolt [(''p1'', demo_info)] ?db)"
  define db' where "db' = snd (ReplaceAll mem_bolt [(''p1'', demo_info)] ?db)"
  have eq: "ReplaceAll mem_bolt [(''p1'', demo_info)] ?db = (r, db')" by (simp add: r_def db'_def)
  have r: "r = Inr ()"
    by (simp add: r_def ReplaceAll_def db_update_def mem_bolt_def mem_cursor_def bucketPeers_def
        AList.clearjunk.simps)
  from replace_all_exact [OF mem_bolt_laws _ _ eq] demo_info_ok r eq show ?thesis by auto
qed

text \<open>
  \<open>IsASNTracked\<close> answers whether some readable peer record has the ASN.
\<close>

lemma is_asn_tracked_iff:
  assumes "bolt_laws B" "bBegin B db False = None"
  shows "fst (IsASNTracked B asn db) \<longleftrightarrow> (\<exists>k i. peer_of B db k = Some i \<and> pi_ASN i = asn)"
  using assms(2) by (auto simp: IsASNTracked_def asn_found_iff set_peer_list_cursor [OF assms(1)])
    (metis case_prodI set_peer_list_cursor [OF assms(1)])

text \<open>
  The centre's public key, once cached, is what \<open>GetServerPubKey\<close> returns, also after a
  \<open>peers.sync\<close> has replaced the whole peer table.
\<close>

lemma server_key_survives_replace:
  assumes "bolt_laws B" "PutServerPubKey B pub db = (Inr (), db1)"
    and "ReplaceAll B peers db1 = (r, db2)" "distinct (map fst peers)"
    and "bBegin B db2 False = None" "bBucket B db2 bucketKeys"
  shows "GetServerPubKey B db2 = Inr pub"
proof -
  from assms(2) obtain tx where tx: "bPut B bucketKeys keyServerPub pub db = Inr tx"
    and get: "bGet B db1 = bGet B tx"
    unfolding PutServerPubKey_def by (rule db_update_ok [OF _ assms(1)])
  have one: "bGet B db1 bucketKeys keyServerPub = Some pub"
    using get by (simp add: bolt_put [OF assms(1) tx])
  have "bGet B db2 bucketKeys keyServerPub = Some pub"
  proof (cases r)
    case (Inl e)
    with assms(3) one show ?thesis by (auto dest: peer_table.repl_err)
  next
    case (Inr u)
    have "bucketKeys \<noteq> bucketPeers" by (simp add: bucketKeys_def bucketPeers_def)
    with ReplaceAll_get [OF assms(1,4), of db1 u db2] Inr assms(3) one show ?thesis by simp
  qed
  with assms(5,6) show ?thesis by (simp add: GetServerPubKey_def db_view_def)
qed

end
