(* ===== verification/Go_Net.thy ===== *)
theory Go_Net
  imports Go_Json
begin

text \<open>
  The Go package \<open>net\<close> as far as the agent uses it: the parser of IP addresses and of CIDR
  prefixes, the address classes, the printer of addresses, and \<open>%q\<close> of package \<open>fmt\<close>. An
  address is what \<open>net.ParseIP\<close> returns, 16 bytes, with IPv4 addresses in their mapped form.
\<close>

unbundle bit_operations_syntax

section \<open>Addresses\<close>

type_synonym ip = "8 word list"

definition v4_in_v6 :: "8 word list" where
  "v4_in_v6 = replicate 10 0 @ [255, 255]"

definition to4 :: "ip \<Rightarrow> ip option" where
  "to4 a =
     (if length a = 4 then Some a
      else if length a = 16 \<and> take 12 a = v4_in_v6 then Some (drop 12 a)
      else None)"

definition v4_mapped :: "8 word list \<Rightarrow> ip" where
  "v4_mapped ys = v4_in_v6 @ ys"

section \<open>Parsing\<close>

text \<open>
  \<open>parseIPv4Fields\<close>: four decimal fields, none of them blank, above 255 or with a leading zero.
\<close>

definition v4_octet :: "string \<Rightarrow> 8 word option" where
  "v4_octet s =
     (if s \<noteq> [] \<and> (\<forall>c \<in> set s. is_digit c) \<and> (length s = 1 \<or> hd s \<noteq> CHR ''0'') \<and>
         length s \<le> 3 \<and> digits_val s \<le> 255
      then Some (of_nat (digits_val s)) else None)"

definition parse_v4 :: "string \<Rightarrow> 8 word list option" where
  "parse_v4 s =
     (case map v4_octet (split_on CHR ''.'' s) of
        [Some a, Some b, Some c, Some d] \<Rightarrow> Some [a, b, c, d]
      | _ \<Rightarrow> None)"

definition hex_word :: "string \<Rightarrow> nat" where
  "hex_word s = foldl (\<lambda>a c. 16 * a + (case hex_val c of Some d \<Rightarrow> d | None \<Rightarrow> 0)) 0 s"

definition is_hex :: "char \<Rightarrow> bool" where
  "is_hex c \<longleftrightarrow> hex_val c \<noteq> None"

definition group_bytes :: "nat \<Rightarrow> 8 word list" where
  "group_bytes n = [of_nat (n div 256), of_nat (n mod 256)]"

text \<open>
  The loop of \<open>parseIPv6\<close>: \<open>k\<close> groups are still to be read, \<open>ys\<close> are the bytes read and \<open>e\<close> is
  the position of the ellipsis. The result is the bytes, the ellipsis and the text left.
\<close>

fun v6_loop :: "nat \<Rightarrow> nat option \<Rightarrow> 8 word list \<Rightarrow> string
    \<Rightarrow> (8 word list \<times> nat option \<times> string) option" where
  "v6_loop 0 e ys s = Some (ys, e, s)"
| "v6_loop (Suc k) e ys s =
     (let g = takeWhile is_hex s; r = dropWhile is_hex s in
      if g = [] \<or> 4 < length g then None
      else if r \<noteq> [] \<and> hd r = CHR ''.'' then
        (if e = None \<and> length ys \<noteq> 12 \<or> 12 < length ys then None
         else map_option (\<lambda>q. (ys @ q, e, [])) (parse_v4 s))
      else
        let ys = ys @ group_bytes (hex_word g) in
        (case r of
           [] \<Rightarrow> Some (ys, e, [])
         | c # r1 \<Rightarrow>
             if c \<noteq> CHR '':'' \<or> r1 = [] then None
             else if hd r1 = CHR '':'' then
               (if e \<noteq> None then None
                else if tl r1 = [] then Some (ys, Some (length ys), [])
                else v6_loop k (Some (length ys)) ys (tl r1))
             else v6_loop k e ys r1))"

definition parse_v6 :: "string \<Rightarrow> ip option" where
  "parse_v6 s =
     (if CHR ''%'' \<in> set s then None
      else if s = ''::'' then Some (replicate 16 0)
      else
        case (if has_prefix ''::'' s then v6_loop 8 (Some 0) [] (drop 2 s) else v6_loop 8 None [] s) of
          None \<Rightarrow> None
        | Some (ys, e, r) \<Rightarrow>
            if r \<noteq> [] then None
            else
              (case e of
                 None \<Rightarrow> if length ys = 16 then Some ys else None
               | Some p \<Rightarrow>
                   if length ys < 16 then Some (take p ys @ replicate (16 - length ys) 0 @ drop p ys)
                   else None))"

text \<open>
  \<open>netip.ParseAddr\<close> without a zone: the first dot or colon decides the family. The flag is the
  family, which \<open>ParseCIDR\<close> needs.
\<close>

definition parse_addr :: "string \<Rightarrow> (bool \<times> ip) option" where
  "parse_addr s =
     (case dropWhile (\<lambda>c. c \<noteq> CHR ''.'' \<and> c \<noteq> CHR '':'' \<and> c \<noteq> CHR ''%'') s of
        [] \<Rightarrow> None
      | c # _ \<Rightarrow>
          if c = CHR ''.'' then map_option (\<lambda>ys. (True, v4_mapped ys)) (parse_v4 s)
          else if c = CHR '':'' then map_option (Pair False) (parse_v6 s)
          else None)"

definition parse_ip :: "string \<Rightarrow> ip option" where
  "parse_ip s = map_option snd (parse_addr s)"

text \<open>\<open>net.CIDRMask\<close>, \<open>IP.Mask\<close>, \<open>net.ParseCIDR\<close> and \<open>IPNet.Contains\<close>.\<close>

definition mask_byte :: "nat \<Rightarrow> 8 word" where
  "mask_byte n = (if 8 \<le> n then 255 else push_bit (8 - n) 255)"

definition cidr_mask :: "nat \<Rightarrow> nat \<Rightarrow> 8 word list" where
  "cidr_mask ones bytes = map (\<lambda>i. mask_byte (ones - 8 * i)) [0..<bytes]"

definition apply_mask :: "8 word list \<Rightarrow> 8 word list \<Rightarrow> 8 word list" where
  "apply_mask m a = map2 (AND) a m"

definition parse_cidr :: "string \<Rightarrow> (ip \<times> 8 word list \<times> 8 word list) option" where
  "parse_cidr s =
     (if CHR ''/'' \<notin> set s then None
      else
        let addr = takeWhile (\<lambda>c. c \<noteq> CHR ''/'') s;
            mask = tl (dropWhile (\<lambda>c. c \<noteq> CHR ''/'') s)
        in case parse_addr addr of
             None \<Rightarrow> None
           | Some (v4, a) \<Rightarrow>
               if mask = [] \<or> (\<exists>c \<in> set mask. \<not> is_digit c) \<or>
                  (if v4 then 32 else 128) < digits_val mask then None
               else if v4 then
                 let m = cidr_mask (digits_val mask) 4 in Some (a, apply_mask m (drop 12 a), m)
               else
                 let m = cidr_mask (digits_val mask) 16 in Some (a, apply_mask m a, m))"

definition net_contains :: "8 word list \<times> 8 word list \<Rightarrow> ip \<Rightarrow> bool" where
  "net_contains n a =
     (let x = (case to4 a of Some b \<Rightarrow> b | None \<Rightarrow> a) in
      length x = length (fst n) \<and> apply_mask (snd n) x = apply_mask (snd n) (fst n))"

section \<open>Address classes\<close>

definition ip_equal :: "ip \<Rightarrow> ip \<Rightarrow> bool" where
  "ip_equal a b \<longleftrightarrow> a = b"

definition is_loopback :: "ip \<Rightarrow> bool" where
  "is_loopback a =
     (case to4 a of Some q \<Rightarrow> q ! 0 = 127 | None \<Rightarrow> ip_equal a (replicate 15 0 @ [1]))"

definition is_link_local_unicast :: "ip \<Rightarrow> bool" where
  "is_link_local_unicast a =
     (case to4 a of
        Some q \<Rightarrow> q ! 0 = 169 \<and> q ! 1 = 254
      | None \<Rightarrow> length a = 16 \<and> a ! 0 = 0xfe \<and> (a ! 1) AND 0xc0 = 0x80)"

definition is_link_local_multicast :: "ip \<Rightarrow> bool" where
  "is_link_local_multicast a =
     (case to4 a of
        Some q \<Rightarrow> q ! 0 = 224 \<and> q ! 1 = 0 \<and> q ! 2 = 0
      | None \<Rightarrow> length a = 16 \<and> a ! 0 = 0xff \<and> (a ! 1) AND 0x0f = 0x02)"

definition is_interface_local_multicast :: "ip \<Rightarrow> bool" where
  "is_interface_local_multicast a \<longleftrightarrow> length a = 16 \<and> a ! 0 = 0xff \<and> (a ! 1) AND 0x0f = 0x01"

definition is_multicast :: "ip \<Rightarrow> bool" where
  "is_multicast a =
     (case to4 a of
        Some q \<Rightarrow> (q ! 0) AND 0xf0 = 0xe0
      | None \<Rightarrow> length a = 16 \<and> a ! 0 = 0xff)"

definition is_unspecified :: "ip \<Rightarrow> bool" where
  "is_unspecified a \<longleftrightarrow> ip_equal a (v4_mapped [0, 0, 0, 0]) \<or> ip_equal a (replicate 16 0)"

definition is_global_unicast :: "ip \<Rightarrow> bool" where
  "is_global_unicast a \<longleftrightarrow>
     (length a = 4 \<or> length a = 16) \<and> \<not> ip_equal a (v4_mapped [255, 255, 255, 255]) \<and>
     \<not> is_unspecified a \<and> \<not> is_loopback a \<and> \<not> is_multicast a \<and> \<not> is_link_local_unicast a"

section \<open>Printing\<close>

definition v4_string :: "8 word list \<Rightarrow> string" where
  "v4_string q = join_with ''.'' (map (\<lambda>b. nat_str (unat b)) q)"

definition group_at :: "ip \<Rightarrow> nat \<Rightarrow> nat" where
  "group_at a i = 256 * unat (a ! (2 * i)) + unat (a ! (2 * i + 1))"

fun hex_str :: "nat \<Rightarrow> string" where
  "hex_str n = (if n < 16 then [hex_char n] else hex_str (n div 16) @ [hex_char (n mod 16)])"

declare hex_str.simps [simp del]

text \<open>The longest run of at least two zero groups, the first of them when there are several.\<close>

definition zero_run :: "nat list \<Rightarrow> nat \<Rightarrow> nat" where
  "zero_run gs i = length (takeWhile (\<lambda>g. g = 0) (drop i gs))"

definition zero_range :: "nat list \<Rightarrow> (nat \<times> nat) option" where
  "zero_range gs =
     fold (\<lambda>i best.
       let l = zero_run gs i in
       if 2 \<le> l \<and> (case best of None \<Rightarrow> True | Some (s, t) \<Rightarrow> t - s < l) then Some (i, i + l)
       else best) [0..<length gs] None"

definition v6_string :: "ip \<Rightarrow> string" where
  "v6_string a =
     (let gs = map (group_at a) [0..<8] in
      case zero_range gs of
        None \<Rightarrow> join_with '':'' (map hex_str gs)
      | Some (s, t) \<Rightarrow>
          join_with '':'' (map hex_str (take s gs)) @ ''::'' @
          join_with '':'' (map hex_str (drop t gs)))"

text \<open>\<open>IP.String\<close> on the 4- and 16-byte addresses that a resolver returns.\<close>

definition ip_string :: "ip \<Rightarrow> string" where
  "ip_string a = (case to4 a of Some q \<Rightarrow> v4_string q | None \<Rightarrow> v6_string a)"

text \<open>
  \<open>%q\<close>: the double-quoted form of \<open>strconv.Quote\<close>. Well-formed runes beyond ASCII are printed as
  they are, which is what \<open>strconv.Quote\<close> does with the printable ones.
\<close>

definition hex2 :: "nat \<Rightarrow> string" where
  "hex2 n = [hex_char (n div 16), hex_char (n mod 16)]"

definition quote_char :: "char \<Rightarrow> string" where
  "quote_char c =
     (let b = byte_of c in
      if b = 34 \<or> b = 92 then [char_of (92 :: nat), c]
      else if 32 \<le> b \<and> b < 127 then [c]
      else if b = 7 then char_of (92 :: nat) # ''a''
      else if b = 8 then char_of (92 :: nat) # ''b''
      else if b = 9 then char_of (92 :: nat) # ''t''
      else if b = 10 then char_of (92 :: nat) # ''n''
      else if b = 11 then char_of (92 :: nat) # ''v''
      else if b = 12 then char_of (92 :: nat) # ''f''
      else if b = 13 then char_of (92 :: nat) # ''r''
      else char_of (92 :: nat) # ''x'' @ hex2 b)"

fun quote_runes :: "nat \<Rightarrow> string \<Rightarrow> string" where
  "quote_runes k [] = []"
| "quote_runes (Suc k) (c # s) = c # quote_runes k s"
| "quote_runes 0 (c # s) =
     (if 1 < rune_len (c # s) then c # quote_runes (rune_len (c # s) - 1) s
      else quote_char c @ quote_runes 0 s)"

definition go_quote :: "string \<Rightarrow> string" where
  "go_quote s = [CHR 0x22] @ quote_runes 0 s @ [CHR 0x22]"

section \<open>What a parsed address looks like\<close>

text \<open>The characters an accepted address is made of.\<close>

definition addr_char :: "char \<Rightarrow> bool" where
  "addr_char c \<longleftrightarrow> is_hex c \<or> c = CHR '':'' \<or> c = CHR ''.''"

lemma is_digit_hex: "is_digit c \<Longrightarrow> is_hex c"
  by (simp add: is_digit_def is_hex_def hex_val_def)

lemma join_split_on: "join_with [d] (split_on d s) = s"
proof (induction s)
  case Nil
  then show ?case by simp
next
  case (Cons c s)
  obtain w ws where w: "split_on d s = w # ws" by (cases "split_on d s") auto
  with Cons show ?case by (cases ws) auto
qed

lemma set_join_with: "set (join_with d ws) \<subseteq> set d \<union> \<Union> (set ` set ws)"
  by (induction d ws rule: join_with.induct) auto

lemma set_split_on: "set s \<subseteq> insert d (\<Union> (set ` set (split_on d s)))"
  using set_join_with [of "[d]" "split_on d s"] by (simp add: join_split_on)

lemma v4_octet_chars: "v4_octet s = Some b \<Longrightarrow> \<forall>c \<in> set s. is_digit c"
  by (auto simp: v4_octet_def split: if_splits)

lemma parse_v4_fields:
  assumes "parse_v4 s = Some ys"
  obtains a b c d where "ys = [a, b, c, d]"
    "map v4_octet (split_on CHR ''.'' s) = [Some a, Some b, Some c, Some d]"
  using assms unfolding parse_v4_def
  by (auto split: list.splits option.splits)

lemma parse_v4_chars:
  assumes "parse_v4 s = Some ys"
  shows "length ys = 4" "\<forall>c \<in> set s. is_digit c \<or> c = CHR ''.''"
proof -
  obtain a b c d where f: "ys = [a, b, c, d]"
    "map v4_octet (split_on CHR ''.'' s) = [Some a, Some b, Some c, Some d]"
    using assms by (rule parse_v4_fields)
  then show "length ys = 4" by simp
  have "\<forall>w \<in> set (split_on CHR ''.'' s). v4_octet w \<noteq> None"
  proof
    fix w assume "w \<in> set (split_on CHR ''.'' s)"
    then have "v4_octet w \<in> set [Some a, Some b, Some c, Some d]"
      unfolding f(2) [symmetric] by simp
    then show "v4_octet w \<noteq> None" by auto
  qed
  then show "\<forall>c \<in> set s. is_digit c \<or> c = CHR ''.''"
    using set_split_on [of s "CHR ''.''"] v4_octet_chars by blast
qed

text \<open>One round of the loop that goes on or ends well.\<close>

lemma v6_loop_SucE:
  assumes "v6_loop (Suc k) e ys s = Some (zs, e', r)"
  obtains
    (dotted) q where "parse_v4 s = Some q" "length ys \<le> 12" "zs = ys @ q" "e' = e" "r = []"
  | (last) g where "s = g" "\<forall>c \<in> set g. is_hex c" "zs = ys @ group_bytes (hex_word g)" "e' = e"
      "r = []"
  | (ellipsis_last) g where "s = g @ ''::''" "\<forall>c \<in> set g. is_hex c"
      "zs = ys @ group_bytes (hex_word g)" "e' = Some (length zs)" "r = []"
  | (ellipsis) g t where "s = g @ ''::'' @ t" "\<forall>c \<in> set g. is_hex c"
      "v6_loop k (Some (length (ys @ group_bytes (hex_word g)))) (ys @ group_bytes (hex_word g)) t =
         Some (zs, e', r)"
  | (colon) g t where "s = g @ '':'' @ t" "\<forall>c \<in> set g. is_hex c"
      "v6_loop k e (ys @ group_bytes (hex_word g)) t = Some (zs, e', r)"
proof -
  let ?g = "takeWhile is_hex s" and ?r = "dropWhile is_hex s"
  let ?ys = "ys @ group_bytes (hex_word ?g)"
  have s: "s = ?g @ ?r" by simp
  have g: "\<forall>c \<in> set ?g. is_hex c" by (auto dest: set_takeWhileD)
  have len: "\<not> (?g = [] \<or> 4 < length ?g)"
    using assms by (rule contrapos_pn) (simp add: Let_def)
  show ?thesis
  proof (cases ?r)
    case Nil
    with assms len have "zs = ?ys" "e' = e" "r = []" by (simp_all add: Let_def)
    with s g Nil show ?thesis by (intro last [of ?g]) simp_all
  next
    case (Cons c r1)
    note r = this
    show ?thesis
    proof (cases "c = CHR ''.''")
      case True
      with r assms len have "(if e = None \<and> length ys \<noteq> 12 \<or> 12 < length ys then None
         else map_option (\<lambda>q. (ys @ q, e, [])) (parse_v4 s)) = Some (zs, e', r)"
        by (simp add: Let_def)
      then show ?thesis by (auto split: if_splits intro: dotted)
    next
      case False
      with r assms len have c: "c = CHR '':''" "r1 \<noteq> []"
        by (simp_all add: Let_def split: if_splits)
      then obtain d t where t: "r1 = d # t" by (cases r1) auto
      show ?thesis
      proof (cases "d = CHR '':''")
        case True
        with r t c assms len have "(if e \<noteq> None then None
          else if t = [] then Some (?ys, Some (length ?ys), [])
          else v6_loop k (Some (length ?ys)) ?ys t) = Some (zs, e', r)"
          by (simp add: Let_def split: if_splits)
        then have "t = [] \<and> zs = ?ys \<and> e' = Some (length ?ys) \<and> r = [] \<or>
          v6_loop k (Some (length ?ys)) ?ys t = Some (zs, e', r)"
          by (auto split: if_splits)
        moreover have "s = ?g @ ''::'' @ t" using s r t c True by simp
        ultimately show ?thesis using ellipsis_last [of ?g] ellipsis [of ?g t] g by fastforce
      next
        case False
        with r t c assms len have "v6_loop k e ?ys r1 = Some (zs, e', r)"
          by (simp add: Let_def)
        with s r c g show ?thesis by (intro colon [of ?g r1]) simp_all
      qed
    qed
  qed
qed

lemma v6_loop_props:
  assumes "v6_loop k e ys s = Some (zs, e', r)" "length ys + 2 * k = 16"
    "\<forall>p. e = Some p \<longrightarrow> p \<le> length ys"
  shows "length zs \<le> 16" "\<forall>p. e' = Some p \<longrightarrow> p \<le> length zs"
    "r = [] \<Longrightarrow> \<forall>c \<in> set s. addr_char c"
proof -
  have "length zs \<le> 16 \<and> (\<forall>p. e' = Some p \<longrightarrow> p \<le> length zs) \<and>
    (r = [] \<longrightarrow> (\<forall>c \<in> set s. addr_char c))"
    using assms
  proof (induction k arbitrary: e ys s)
    case 0
    then show ?case by auto
  next
    case (Suc k)
    have len: "length (ys @ group_bytes n) = length ys + 2" for n
      by (simp add: group_bytes_def)
    from Suc.prems(1) show ?case
    proof (cases rule: v6_loop_SucE)
      case (dotted q)
      have "\<forall>c \<in> set s. addr_char c"
        using parse_v4_chars(2) [OF dotted(1)] is_digit_hex by (auto simp: addr_char_def)
      with dotted(2-5) Suc.prems(3) parse_v4_chars(1) [OF dotted(1)] show ?thesis
        by (auto simp: trans_le_add1)
    next
      case (last g)
      with Suc.prems len show ?thesis by (auto simp: addr_char_def)
    next
      case (ellipsis_last g)
      with Suc.prems len show ?thesis by (auto simp: addr_char_def)
    next
      case (ellipsis g t)
      from Suc.IH [OF ellipsis(3)] ellipsis(1,2) Suc.prems(2) len show ?thesis
        by (auto simp: addr_char_def)
    next
      case (colon g t)
      have "\<forall>p. e = Some p \<longrightarrow> p \<le> length (ys @ group_bytes (hex_word g))"
        using Suc.prems(3) by auto
      from Suc.IH [OF colon(3) _ this] colon(1,2) Suc.prems(2) len show ?thesis
        by (auto simp: addr_char_def)
    qed
  qed
  then show "length zs \<le> 16" "\<forall>p. e' = Some p \<longrightarrow> p \<le> length zs"
    "r = [] \<Longrightarrow> \<forall>c \<in> set s. addr_char c"
    by simp_all
qed

lemma parse_v6_props:
  assumes "parse_v6 s = Some a"
  shows "length a = 16" "\<forall>c \<in> set s. addr_char c"
proof -
  consider "s = ''::''" "a = replicate 16 0"
    | e s' ys e' where "v6_loop 8 e [] s' = Some (ys, e', [])" "e = None \<or> e = Some 0"
        "s = s' \<or> s = ''::'' @ s'"
        "a = ys \<and> length ys = 16 \<or>
         (\<exists>p. e' = Some p \<and> length ys < 16 \<and> a = take p ys @ replicate (16 - length ys) 0 @ drop p ys)"
    using assms unfolding parse_v6_def
    by (fastforce split: if_splits option.splits prod.splits simp: has_prefix_iff)
  then have "length a = 16 \<and> (\<forall>c \<in> set s. addr_char c)"
  proof cases
    case 1
    then show ?thesis by (simp add: addr_char_def)
  next
    case 2
    from v6_loop_props [OF 2(1)] 2 show ?thesis
      by (auto simp: addr_char_def)
  qed
  then show "length a = 16" "\<forall>c \<in> set s. addr_char c" by simp_all
qed

lemma parse_ip_props:
  assumes "parse_ip s = Some a"
  shows "length a = 16" "\<forall>c \<in> set s. addr_char c" "s \<noteq> []"
proof -
  have "(\<exists>q. parse_v4 s = Some q \<and> a = v4_mapped q) \<or> parse_v6 s = Some a"
    using assms by (auto simp: parse_ip_def parse_addr_def split: list.splits if_splits)
  then show "length a = 16" "\<forall>c \<in> set s. addr_char c"
    using parse_v4_chars [of s] parse_v6_props [of s a] is_digit_hex
    by (auto simp: v4_mapped_def v4_in_v6_def addr_char_def)
  show "s \<noteq> []" using assms by (auto simp: parse_ip_def parse_addr_def)
qed

end
