(* ===== verification/Go_Regex.thy ===== *)
theory Go_Regex
  imports Prelude
begin

text \<open>
  The Go package \<open>regexp\<close> for the patterns the agent compiles: character classes, greedy
  repetition of a class, capturing groups, an optional part, an alternative and the end-of-text
  anchor. A pattern is a list of items; \<open>rmatch\<close> is the backtracking reading of the leftmost-first
  semantics that package documents, \<open>rfind\<close> is \<open>FindStringSubmatch\<close> and \<open>rfind_all\<close> is
  \<open>FindAllStringSubmatch\<close>. Matching works on bytes; every pattern of the source has only ASCII
  literals and classes, for which this agrees with matching on runes.
\<close>

section \<open>Patterns and matching\<close>

datatype rx =
    Chr "char \<Rightarrow> bool"
  | Star "char \<Rightarrow> bool"
  | Open nat
  | Shut nat
  | Opt "rx list"
  | Alt "rx list" "rx list"
  | End

type_synonym groups = "(nat \<times> string) list"

definition captured :: "groups \<Rightarrow> nat \<Rightarrow> string \<Rightarrow> string" where
  "captured os n s =
     (case map_of os n of None \<Rightarrow> [] | Some t \<Rightarrow> take (length t - length s) t)"

function rmatch :: "rx list \<Rightarrow> groups \<Rightarrow> groups \<Rightarrow> string \<Rightarrow> (groups \<times> string) option" where
  "rmatch [] os cs s = Some (cs, s)"
| "rmatch (Chr p # r) os cs s =
     (case s of [] \<Rightarrow> None | c # t \<Rightarrow> if p c then rmatch r os cs t else None)"
| "rmatch (Star p # r) os cs s =
     (case s of
        [] \<Rightarrow> rmatch r os cs s
      | c # t \<Rightarrow>
          if p c then
            (case rmatch (Star p # r) os cs t of
               Some x \<Rightarrow> Some x
             | None \<Rightarrow> rmatch r os cs s)
          else rmatch r os cs s)"
| "rmatch (Open n # r) os cs s = rmatch r ((n, s) # os) cs s"
| "rmatch (Shut n # r) os cs s = rmatch r os ((n, captured os n s) # cs) s"
| "rmatch (Opt b # r) os cs s =
     (case rmatch (b @ r) os cs s of Some x \<Rightarrow> Some x | None \<Rightarrow> rmatch r os cs s)"
| "rmatch (Alt a b # r) os cs s =
     (case rmatch (a @ r) os cs s of Some x \<Rightarrow> Some x | None \<Rightarrow> rmatch (b @ r) os cs s)"
| "rmatch (End # r) os cs s = (if s = [] then rmatch r os cs s else None)"
  by pat_completeness auto
termination
  by (relation "measures [\<lambda>(r, os, cs, s). size_list size r, \<lambda>(r, os, cs, s). length s]")
    (auto simp: size_list_append)

lemma rmatch_star_Nil [simp]: "rmatch (Star p # r) os cs [] = rmatch r os cs []"
  by (subst rmatch.simps(3)) (simp only: list.case)

lemma rmatch_star_Cons [simp]:
  "rmatch (Star p # r) os cs (c # t) =
     (if p c then
        (case rmatch (Star p # r) os cs t of
           Some x \<Rightarrow> Some x
         | None \<Rightarrow> rmatch r os cs (c # t))
      else rmatch r os cs (c # t))"
  by (subst rmatch.simps(3)) (simp only: list.case)

declare rmatch.simps(3) [simp del]

text \<open>The submatches of the leftmost match and what follows it.\<close>

fun rfind :: "rx list \<Rightarrow> string \<Rightarrow> (groups \<times> string) option" where
  "rfind r [] = rmatch r [] [] []"
| "rfind r (c # s) =
     (case rmatch r [] [] (c # s) of Some x \<Rightarrow> Some x | None \<Rightarrow> rfind r s)"

fun rfind_all :: "nat \<Rightarrow> rx list \<Rightarrow> string \<Rightarrow> groups list" where
  "rfind_all 0 r s = []"
| "rfind_all (Suc n) r s =
     (case rfind r s of None \<Rightarrow> [] | Some (g, t) \<Rightarrow> g # rfind_all n r t)"

text \<open>A submatch; Go gives the empty string for a group that took no part in the match.\<close>

definition group :: "groups \<Rightarrow> nat \<Rightarrow> string" where
  "group g n = (case map_of g n of None \<Rightarrow> [] | Some s \<Rightarrow> s)"

section \<open>Building patterns\<close>

definition lit :: "string \<Rightarrow> rx list" where
  "lit s = map (\<lambda>c. Chr (\<lambda>x. x = c)) s"

definition plus :: "(char \<Rightarrow> bool) \<Rightarrow> rx list" where
  "plus p = [Chr p, Star p]"

definition cap :: "nat \<Rightarrow> rx list \<Rightarrow> rx list" where
  "cap n r = Open n # r @ [Shut n]"

text \<open>The Perl classes \<open>\s\<close> and \<open>\S\<close> and the class \<open>[\d.]\<close>.\<close>

definition rx_space :: "char \<Rightarrow> bool" where
  "rx_space c \<longleftrightarrow> c = CHR '' '' \<or> c = tab \<or> c = lf \<or> c = CHR 0x0C \<or> c = cr"

definition rx_nonspace :: "char \<Rightarrow> bool" where
  "rx_nonspace c \<longleftrightarrow> \<not> rx_space c"

definition rx_number :: "char \<Rightarrow> bool" where
  "rx_number c \<longleftrightarrow> is_digit c \<or> c = CHR ''.''"

definition rx_any :: "char \<Rightarrow> bool" where
  "rx_any c \<longleftrightarrow> c \<noteq> lf"

section \<open>Floating-point literals\<close>

text \<open>
  \<open>strconv.ParseFloat\<close> on a text of digits and dots, with the value it returns beside an error. A
  \<open>float64\<close> of the agent is the value of such a literal, 0 when the literal is malformed, infinity
  when it is too large, or the constant \<open>-1\<close>; it is held as the literal it was parsed from, so
  that no rounding is modelled and none is lost. A literal is too large when it rounds beyond the
  largest finite \<open>float64\<close>.
\<close>

datatype gofloat = FZero | FMinusOne | FInf | FLit string

definition float_syntax :: "string \<Rightarrow> bool" where
  "float_syntax s \<longleftrightarrow>
     (\<forall>c \<in> set s. rx_number c) \<and> (\<exists>c \<in> set s. is_digit c) \<and>
     length (filter (\<lambda>c. c = CHR ''.'') s) \<le> 1"

definition float_too_large :: "string \<Rightarrow> bool" where
  "float_too_large s \<longleftrightarrow> 2 ^ 1024 - 2 ^ 970 \<le> digits_val (takeWhile is_digit s)"

definition parse_float :: "string \<Rightarrow> gofloat \<times> num_err option" where
  "parse_float s =
     (if \<not> float_syntax s then (FZero, Some ErrSyntax)
      else if float_too_large s then (FInf, Some ErrRange)
      else (FLit s, None))"

section \<open>Lemmas\<close>

lemma rmatch_lit [simp]: "rmatch (lit u @ r) os cs (u @ s) = rmatch r os cs s"
  by (induction u) (simp_all add: lit_def)

lemma rmatch_lit_fail: "\<not> has_prefix u s \<Longrightarrow> rmatch (lit u @ r) os cs s = None"
proof (induction u arbitrary: s)
  case Nil
  then show ?case by (simp add: has_prefix_def)
next
  case (Cons c u)
  then show ?case by (cases s) (auto simp: lit_def has_prefix_def)
qed

text \<open>A greedy class that stops at a character outside it, when the rest then matches.\<close>

lemma rmatch_star_stop:
  assumes "\<forall>c \<in> set u. p c" "s = [] \<or> \<not> p (hd s)" "rmatch r os cs s = Some x"
  shows "rmatch (Star p # r) os cs (u @ s) = Some x"
  using assms
proof (induction u)
  case Nil
  then show ?case by (cases s) auto
next
  case (Cons c u)
  then show ?case by simp
qed

text \<open>A greedy class that must give characters back: every longer match of it fails.\<close>

lemma rmatch_star_back:
  assumes "\<forall>c \<in> set u. p c" "rmatch (Star p # r) os cs s = None"
    and "rmatch r os cs s' = Some x" "s' = v @ s" "\<forall>c \<in> set v. p c"
    and "\<And>v1 v2. v = v1 @ v2 \<Longrightarrow> v1 \<noteq> [] \<Longrightarrow> rmatch r os cs (v2 @ s) = None"
  shows "rmatch (Star p # r) os cs (u @ v @ s) = Some x"
proof -
  have none: "rmatch (Star p # r) os cs (w @ s) = None" if "\<exists>v1. v1 \<noteq> [] \<and> v = v1 @ w" for w
    using that
  proof (induction w)
    case Nil
    then show ?case using assms(2) by simp
  next
    case (Cons c w)
    then obtain v1 where v1: "v1 \<noteq> []" "v = v1 @ c # w" by blast
    then have "rmatch (Star p # r) os cs (w @ s) = None"
      using Cons.IH by (metis append.assoc append_Cons append_Nil append_is_Nil_conv)
    moreover have "rmatch r os cs ((c # w) @ s) = None"
      using assms(6) v1 by blast
    ultimately show ?case by simp
  qed
  have "rmatch (Star p # r) os cs (v @ s) = Some x"
  proof (cases v)
    case Nil
    with assms(2-4) show ?thesis by (cases s) (auto split: if_splits option.splits)
  next
    case (Cons c w)
    have "rmatch (Star p # r) os cs (w @ s) = None"
      by (rule none) (use Cons in \<open>auto intro!: exI [of _ "[c]"]\<close>)
    with Cons assms(3,4,5) show ?thesis by simp
  qed
  with assms(1) show ?thesis by (induction u) auto
qed

text \<open>A search skips a prefix in which no position matches.\<close>

lemma rfind_skip:
  assumes "\<And>v1 v2. u = v1 @ v2 \<Longrightarrow> v2 \<noteq> [] \<Longrightarrow> rmatch r [] [] (v2 @ s) = None"
  shows "rfind r (u @ s) = rfind r s"
  using assms
proof (induction u)
  case Nil
  then show ?case by simp
next
  case (Cons c u)
  have "rmatch r [] [] ((c # u) @ s) = None"
    using Cons.prems [of "[]" "c # u"] by simp
  moreover have "rfind r (u @ s) = rfind r s"
    by (rule Cons.IH) (metis Cons.prems append_Cons)
  ultimately show ?case by simp
qed

lemma rfind_here: "rmatch r [] [] s = Some x \<Longrightarrow> rfind r s = Some x"
  by (cases s) simp_all

lemma plus_stop:
  assumes "u \<noteq> []" "\<forall>c \<in> set u. p c" "s = [] \<or> \<not> p (hd s)" "rmatch r os cs s = Some x"
  shows "rmatch (plus p @ r) os cs (u @ s) = Some x"
  using assms rmatch_star_stop [of "tl u" p s r os cs x]
  by (cases u) (simp_all add: plus_def)

lemma captured_simp [simp]: "captured ((n, u @ s) # os) n s = u"
  by (simp add: captured_def)

lemma captured_all [simp]: "captured ((n, u) # os) n [] = u"
  by (simp add: captured_def)

lemma captured_other [simp]: "m \<noteq> n \<Longrightarrow> captured ((m, t) # os) n s = captured os n s"
  by (simp add: captured_def)

text \<open>Steps through a pattern made of literals, spaces and captured classes.\<close>

named_theorems rx_simps \<open>one item of a pattern against the text in front of it\<close>

lemma rmatch_lit_Cons [rx_simps]:
  "rmatch (lit (c # u) @ r) os cs (d # s) = (if d = c then rmatch (lit u @ r) os cs s else None)"
  "rmatch (lit [] @ r) os cs s = rmatch r os cs s"
  by (simp_all add: lit_def)

lemma rmatch_star_none:
  "s = [] \<or> \<not> p (hd s) \<Longrightarrow> rmatch (Star p # r) os cs s = rmatch r os cs s"
  by (cases s) simp_all

lemma rmatch_space [rx_simps]:
  "s = [] \<or> \<not> rx_space (hd s) \<Longrightarrow>
     rmatch (plus rx_space @ r) os cs (CHR '' '' # s) = rmatch r os cs s"
  using rmatch_star_none [of s rx_space r os cs] by (simp add: plus_def rx_space_def [of "CHR '' ''"])

lemma rmatch_spaces_lit [rx_simps]:
  "s = [] \<or> \<not> rx_space (hd s) \<Longrightarrow> c \<noteq> CHR '' '' \<Longrightarrow>
     rmatch (Star rx_space # lit (c # u) @ r) os cs (CHR '' '' # s) =
       rmatch (lit (c # u) @ r) os cs s"
  using rmatch_star_none [of s rx_space "lit (c # u) @ r" os cs]
  by (simp add: rx_space_def [of "CHR '' ''"] rmatch_lit_Cons split: option.splits)

lemma rmatch_open [rx_simps]:
  "rmatch (cap n b @ r) os cs s = rmatch (b @ Shut n # r) ((n, s) # os) cs s"
  by (simp add: cap_def)

lemma cap_step:
  assumes "u \<noteq> []" "\<forall>c \<in> set u. p c" "s = [] \<or> \<not> p (hd s)"
    and "rmatch r ((n, u @ s) # os) ((n, u) # cs) s = Some x"
  shows "rmatch (cap n (plus p) @ r) os cs (u @ s) = Some x"
  using assms plus_stop [of u p s "Shut n # r" "(n, u @ s) # os" cs x] by (simp add: cap_def)

text \<open>A captured class that swallows the delimiter after it and has to give it back.\<close>

lemma cap_back_step:
  assumes "u \<noteq> []" "\<forall>c \<in> set u. p c" "p d" "s \<noteq> []" "\<not> p (hd s)"
    and "rmatch r ((n, u @ d # s) # os) ((n, u) # cs) s = Some x"
  shows "rmatch (cap n (plus p) @ lit [d] @ r) os cs (u @ d # s) = Some x"
proof -
  let ?os = "(n, u @ d # s) # os" and ?r = "Shut n # lit [d] @ r"
  have "rmatch (Star p # ?r) ?os cs (tl u @ [d] @ s) = Some x"
  proof (rule rmatch_star_back)
    have stop: "rmatch ?r ?os cs s = None"
      using assms(3-5) by (cases s) (auto simp: lit_def)
    then show "rmatch (Star p # ?r) ?os cs s = None"
      using assms(4,5) by (cases s) auto
    show "rmatch ?r ?os cs ([d] @ s) = Some x"
      using assms(6) captured_simp [of n u "d # s" os] by (simp add: lit_def)
    show "rmatch ?r ?os cs (v2 @ s) = None" if "[d] = v1 @ v2" "v1 \<noteq> []" for v1 v2
      using that stop by (cases v1) auto
  qed (use assms(1-3) in \<open>auto dest: list.set_sel(2)\<close>)
  with assms(1,2) show ?thesis by (cases u) (auto simp: cap_def plus_def)
qed

text \<open>A search skips characters that the first item of the pattern refuses.\<close>

lemma rfind_skip_first:
  "\<forall>c \<in> set u. \<not> p c \<Longrightarrow> rfind (Chr p # r) (u @ s) = rfind (Chr p # r) s"
  by (induction u) simp_all

end
