(* ===== verification/Wg.thy ===== *)
theory Wg
  imports Host Go_Net Go_Regex
begin

text \<open>
  The WireGuard manager, \<open>src/internal/wg/wg.go\<close>: rendering and writing the interface
  configuration, starting and stopping interfaces through \<open>wg-quick\<close>, the parser of
  \<open>wg show all dump\<close>, the scan of the configuration directory for unmanaged peers, and the
  round-trip measurement of a peer.
\<close>

section \<open>Data\<close>

record wg_Manager =
  wgDir :: string
  birdPeerDir :: string
  privateKey :: string
  ourLLA :: string

record wg_PeerConfig =
  wc_ASN :: int
  wc_PrivateKey :: string
  wc_ListenPort :: int
  wc_OurLLA :: string
  wc_RemotePubkey :: string
  wc_RemoteEndpoint :: string
  wc_MTU :: "int option"
  wc_PresharedKey :: "string option"

record InterfaceStats =
  is_Name :: string
  is_RxBytes :: int
  is_TxBytes :: int
  is_LastHandshake :: string
  is_ActualEndpoint :: string

record ScannedPeer =
  sp_InterfaceName :: string
  sp_ASN :: int
  sp_RemotePubkey :: string
  sp_RemoteEndpoint :: string
  sp_ListenPort :: int
  sp_OurLLA :: string

definition wg_NewManager :: "string \<Rightarrow> string \<Rightarrow> string \<Rightarrow> string \<Rightarrow> wg_Manager" where
  "wg_NewManager dir bdir key lla =
     \<lparr>wgDir = dir, birdPeerDir = bdir, privateKey = key, ourLLA = lla\<rparr>"

section \<open>Interfaces\<close>

definition line :: "string list \<Rightarrow> string" where
  "line ws = concat ws @ [lf]"

text \<open>
  The template \<open>wgConfigTmpl\<close>. An \<open>if\<close> action on a pointer field is true when the pointer is not nil,
  whatever it points to, and a field is printed without escaping.
\<close>

definition wg_render :: "wg_PeerConfig \<Rightarrow> string" where
  "wg_render c = concat
     [line [''# AutoPeer ASN: '', itoa (wc_ASN c)],
      line [''[Interface]''],
      line [''PrivateKey = '', wc_PrivateKey c],
      line [''ListenPort = '', itoa (wc_ListenPort c)],
      line [''Address = '', wc_OurLLA c, ''/64''],
      (case wc_MTU c of None \<Rightarrow> [] | Some m \<Rightarrow> line [''MTU = '', itoa m]),
      line [''Table = off''],
      line [],
      line [''[Peer]''],
      line [''PublicKey = '', wc_RemotePubkey c],
      (case wc_PresharedKey c of None \<Rightarrow> [] | Some k \<Rightarrow> line [''PresharedKey = '', k]),
      line [''AllowedIPs = 172.20.0.0/14, fd00::/8, fe80::/10''],
      line [''Endpoint = '', wc_RemoteEndpoint c],
      line [''PersistentKeepalive = 25'']]"

definition InterfaceName :: "int \<Rightarrow> string" where
  "InterfaceName asn = ''dn42'' @ itoa asn"

definition wg_conf :: "wg_Manager \<Rightarrow> string \<Rightarrow> string" where
  "wg_conf m ifName = path_join (wgDir m) (ifName @ ''.conf'')"

definition AddPeerWithIface ::
    "os \<Rightarrow> wg_Manager \<Rightarrow> string \<Rightarrow> int \<Rightarrow> int \<Rightarrow> string \<Rightarrow> string \<Rightarrow> int option \<Rightarrow> string option
      \<Rightarrow> host \<Rightarrow> unit res \<times> host" where
  "AddPeerWithIface Os m ifName asn listenPort remotePubkey remoteEndpoint mtu psk h =
     (if asn \<le> 0 \<or> remotePubkey = [] \<or> remoteEndpoint = [] then
        (Inl (''invalid peer config: asn='' @ itoa asn @ '' pubkey='' @ go_quote remotePubkey @
              '' endpoint='' @ go_quote remoteEndpoint), h)
      else
        let configPath = wg_conf m ifName;
            cfg = \<lparr>wc_ASN = asn, wc_PrivateKey = privateKey m, wc_ListenPort = listenPort,
                   wc_OurLLA = ourLLA m, wc_RemotePubkey = remotePubkey,
                   wc_RemoteEndpoint = remoteEndpoint, wc_MTU = mtu, wc_PresharedKey = psk\<rparr>
        in case os_open_trunc Os configPath perm_0600 h of
             (Inl e, h) \<Rightarrow> (Inl (''create wg config: '' @ e), h)
           | (Inr f, h) \<Rightarrow>
               (case os_write Os f (wg_render cfg) h of
                  (Inl e, h) \<Rightarrow> (Inl (''write wg config: '' @ e), h)
                | (Inr _, h) \<Rightarrow>
                    (case run_cmd Os [''wg-quick'', ''up'', ifName] h of (r, h) \<Rightarrow>
                       (case cmd_err r of
                          Some e \<Rightarrow>
                            (Inl (''wg-quick up '' @ ifName @ '': '' @ combined r @ '': '' @ e), h)
                        | None \<Rightarrow> (Inr (), h)))))"

definition wg_AddPeer ::
    "os \<Rightarrow> wg_Manager \<Rightarrow> int \<Rightarrow> int \<Rightarrow> string \<Rightarrow> string \<Rightarrow> int option \<Rightarrow> string option
      \<Rightarrow> host \<Rightarrow> unit res \<times> host" where
  "wg_AddPeer Os m asn listenPort remotePubkey remoteEndpoint mtu psk =
     AddPeerWithIface Os m (InterfaceName asn) asn listenPort remotePubkey remoteEndpoint mtu psk"

text \<open>The removal of the file is deferred: it runs after \<open>wg-quick down\<close>, whatever that returns.\<close>

definition RemovePeerByIface :: "os \<Rightarrow> wg_Manager \<Rightarrow> string \<Rightarrow> host \<Rightarrow> unit res \<times> host" where
  "RemovePeerByIface Os m ifName h =
     (case run_cmd Os [''wg-quick'', ''down'', ifName] h of (_, h) \<Rightarrow>
        (Inr (), snd (os_remove Os (wg_conf m ifName) h)))"

definition wg_RemovePeer :: "os \<Rightarrow> wg_Manager \<Rightarrow> int \<Rightarrow> host \<Rightarrow> unit res \<times> host" where
  "wg_RemovePeer Os m asn = RemovePeerByIface Os m (InterfaceName asn)"

definition IsPeerUp :: "os \<Rightarrow> string \<Rightarrow> host \<Rightarrow> bool \<times> host" where
  "IsPeerUp Os ifName h =
     (case run_cmd Os [''wg'', ''show'', ifName] h of (r, h) \<Rightarrow> (cmd_err r = None, h))"

section \<open>Statistics\<close>

text \<open>
  One line of \<open>wg show all dump\<close>: a line of five fields names the interface that the following
  lines belong to, a line of nine or more fields is a peer of it. The number is taken as
  \<open>strconv.ParseInt\<close> returns it even when it also returns an error, which is only logged.
\<close>

definition stats_line :: "string \<Rightarrow> string \<times> InterfaceStats list \<Rightarrow> string \<times> InterfaceStats list" where
  "stats_line l st =
     (let (currentIf, stats) = st; fs = split_on tab l in
      if length fs < 2 then st
      else if length fs = 5 then (fs ! 0, stats)
      else if 9 \<le> length fs \<and> currentIf \<noteq> [] then
        (currentIf, stats @
           [\<lparr>is_Name = currentIf,
             is_RxBytes = fst (parse_int64 (fs ! 6)),
             is_TxBytes = fst (parse_int64 (fs ! 7)),
             is_LastHandshake = fs ! 5,
             is_ActualEndpoint = (if 3 < length fs then fs ! 3 else [])\<rparr>])
      else st)"

definition parse_stats :: "string \<Rightarrow> InterfaceStats list" where
  "parse_stats out = snd (fold stats_line (scan_lines out) ([], []))"

definition GetStats :: "os \<Rightarrow> host \<Rightarrow> InterfaceStats list res \<times> host" where
  "GetStats Os h =
     (case run_cmd Os [''wg'', ''show'', ''all'', ''dump''] h of (r, h) \<Rightarrow>
        (case cmd_err r of
           Some e \<Rightarrow> (Inl (''wg show: '' @ e), h)
         | None \<Rightarrow> (Inr (parse_stats (stdout r)), h)))"

section \<open>Scanning\<close>

definition extractASNFromIface :: "string \<Rightarrow> int \<times> bool" where
  "extractASNFromIface name =
     (case rfind (cap 0 (plus is_digit)) name of
        None \<Rightarrow> (0, False)
      | Some (g, _) \<Rightarrow>
          (case parse_int64 (group g 0) of
             (n, None) \<Rightarrow> (n, True)
           | (_, Some _) \<Rightarrow> (0, False)))"

definition asn_comment_re :: "rx list" where
  "asn_comment_re = lit ''# AutoPeer ASN: '' @ cap 1 (plus is_digit)"

definition readASNFromWGConfig :: "os \<Rightarrow> wg_Manager \<Rightarrow> string \<Rightarrow> host \<Rightarrow> int res \<times> host" where
  "readASNFromWGConfig Os m ifName h =
     (let confPath = wg_conf m ifName in
      case os_read_file Os confPath h of
        (Inl e, h) \<Rightarrow> (Inl (os_err_text e), h)
      | (Inr data, h) \<Rightarrow>
          (case rfind asn_comment_re data of
             None \<Rightarrow> (Inl (''no ASN comment in '' @ confPath), h)
           | Some (g, _) \<Rightarrow>
               (case parse_int64 (group g 1) of
                  (n, None) \<Rightarrow> (Inr n, h)
                | (_, Some _) \<Rightarrow> (Inl (''strconv.ParseInt: parsing '' @ go_quote (group g 1) @ '': value out of range''), h))))"

text \<open>
  A line of \<open>wg show <interface> dump\<close>, with the public key, endpoint and port seen so far: the
  interface line of it has four fields, a peer line eight. The conversion of the port drops the
  error and keeps the value.
\<close>

definition dump_line :: "string \<Rightarrow> string \<times> string \<times> int \<Rightarrow> string \<times> string \<times> int" where
  "dump_line l st =
     (let (pubkey, endpoint, port) = st; fs = split_on tab l in
      if length fs < 2 then st
      else if length fs = 4 then (pubkey, endpoint, fst (parse_int64 (fs ! 2)))
      else if 8 \<le> length fs then (fs ! 0, fs ! 2, port)
      else st)"

definition parse_dump :: "string \<Rightarrow> string \<times> string \<times> int" where
  "parse_dump out = fold dump_line (scan_lines out) ([], [], 0)"

definition wg_scan_entry ::
    "os \<Rightarrow> wg_Manager \<Rightarrow> string \<times> bool \<Rightarrow> host \<Rightarrow> ScannedPeer option \<times> host" where
  "wg_scan_entry Os m entry h =
     (let (name, isDir) = entry in
      if isDir \<or> \<not> has_suffix ''.conf'' name then (None, h)
      else
        let ifName = trim_suffix ''.conf'' name;
            (asn, h) = (case extractASNFromIface ifName of
                (n, True) \<Rightarrow> (Some n, h)
              | (_, False) \<Rightarrow>
                  (case readASNFromWGConfig Os m ifName h of
                     (Inr n, h) \<Rightarrow> (Some n, h)
                   | (Inl _, h) \<Rightarrow> (None, h)))
        in case asn of
             None \<Rightarrow> (None, h)
           | Some asn \<Rightarrow>
               (case run_cmd Os [''wg'', ''show'', ifName, ''dump''] h of (r, h) \<Rightarrow>
                  (case cmd_err r of
                     Some _ \<Rightarrow> (None, h)
                   | None \<Rightarrow>
                       let (pubkey, endpoint, port) = parse_dump (stdout r) in
                       if pubkey = [] then (None, h)
                       else (Some \<lparr>sp_InterfaceName = ifName, sp_ASN = asn,
                                   sp_RemotePubkey = pubkey, sp_RemoteEndpoint = endpoint,
                                   sp_ListenPort = port, sp_OurLLA = ourLLA m\<rparr>, h))))"

fun wg_scan_entries ::
    "os \<Rightarrow> wg_Manager \<Rightarrow> (string \<times> bool) list \<Rightarrow> host \<Rightarrow> ScannedPeer list \<times> host" where
  "wg_scan_entries Os m [] h = ([], h)"
| "wg_scan_entries Os m (e # es) h =
     (case wg_scan_entry Os m e h of (p, h) \<Rightarrow>
        (case wg_scan_entries Os m es h of (ps, h) \<Rightarrow>
           ((case p of None \<Rightarrow> ps | Some p \<Rightarrow> p # ps), h)))"

definition wg_ScanPeers :: "os \<Rightarrow> wg_Manager \<Rightarrow> host \<Rightarrow> ScannedPeer list res \<times> host" where
  "wg_ScanPeers Os m h =
     (case os_read_dir Os (wgDir m) h of
        (Inl e, h) \<Rightarrow> (Inl (''read wg dir: '' @ e), h)
      | (Inr entries, h) \<Rightarrow>
          (case wg_scan_entries Os m entries h of (ps, h) \<Rightarrow> (Inr ps, h)))"

section \<open>Round-trip time\<close>

definition rttRe :: "rx list" where
  "rttRe =
     [Alt (lit ''time'') (lit ''rtt''), Chr (\<lambda>c. c = CHR ''='' \<or> c = CHR ''<'')] @
     cap 1 (plus rx_number) @ [Star rx_space] @ lit ''ms''"

definition pingable :: "string \<Rightarrow> bool" where
  "pingable lla =
     (case parse_ip lla of
        None \<Rightarrow> False
      | Some a \<Rightarrow>
          (is_link_local_unicast a \<or> is_global_unicast a) \<and>
          \<not> (is_loopback a \<or> is_multicast a \<or> is_unspecified a))"

definition PingPeer :: "os \<Rightarrow> string \<Rightarrow> string \<Rightarrow> host \<Rightarrow> gofloat \<times> host" where
  "PingPeer Os remoteLLA ifName h =
     (if \<not> pingable remoteLLA then (FMinusOne, h)
      else
        case run_cmd Os [''ping'', ''-6'', ''-c'', ''1'', ''-W'', ''3'', ''-I'', ifName, remoteLLA] h of
          (r, h) \<Rightarrow>
            (case cmd_err r of
               Some _ \<Rightarrow> (FMinusOne, h)
             | None \<Rightarrow>
                 (case rfind rttRe (combined r) of
                    None \<Rightarrow> (FMinusOne, h)
                  | Some (g, _) \<Rightarrow>
                      (case parse_float (group g 1) of
                         (f, None) \<Rightarrow> (f, h)
                       | (_, Some _) \<Rightarrow> (FMinusOne, h)))))"

section \<open>Contract of the interface operations\<close>

text \<open>
  What starting and stopping an interface does to the machine. Both touch no file but the
  configuration of that interface and no other interface.
\<close>

lemma AddPeerWithIface_run:
  assumes tools: "wg_tools Os" "wg_iface i"
    and run: "AddPeerWithIface Os m i asn port pub ep mtu psk h = (r, h')"
  defines "cfg \<equiv> \<lparr>wc_ASN = asn, wc_PrivateKey = privateKey m, wc_ListenPort = port,
         wc_OurLLA = ourLLA m, wc_RemotePubkey = pub, wc_RemoteEndpoint = ep, wc_MTU = mtu,
         wc_PresharedKey = psk\<rparr>"
  shows "outside {wg_conf m i} h h'" "loaded h' = loaded h"
    "set (ifaces h') = (if is_ok r then insert i (set (ifaces h)) else set (ifaces h))"
    "is_ok r \<Longrightarrow> 0 < asn \<and> pub \<noteq> [] \<and> ep \<noteq> []"
    "is_ok r \<Longrightarrow> \<exists>f. fs_read h' (wg_conf m i) = Some f \<and> content f = wg_render cfg \<and>
       mode f = (case fs_read h (wg_conf m i) of None \<Rightarrow> perm_0600 | Some g \<Rightarrow> mode g)"
proof -
  let ?p = "wg_conf m i"
  consider (guard) e where "r = Inl e" "h' = h"
    | (nocreate) e e' where "r = Inl e" "os_open_trunc Os ?p perm_0600 h = (Inl e', h')"
    | (nowrite) f h1 e e' where "os_open_trunc Os ?p perm_0600 h = (Inr f, h1)"
        "os_write Os f (wg_render cfg) h1 = (Inl e', h')" "r = Inl e"
    | (ran) f h1 u h2 q where "0 < asn" "pub \<noteq> []" "ep \<noteq> []"
        "os_open_trunc Os ?p perm_0600 h = (Inr f, h1)"
        "os_write Os f (wg_render cfg) h1 = (Inr u, h2)"
        "run_cmd Os [''wg-quick'', ''up'', i] h2 = (q, h')" "is_ok r \<longleftrightarrow> cmd_err q = None"
    using run unfolding AddPeerWithIface_def Let_def cfg_def
    by (auto split: if_splits prod.splits sum.splits option.splits)
  then have "outside {?p} h h' \<and> loaded h' = loaded h \<and>
    set (ifaces h') = (if is_ok r then insert i (set (ifaces h)) else set (ifaces h)) \<and>
    (is_ok r \<longrightarrow> (0 < asn \<and> pub \<noteq> [] \<and> ep \<noteq> []) \<and>
       (\<exists>f. fs_read h' ?p = Some f \<and> content f = wg_render cfg \<and>
        mode f = (case fs_read h ?p of None \<Rightarrow> perm_0600 | Some g \<Rightarrow> mode g)))"
  proof cases
    case guard
    then show ?thesis by simp
  next
    case nocreate
    with os_open_trunc_frame [OF nocreate(2)] show ?thesis by simp
  next
    case nowrite
    with open_write [OF nowrite(1,2)] show ?thesis by simp
  next
    case ran
    note w = open_write [OF ran(4,5)] and x = wg_up_run [OF tools ran(6)]
    have "outside {?p} h h'" using w(1) x(4) by (rule outside_trans)
    with ran(1-3,7) w(2,3) w(5) [OF refl] x(1,2) x(3) [of ?p] show ?thesis by simp
  qed
  then show "outside {wg_conf m i} h h'" "loaded h' = loaded h"
    "set (ifaces h') = (if is_ok r then insert i (set (ifaces h)) else set (ifaces h))"
    "is_ok r \<Longrightarrow> 0 < asn \<and> pub \<noteq> [] \<and> ep \<noteq> []"
    "is_ok r \<Longrightarrow> \<exists>f. fs_read h' (wg_conf m i) = Some f \<and> content f = wg_render cfg \<and>
       mode f = (case fs_read h (wg_conf m i) of None \<Rightarrow> perm_0600 | Some g \<Rightarrow> mode g)"
    by simp_all
qed

lemma RemovePeerByIface_run:
  assumes tools: "wg_tools Os" "wg_iface i" and run: "RemovePeerByIface Os m i h = (r, h')"
  shows "r = Inr ()" "outside {wg_conf m i} h h'" "loaded h' = loaded h"
    "set (ifaces h') =
       (if cmd_err (fst (exec Os [''wg-quick'', ''down'', i] h)) = None then set (ifaces h) - {i}
        else set (ifaces h))"
    "fs_read h' (wg_conf m i) = None \<or> fs_read h' (wg_conf m i) = fs_read h (wg_conf m i)"
    "\<forall>h. fault Os (Remove (wg_conf m i)) h = None \<Longrightarrow> fs_read h' (wg_conf m i) = None"
proof -
  obtain q h1 where q: "run_cmd Os [''wg-quick'', ''down'', i] h = (q, h1)" by fastforce
  obtain d where d: "os_remove Os (wg_conf m i) h1 = (d, h')"
    using run q by (auto simp: RemovePeerByIface_def split: prod.splits) (metis prod.collapse)
  note x = wg_down_run [OF tools q] and y = os_remove_frame [OF d]
  show "r = Inr ()" using run q by (simp add: RemovePeerByIface_def)
  show "outside {wg_conf m i} h h'" using x(4) y(1) by (rule outside_trans)
  show "loaded h' = loaded h" using x(1) y(3) by simp
  have "q = fst (exec Os [''wg-quick'', ''down'', i] h)" using q by (rule run_cmd_fst)
  then show "set (ifaces h') =
      (if cmd_err (fst (exec Os [''wg-quick'', ''down'', i] h)) = None then set (ifaces h) - {i} else set (ifaces h))"
    using x(2) y(2) by simp
  show "fs_read h' (wg_conf m i) = None \<or> fs_read h' (wg_conf m i) = fs_read h (wg_conf m i)"
    using x(3) y(7) by auto
  show "\<forall>h. fault Os (Remove (wg_conf m i)) h = None \<Longrightarrow> fs_read h' (wg_conf m i) = None"
    using y(5) by simp
qed

lemma IsPeerUp_run:
  assumes "wg_tools Os" "wg_iface i" "IsPeerUp Os i h = (b, h')"
  shows "b \<longleftrightarrow> i \<in> set (ifaces h)" "outside A h h'" "ifaces h' = ifaces h" "loaded h' = loaded h"
proof -
  obtain q h1 where q: "run_cmd Os [''wg'', ''show'', i] h = (q, h1)" by fastforce
  with assms(3) have "b = (cmd_err q = None)" "h' = h1" by (auto simp: IsPeerUp_def)
  with wg_show_run [OF assms(1,2) q]
  show "b \<longleftrightarrow> i \<in> set (ifaces h)" "outside A h h'" "ifaces h' = ifaces h" "loaded h' = loaded h"
    by simp_all
qed

section \<open>The documented format of the statistics\<close>

text \<open>
  \<open>wg show all dump\<close> prints, for each interface, a line of five tab-separated values (interface,
  private key, public key, port, mark) and then for each of its peers a line of nine (interface,
  public key, preshared key, endpoint, allowed addresses, last handshake, bytes received, bytes
  sent, keepalive).
\<close>

record dump_peer =
  dp_head :: "string \<times> string"
  dp_endpoint :: string
  dp_ips :: string
  dp_handshake :: string
  dp_rx :: int
  dp_tx :: int
  dp_keepalive :: string

type_synonym dump_iface = "string \<times> string list \<times> dump_peer list"

definition iface_line :: "dump_iface \<Rightarrow> string" where
  "iface_line d = join_with [tab] (fst d # fst (snd d))"

definition peer_line :: "string \<Rightarrow> dump_peer \<Rightarrow> string" where
  "peer_line i p = join_with [tab]
     [i, fst (dp_head p), snd (dp_head p), dp_endpoint p, dp_ips p, dp_handshake p,
      itoa (dp_rx p), itoa (dp_tx p), dp_keepalive p]"

definition dump_lines :: "dump_iface list \<Rightarrow> string list" where
  "dump_lines ds = concat (map (\<lambda>d. iface_line d # map (peer_line (fst d)) (snd (snd d))) ds)"

definition dump_text :: "dump_iface list \<Rightarrow> string" where
  "dump_text ds = concat (map (\<lambda>l. l @ [lf]) (dump_lines ds))"

definition dump_stats :: "dump_iface list \<Rightarrow> InterfaceStats list" where
  "dump_stats ds = concat (map (\<lambda>d. map (\<lambda>p.
     \<lparr>is_Name = fst d, is_RxBytes = dp_rx p, is_TxBytes = dp_tx p,
      is_LastHandshake = dp_handshake p, is_ActualEndpoint = dp_endpoint p\<rparr>) (snd (snd d))) ds)"

definition no_tab :: "string \<Rightarrow> bool" where
  "no_tab f \<longleftrightarrow> tab \<notin> set f"

definition dump_peer_ok :: "dump_peer \<Rightarrow> bool" where
  "dump_peer_ok p \<longleftrightarrow>
     no_tab (fst (dp_head p)) \<and> no_tab (snd (dp_head p)) \<and> no_tab (dp_endpoint p) \<and>
     no_tab (dp_ips p) \<and> no_tab (dp_handshake p) \<and> no_tab (dp_keepalive p) \<and>
     int64_range (dp_rx p) \<and> int64_range (dp_tx p)"

definition dump_ok :: "dump_iface \<Rightarrow> bool" where
  "dump_ok d \<longleftrightarrow>
     fst d \<noteq> [] \<and> no_tab (fst d) \<and> length (fst (snd d)) = 4 \<and>
     list_all no_tab (fst (snd d)) \<and> list_all dump_peer_ok (snd (snd d))"

lemma no_tab_itoa: "no_tab (itoa n)"
  by (auto simp: no_tab_def is_digit_def dest: itoa_chars)

lemma stats_iface_line: "dump_ok d \<Longrightarrow> stats_line (iface_line d) (c, ss) = (fst d, ss)"
  by (simp add: stats_line_def iface_line_def split_on_join dump_ok_def no_tab_def list_all_iff)

lemma stats_peer_line:
  assumes "dump_peer_ok p" "no_tab i" "i \<noteq> []"
  shows "stats_line (peer_line i p) (i, ss) = (i, ss @
    [\<lparr>is_Name = i, is_RxBytes = dp_rx p, is_TxBytes = dp_tx p,
      is_LastHandshake = dp_handshake p, is_ActualEndpoint = dp_endpoint p\<rparr>])"
proof -
  have "split_on tab (peer_line i p) =
     [i, fst (dp_head p), snd (dp_head p), dp_endpoint p, dp_ips p, dp_handshake p,
      itoa (dp_rx p), itoa (dp_tx p), dp_keepalive p]"
    unfolding peer_line_def using assms no_tab_itoa
    by (intro split_on_join) (auto simp: dump_peer_ok_def no_tab_def)
  with assms show ?thesis by (simp add: stats_line_def dump_peer_ok_def parse_int64_itoa)
qed

lemma stats_peer_lines:
  assumes "list_all dump_peer_ok ps" "no_tab i" "i \<noteq> []"
  shows "fold stats_line (map (peer_line i) ps) (i, ss) = (i, ss @ map (\<lambda>p.
     \<lparr>is_Name = i, is_RxBytes = dp_rx p, is_TxBytes = dp_tx p,
      is_LastHandshake = dp_handshake p, is_ActualEndpoint = dp_endpoint p\<rparr>) ps)"
  using assms by (induction ps arbitrary: ss) (simp_all add: stats_peer_line)

lemma stats_dump_lines:
  "list_all dump_ok ds \<Longrightarrow>
     snd (fold stats_line (dump_lines ds) (c, ss)) = ss @ dump_stats ds"
  by (induction ds arbitrary: c ss)
    (simp_all add: dump_lines_def dump_stats_def stats_iface_line stats_peer_lines dump_ok_def)

section \<open>Properties\<close>

lemma asn_comment_found:
  assumes "0 \<le> n" "s = [] \<or> \<not> is_digit (hd s)"
  shows "\<exists>t. rfind asn_comment_re (''# AutoPeer ASN: '' @ itoa n @ s) = Some ([(1, itoa n)], t)"
proof -
  have "rmatch (plus is_digit @ [Shut 1]) [(1, itoa n @ s)] [] (itoa n @ s) = Some ([(1, itoa n)], s)"
    using assms by (intro plus_stop) (auto intro: itoa_nonneg_digits)
  then have "rmatch asn_comment_re [] [] (''# AutoPeer ASN: '' @ itoa n @ s) = Some ([(1, itoa n)], s)"
    unfolding asn_comment_re_def by (subst rmatch_lit) (simp add: cap_def)
  then show ?thesis by (intro exI rfind_here)
qed

text \<open>
  A successful \<open>AddPeerWithIface\<close> leaves the interface up and its file with exactly the
  rendered configuration, with mode 0600 when the file is new; it happens only for a positive AS
  number and a non-empty key and endpoint, and no other file, interface or BIRD state changes.
\<close>

lemma wg_add_peer:
  assumes "wg_tools Os" "wg_iface i"
    and "AddPeerWithIface Os m i asn port pub ep mtu psk h = (Inr (), h')"
  shows "0 < asn \<and> pub \<noteq> [] \<and> ep \<noteq> [] \<and> set (ifaces h') = insert i (set (ifaces h)) \<and>
    outside {wg_conf m i} h h' \<and> loaded h' = loaded h \<and>
    (\<exists>f. fs_read h' (wg_conf m i) = Some f \<and>
       content f = wg_render \<lparr>wc_ASN = asn, wc_PrivateKey = privateKey m, wc_ListenPort = port,
         wc_OurLLA = ourLLA m, wc_RemotePubkey = pub, wc_RemoteEndpoint = ep, wc_MTU = mtu,
         wc_PresharedKey = psk\<rparr> \<and>
       (fs_read h (wg_conf m i) = None \<longrightarrow> mode f = perm_0600))"
  using AddPeerWithIface_run [OF assms] by auto

definition demo_wg :: wg_Manager where
  "demo_wg = wg_NewManager ''/etc/wireguard'' ''/etc/bird/peers'' ''KEY'' ''fe80::1''"

definition demo_add :: "os \<Rightarrow> unit res \<times> host" where
  "demo_add Os =
     wg_AddPeer Os demo_wg 4242420001 51820 ''PUB'' ''host:51820'' (Some 1420) None empty_host"

lemma wg_iface_InterfaceName: "wg_iface (InterfaceName asn)"
  by (auto simp: wg_iface_def InterfaceName_def has_prefix_def is_digit_def dest: itoa_chars)

lemma demo_add_ok: "fst (demo_add (sim_os (\<lambda>_. False) (\<lambda>_. []))) = Inr ()"
  by (simp add: demo_add_def wg_AddPeer_def AddPeerWithIface_def Let_def os_open_trunc_def
      os_write_def run_cmd_def sim_os_def sim_exec_def cmd_result_def empty_host_def
      split: option.splits)

text \<open>
  C30: the AS number comment that \<open>AddPeerWithIface\<close> writes is what \<open>readASNFromWGConfig\<close> reads
  back, for every AS number an \<open>int64\<close> can hold.
\<close>

theorem wg_asn_comment_roundtrip:
  assumes "wg_tools Os" "wg_iface i" "int64_range asn"
    and add: "AddPeerWithIface Os m i asn port pub ep mtu psk h = (Inr (), h')"
    and "fault Os (OpenRead (wg_conf m i)) h' = None"
  shows "fst (readASNFromWGConfig Os m i h') = Inr asn"
proof -
  note r = AddPeerWithIface_run [OF assms(1,2) add]
  obtain f where f: "fs_read h' (wg_conf m i) = Some f"
    "\<exists>s. content f = ''# AutoPeer ASN: '' @ itoa asn @ lf # s"
    using r(5) by (auto simp: wg_render_def line_def)
  then obtain s where s: "content f = ''# AutoPeer ASN: '' @ itoa asn @ lf # s" by blast
  obtain t where "rfind asn_comment_re (content f) = Some ([(1, itoa asn)], t)"
    using asn_comment_found [of asn "lf # s"] r(4) unfolding s by (auto simp: is_digit_def)
  with f(1) assms(3,5) show ?thesis
    by (simp add: readASNFromWGConfig_def Let_def os_read_file_def group_def parse_int64_itoa)
qed

lemma wg_asn_comment_roundtrip_witness:
  "fst (readASNFromWGConfig (sim_os (\<lambda>_. False) (\<lambda>_. [])) demo_wg (InterfaceName 4242420001)
     (snd (demo_add (sim_os (\<lambda>_. False) (\<lambda>_. []))))) = Inr 4242420001"
proof (rule wg_asn_comment_roundtrip [OF sim_wg_tools wg_iface_InterfaceName])
  let ?Os = "sim_os (\<lambda>_. False) (\<lambda>_. [])"
  show "AddPeerWithIface ?Os demo_wg (InterfaceName 4242420001) 4242420001 51820 ''PUB''
      ''host:51820'' (Some 1420) None empty_host = (Inr (), snd (demo_add ?Os))"
    using demo_add_ok by (simp add: demo_add_def wg_AddPeer_def prod_eq_iff)
qed (simp_all add: int64_range_def sim_os_def)

lemma parse_dump_text:
  assumes "list_all dump_ok ds" "list_all clean_line (dump_lines ds)"
  shows "parse_stats (dump_text ds) = dump_stats ds"
proof -
  have "scan_lines (dump_text ds) = dump_lines ds"
    unfolding dump_text_def using assms(2) by (intro scan_lines_text) (simp add: list_all_iff)
  with assms(1) show ?thesis by (simp add: parse_stats_def stats_dump_lines)
qed

text \<open>
  C31: on output in the documented format of \<open>wg show all dump\<close>, \<open>GetStats\<close> returns one entry per
  peer, in order, with the interface it belongs to and its counters, handshake and endpoint.
\<close>

theorem get_stats_dump:
  assumes "list_all dump_ok ds" "list_all clean_line (dump_lines ds)"
    and "run_cmd Os [''wg'', ''show'', ''all'', ''dump''] h = (r, h')"
    and "cmd_err r = None" "stdout r = dump_text ds"
  shows "GetStats Os h = (Inr (dump_stats ds), h')"
  using assms by (simp add: GetStats_def parse_dump_text)

definition demo_dump :: "dump_iface list" where
  "demo_dump = [(''dn421'', [''k'', ''p'', ''51820'', ''off''],
     [\<lparr>dp_head = (''pub'', ''(none)''), dp_endpoint = ''[2001:db8::1]:51820'', dp_ips = ''fe80::/10'',
       dp_handshake = ''1700000000'', dp_rx = 1234, dp_tx = 5678, dp_keepalive = ''25''\<rparr>])]"

lemma get_stats_dump_witness:
  "fst (GetStats (sim_os (\<lambda>_. False) (\<lambda>_. dump_text demo_dump)) empty_host) =
     Inr [\<lparr>is_Name = ''dn421'', is_RxBytes = 1234, is_TxBytes = 5678,
       is_LastHandshake = ''1700000000'', is_ActualEndpoint = ''[2001:db8::1]:51820''\<rparr>]"
proof -
  have "GetStats (sim_os (\<lambda>_. False) (\<lambda>_. dump_text demo_dump)) empty_host =
    (Inr (dump_stats demo_dump), tock empty_host)"
  proof (rule get_stats_dump)
    show "list_all dump_ok demo_dump"
      by (simp add: demo_dump_def dump_ok_def dump_peer_ok_def no_tab_def int64_range_def)
    show "list_all clean_line (dump_lines demo_dump)"
      by (simp add: demo_dump_def dump_lines_def iface_line_def peer_line_def clean_line_def
          max_scan_token_def itoa_def nat_str.simps digit_char_def char_of_def)
    show "run_cmd (sim_os (\<lambda>_. False) (\<lambda>_. dump_text demo_dump))
      [''wg'', ''show'', ''all'', ''dump''] empty_host =
      (cmd_result (dump_text demo_dump) True, tock empty_host)"
      by (simp add: run_cmd_def sim_os_def sim_exec_def)
  qed (simp_all add: cmd_result_def)
  then show ?thesis by (simp add: dump_stats_def demo_dump_def)
qed

text \<open>
  C40: for an interface that the agent names itself, the AS number that the scan takes from the name is
  not the peer's: the digits of the prefix \<open>dn42\<close> are read with it.
\<close>

theorem extract_asn_misreads_own_names:
  assumes "0 \<le> asn" "asn < 10 ^ 16"
  shows "extractASNFromIface (InterfaceName asn) =
      (42 * 10 ^ length (itoa asn) + asn, True) \<and> fst (extractASNFromIface (InterfaceName asn)) \<noteq> asn"
proof -
  let ?d = "''42'' @ itoa asn"
  have dig: "\<forall>c \<in> set ?d. is_digit c"
    using itoa_nonneg_digits [OF assms(1)] by (auto simp: is_digit_def)
  have "rmatch (plus is_digit @ [Shut 0]) [(0, ?d @ [])] [] (?d @ []) = Some ([(0, ?d)], [])"
    using dig by (intro plus_stop) simp_all
  then have "rmatch (cap 0 (plus is_digit)) [] [] ?d = Some ([(0, ?d)], [])"
    by (simp add: cap_def)
  then have found: "rfind (cap 0 (plus is_digit)) (''dn'' @ ?d) = Some ([(0, ?d)], [])"
    using rfind_here by (simp add: cap_def plus_def is_digit_def)
  have "length (itoa asn) \<le> 16"
    using nat_str_length [of "nat asn" 16] assms by (simp add: itoa_def nat_less_iff)
  then have "(10::nat) ^ length (itoa asn) \<le> 10 ^ 16" by (intro power_increasing) simp_all
  moreover have val: "digits_val ?d = 42 * 10 ^ length (itoa asn) + nat asn"
    using assms(1) unfolding digits_val_append
    by (simp add: itoa_def digits_val_def [of "''42''"] digit_val_def)
  moreover have "nat asn < 10 ^ 16" using assms by (simp add: nat_less_iff)
  ultimately have "digits_val ?d < 2 ^ 63" by simp
  then have "parse_int64 ?d = (42 * 10 ^ length (itoa asn) + asn, None)"
    using parse_int64_digits [OF _ dig] assms(1) unfolding val by simp
  with found have "extractASNFromIface (InterfaceName asn) = (42 * 10 ^ length (itoa asn) + asn, True)"
    by (simp add: extractASNFromIface_def InterfaceName_def group_def)
  then show ?thesis by simp
qed

lemma extract_asn_misreads_own_names_witness:
  "fst (extractASNFromIface (InterfaceName 4242420001)) = 424242420001"
  using extract_asn_misreads_own_names [of 4242420001]
  by (simp add: itoa_def nat_str.simps)

end
