(* ===== verification/Bird.thy ===== *)
theory Bird
  imports Host Go_Regex
begin

text \<open>
  The BIRD manager, \<open>src/internal/bird/bird.go\<close>: rendering and installing the configuration of a
  BGP session, removing it, reloading BIRD, enabling and disabling a protocol, the parsers of
  \<open>birdc show protocols\<close> (with and without \<open>all\<close>), route queries, and the scan of the peer
  directory. The mutex of the manager makes each operation atomic; a command that runs into its
  timeout is one that fails.
\<close>

section \<open>Data\<close>

record bird_Manager =
  peerDir :: string
  birdcPath :: string

record bird_PeerConfig =
  bc_ASN :: int
  bc_ASNSuffix :: string
  bc_RemoteLLA :: string
  bc_WgInterface :: string

record PeerState =
  ps_Name :: string
  ps_State :: string

record PeerDetail =
  pd_Name :: string
  pd_State :: string
  pd_RoutesImported :: int
  pd_RoutesExported :: int
  pd_RoutesPreferred :: int
  pd_BGPUptimeSecs :: int

record ScannedBGP =
  sb_Name :: string
  sb_ProtoName :: string
  sb_Filename :: string
  sb_ASN :: int
  sb_RemoteLLA :: string
  sb_WgInterface :: string

definition bird_NewManager :: "string \<Rightarrow> string \<Rightarrow> bird_Manager" where
  "bird_NewManager dir birdc = \<lparr>peerDir = dir, birdcPath = birdc\<rparr>"

section \<open>Installing and removing a session\<close>

definition bird_render :: "bird_PeerConfig \<Rightarrow> string" where
  "bird_render c = concat
     [''protocol bgp dn42_'', bc_ASNSuffix c, '' from dnpeers {'', [lf],
      ''    neighbor '', bc_RemoteLLA c, '' % '', [CHR 0x27], bc_WgInterface c, [CHR 0x27],
      '' as '', itoa (bc_ASN c), '';'', [lf],
      ''}'', [lf]]"

definition bird_filename :: "int \<Rightarrow> string" where
  "bird_filename asn = ''dn42_'' @ itoa asn @ ''.conf''"

definition bird_conf :: "bird_Manager \<Rightarrow> int \<Rightarrow> string" where
  "bird_conf m asn = path_join (peerDir m) (bird_filename asn)"

definition reloadLocked :: "os \<Rightarrow> bird_Manager \<Rightarrow> host \<Rightarrow> unit res \<times> host" where
  "reloadLocked Os m h =
     (case run_cmd Os [birdcPath m, ''configure''] h of (r, h) \<Rightarrow>
        (case cmd_err r of
           Some e \<Rightarrow> (Inl (''birdc configure: '' @ combined r @ '': '' @ e), h)
         | None \<Rightarrow> (Inr (), h)))"

definition bird_AddPeer ::
    "os \<Rightarrow> bird_Manager \<Rightarrow> int \<Rightarrow> string \<Rightarrow> string \<Rightarrow> host \<Rightarrow> unit res \<times> host" where
  "bird_AddPeer Os m asn remoteLLA wgInterface h =
     (let configPath = bird_conf m asn;
          cfg = \<lparr>bc_ASN = asn, bc_ASNSuffix = itoa asn, bc_RemoteLLA = remoteLLA,
                 bc_WgInterface = wgInterface\<rparr>
      in case os_open_trunc Os configPath perm_0644 h of
           (Inl e, h) \<Rightarrow> (Inl (''create bird config: '' @ e), h)
         | (Inr f, h) \<Rightarrow>
             (case os_write Os f (bird_render cfg) h of
                (Inl e, h) \<Rightarrow> (Inl (''write bird config: '' @ e), h)
              | (Inr _, h) \<Rightarrow>
                  (case run_cmd Os [birdcPath m, ''configure'', ''check''] h of (r, h) \<Rightarrow>
                     (case cmd_err r of
                        Some _ \<Rightarrow>
                          (Inl (''bird config check failed: '' @ combined r),
                           snd (os_remove Os configPath h))
                      | None \<Rightarrow> reloadLocked Os m h))))"

definition RemovePeerByFilename ::
    "os \<Rightarrow> bird_Manager \<Rightarrow> string \<Rightarrow> host \<Rightarrow> unit res \<times> host" where
  "RemovePeerByFilename Os m filename h =
     reloadLocked Os m (snd (os_remove Os (path_join (peerDir m) filename) h))"

definition bird_RemovePeer :: "os \<Rightarrow> bird_Manager \<Rightarrow> int \<Rightarrow> host \<Rightarrow> unit res \<times> host" where
  "bird_RemovePeer Os m asn h = reloadLocked Os m (snd (os_remove Os (bird_conf m asn) h))"

definition DisableProtocol :: "os \<Rightarrow> bird_Manager \<Rightarrow> string \<Rightarrow> host \<Rightarrow> unit res \<times> host" where
  "DisableProtocol Os m protoName h =
     (case run_cmd Os [birdcPath m, ''disable'', protoName] h of (r, h) \<Rightarrow>
        (case cmd_err r of
           Some e \<Rightarrow> (Inl (''birdc disable '' @ protoName @ '': '' @ combined r @ '': '' @ e), h)
         | None \<Rightarrow> (Inr (), h)))"

definition EnableProtocol :: "os \<Rightarrow> bird_Manager \<Rightarrow> string \<Rightarrow> host \<Rightarrow> unit res \<times> host" where
  "EnableProtocol Os m protoName h =
     (case run_cmd Os [birdcPath m, ''enable'', protoName] h of (r, h) \<Rightarrow>
        (case cmd_err r of
           Some e \<Rightarrow> (Inl (''birdc enable '' @ protoName @ '': '' @ combined r @ '': '' @ e), h)
         | None \<Rightarrow> (Inr (), h)))"

section \<open>Protocol states\<close>

definition state_line :: "string \<Rightarrow> PeerState option" where
  "state_line l =
     (let fs = str_fields l in
      if length fs < 6 then None
      else if fs ! 1 \<noteq> ''BGP'' then None
      else Some \<lparr>ps_Name = fs ! 0, ps_State = to_lower (fs ! 5)\<rparr>)"

definition GetPeerStates :: "os \<Rightarrow> bird_Manager \<Rightarrow> host \<Rightarrow> PeerState list res \<times> host" where
  "GetPeerStates Os m h =
     (case run_cmd Os [birdcPath m, ''show'', ''protocols''] h of (r, h) \<Rightarrow>
        (case cmd_err r of
           Some e \<Rightarrow> (Inl (''birdc show protocols: '' @ e), h)
         | None \<Rightarrow> (Inr (List.map_filter state_line (scan_lines (stdout r))), h)))"

section \<open>Route queries\<close>

definition maxRouteOutput :: nat where
  "maxRouteOutput = 64 * 1024"

definition truncation_note :: string where
  "truncation_note = lf # ''... (output truncated)''"

definition route_args :: "string \<Rightarrow> bool \<Rightarrow> string list" where
  "route_args target detailed =
     [''show'', ''route''] @
     (if contains ''/'' target then [target] else [''for'', target]) @
     (if detailed then [''all''] else [])"

definition ShowRoute :: "os \<Rightarrow> bird_Manager \<Rightarrow> string \<Rightarrow> bool \<Rightarrow> host \<Rightarrow> string res \<times> host" where
  "ShowRoute Os m target detailed h =
     (case run_cmd Os (birdcPath m # route_args target detailed) h of (r, h) \<Rightarrow>
        (case cmd_err r of
           Some _ \<Rightarrow> (Inl (''birdc show route: '' @ trim_space (combined r)), h)
         | None \<Rightarrow>
             let txt = trim_space (combined r) in
             (Inr (if maxRouteOutput < length txt then take maxRouteOutput txt @ truncation_note
                   else txt), h)))"

section \<open>Uptime\<close>

text \<open>
  The wall clock: the time now in nanoseconds since the epoch, the local date, and the instant of
  a local wall-clock reading (year, month, day, hour, minute, second), which rests on the
  time-zone database.
\<close>

record clock =
  now_ns :: int
  today :: "nat \<times> nat \<times> nat"
  local_ns :: "nat \<times> nat \<times> nat \<Rightarrow> nat \<times> nat \<times> nat \<Rightarrow> int"

text \<open>\<open>getnum\<close> of package \<open>time\<close>: two digits, or one when \<open>fixed\<close> does not hold.\<close>

fun getnum :: "bool \<Rightarrow> string \<Rightarrow> (nat \<times> string) option" where
  "getnum fixed [] = None"
| "getnum fixed [c] = (if is_digit c \<and> \<not> fixed then Some (digit_val c, []) else None)"
| "getnum fixed (c # d # s) =
     (if \<not> is_digit c then None
      else if is_digit d then Some (10 * digit_val c + digit_val d, s)
      else if fixed then None
      else Some (digit_val c, d # s))"

definition skip_char :: "char \<Rightarrow> string \<Rightarrow> string option" where
  "skip_char d s = (case s of [] \<Rightarrow> None | c # t \<Rightarrow> if c = d then Some t else None)"

text \<open>A fraction of a second is accepted after the seconds although the layout has none.\<close>

definition skip_fraction :: "string \<Rightarrow> string" where
  "skip_fraction s =
     (case s of
        p # d # t \<Rightarrow> if (p = CHR ''.'' \<or> p = CHR '','') \<and> is_digit d then dropWhile is_digit t else s
      | _ \<Rightarrow> s)"

definition parse_clock :: "string \<Rightarrow> (nat \<times> nat \<times> nat) option" where
  "parse_clock s =
     Option.bind (getnum False s) (\<lambda>(hh, s).
     Option.bind (skip_char CHR '':'' s) (\<lambda>s.
     Option.bind (getnum True s) (\<lambda>(mm, s).
     Option.bind (skip_char CHR '':'' s) (\<lambda>s.
     Option.bind (getnum True s) (\<lambda>(ss, s).
       if skip_fraction s = [] \<and> hh < 24 \<and> mm < 60 \<and> ss < 60 then Some (hh, mm, ss)
       else None)))))"

definition is_leap :: "nat \<Rightarrow> bool" where
  "is_leap y \<longleftrightarrow> y mod 4 = 0 \<and> (y mod 100 \<noteq> 0 \<or> y mod 400 = 0)"

definition days_in :: "nat \<Rightarrow> nat \<Rightarrow> nat" where
  "days_in mo y =
     (if mo = 2 then if is_leap y then 29 else 28
      else if mo = 4 \<or> mo = 6 \<or> mo = 9 \<or> mo = 11 then 30 else 31)"

definition parse_date :: "string \<Rightarrow> (nat \<times> nat \<times> nat) option" where
  "parse_date s =
     (if length s < 4 \<or> (\<exists>c \<in> set (take 4 s). \<not> is_digit c) then None
      else
        let y = digits_val (take 4 s) in
        Option.bind (skip_char CHR ''-'' (drop 4 s)) (\<lambda>s.
        Option.bind (getnum True s) (\<lambda>(mo, s).
        Option.bind (skip_char CHR ''-'' s) (\<lambda>s.
        Option.bind (getnum True s) (\<lambda>(d, s).
          if s = [] \<and> 1 \<le> mo \<and> mo \<le> 12 \<and> 1 \<le> d \<and> d \<le> days_in mo y then Some (y, mo, d)
          else None)))))"

text \<open>\<open>Time.Sub\<close> saturates at the range of \<open>time.Duration\<close>; the seconds are truncated to an \<open>int\<close>.\<close>

definition time_sub :: "int \<Rightarrow> int \<Rightarrow> int" where
  "time_sub t u = max (- (2 ^ 63)) (min (2 ^ 63 - 1) (t - u))"

definition whole_seconds :: "int \<Rightarrow> int" where
  "whole_seconds d = (if 0 \<le> d then d div 10 ^ 9 else - ((- d) div 10 ^ 9))"

definition parseSinceToUptimeSecs :: "clock \<Rightarrow> string \<Rightarrow> int" where
  "parseSinceToUptimeSecs clk since =
     (case parse_clock since of
        Some hms \<Rightarrow>
          let start = local_ns clk (today clk) hms;
              start = (if now_ns clk < start then start - 24 * 3600 * 10 ^ 9 else start)
          in whole_seconds (time_sub (now_ns clk) start)
      | None \<Rightarrow>
          (case parse_date since of
             Some ymd \<Rightarrow> whole_seconds (time_sub (now_ns clk) (local_ns clk ymd (0, 0, 0)))
           | None \<Rightarrow> 0))"

section \<open>Protocol details\<close>

definition routesRe :: "rx list" where
  "routesRe =
     lit ''Routes:'' @ plus rx_space @ cap 1 (plus is_digit) @ lit '' imported,'' @
     plus rx_space @ cap 2 (plus is_digit) @ lit '' exported'' @
     [Opt (lit '','' @ plus rx_space @ cap 3 (plus is_digit) @ lit '' preferred'')]"

text \<open>
  \<open>fmt.Sscan\<close> of a text of digits into an \<open>int\<close> that is 0: a leading zero makes the number octal
  and ends it at the first 8 or 9, and a number out of range leaves the variable as it was.
\<close>

definition octal_val :: "string \<Rightarrow> nat" where
  "octal_val s = foldl (\<lambda>a c. 8 * a + digit_val c) 0 s"

definition sscan_int :: "string \<Rightarrow> int" where
  "sscan_int s =
     (let n = (if s \<noteq> [] \<and> hd s = CHR ''0'' then octal_val (takeWhile (\<lambda>c. digit_val c < 8) s)
               else digits_val s)
      in if n < 2 ^ 63 then int n else 0)"

text \<open>Addition of two \<open>int\<close> variables.\<close>

definition add64 :: "int \<Rightarrow> int \<Rightarrow> int" where
  "add64 a b = wrap64 (a + b)"

definition head_line :: "string \<Rightarrow> bool" where
  "head_line l \<longleftrightarrow> \<not> has_prefix '' '' l \<and> 2 \<le> length (str_fields l) \<and> str_fields l ! 1 = ''BGP''"

definition new_detail :: "clock \<Rightarrow> string \<Rightarrow> PeerDetail" where
  "new_detail clk l =
     (let fs = str_fields l;
          state = (if 6 \<le> length fs then to_lower (fs ! 5) else []);
          since = (if 5 \<le> length fs then fs ! 4 else [])
      in \<lparr>pd_Name = fs ! 0, pd_State = state, pd_RoutesImported = 0, pd_RoutesExported = 0,
          pd_RoutesPreferred = 0, pd_BGPUptimeSecs = parseSinceToUptimeSecs clk since\<rparr>)"

definition add_routes :: "string \<Rightarrow> PeerDetail \<Rightarrow> PeerDetail" where
  "add_routes l d =
     (case rfind routesRe l of
        None \<Rightarrow> d
      | Some (g, _) \<Rightarrow>
          d\<lparr>pd_RoutesImported := add64 (pd_RoutesImported d) (sscan_int (group g 1)),
            pd_RoutesExported := add64 (pd_RoutesExported d) (sscan_int (group g 2)),
            pd_RoutesPreferred := add64 (pd_RoutesPreferred d)
              (if group g 3 \<noteq> [] then sscan_int (group g 3) else 0)\<rparr>)"

definition detail_line ::
    "clock \<Rightarrow> string \<Rightarrow> PeerDetail list \<times> PeerDetail option
      \<Rightarrow> PeerDetail list \<times> PeerDetail option" where
  "detail_line clk l st =
     (let (details, current) = st in
      if head_line l then
        (case current of None \<Rightarrow> details | Some c \<Rightarrow> details @ [c], Some (new_detail clk l))
      else (details, map_option (add_routes l) current))"

definition parse_details :: "clock \<Rightarrow> string \<Rightarrow> PeerDetail list" where
  "parse_details clk out =
     (let (details, current) = fold (detail_line clk) (scan_lines out) ([], None) in
      case current of None \<Rightarrow> details | Some c \<Rightarrow> details @ [c])"

definition GetPeerDetails ::
    "os \<Rightarrow> clock \<Rightarrow> bird_Manager \<Rightarrow> host \<Rightarrow> PeerDetail list res \<times> host" where
  "GetPeerDetails Os clk m h =
     (case run_cmd Os [birdcPath m, ''show'', ''protocols'', ''all''] h of (r, h) \<Rightarrow>
        (case cmd_err r of
           Some e \<Rightarrow> (Inl (''birdc show protocols all: '' @ e), h)
         | None \<Rightarrow> (Inr (parse_details clk (stdout r)), h)))"

section \<open>Scanning\<close>

definition hex_or_colon :: "char \<Rightarrow> bool" where
  "hex_or_colon c \<longleftrightarrow>
     is_digit c \<or> 97 \<le> byte_of c \<and> byte_of c \<le> 102 \<or> 65 \<le> byte_of c \<and> byte_of c \<le> 70 \<or>
     c = CHR '':''"

definition neighborRe :: "rx list" where
  "neighborRe =
     lit ''neighbor'' @ plus rx_space @ cap 1 (lit ''fe80:'' @ plus hex_or_colon) @
     plus rx_space @ lit ''%'' @ [Star rx_space] @ lit [CHR 0x27] @ cap 2 (plus rx_nonspace) @
     lit [CHR 0x27] @ plus rx_space @ lit ''as'' @ plus rx_space @ cap 3 (plus is_digit)"

definition protoNameRe :: "rx list" where
  "protoNameRe =
     lit ''protocol'' @ plus rx_space @ lit ''bgp'' @ plus rx_space @ cap 1 (plus rx_nonspace) @
     plus rx_space @ lit ''from'' @ plus rx_space @ lit ''dnpeers''"

definition scan_conf :: "string \<Rightarrow> string \<Rightarrow> ScannedBGP option" where
  "scan_conf name data =
     (case rfind neighborRe data of
        None \<Rightarrow> None
      | Some (g, _) \<Rightarrow>
          (case parse_int64 (group g 3) of
             (_, Some _) \<Rightarrow> None
           | (asn, None) \<Rightarrow>
               Some \<lparr>sb_Name = trim_suffix ''.conf'' name,
                     sb_ProtoName = (case rfind protoNameRe data of
                        None \<Rightarrow> [] | Some (p, _) \<Rightarrow> group p 1),
                     sb_Filename = name, sb_ASN = asn, sb_RemoteLLA = group g 1,
                     sb_WgInterface = group g 2\<rparr>))"

definition bird_scan_entry ::
    "os \<Rightarrow> bird_Manager \<Rightarrow> string \<times> bool \<Rightarrow> host \<Rightarrow> ScannedBGP option \<times> host" where
  "bird_scan_entry Os m entry h =
     (let (name, isDir) = entry in
      if isDir \<or> \<not> has_suffix ''.conf'' name then (None, h)
      else
        case os_read_file Os (path_join (peerDir m) name) h of
          (Inl _, h) \<Rightarrow> (None, h)
        | (Inr data, h) \<Rightarrow> (scan_conf name data, h))"

fun bird_scan_entries ::
    "os \<Rightarrow> bird_Manager \<Rightarrow> (string \<times> bool) list \<Rightarrow> host \<Rightarrow> ScannedBGP list \<times> host" where
  "bird_scan_entries Os m [] h = ([], h)"
| "bird_scan_entries Os m (e # es) h =
     (case bird_scan_entry Os m e h of (p, h) \<Rightarrow>
        (case bird_scan_entries Os m es h of (ps, h) \<Rightarrow>
           ((case p of None \<Rightarrow> ps | Some p \<Rightarrow> p # ps), h)))"

definition bird_ScanPeers :: "os \<Rightarrow> bird_Manager \<Rightarrow> host \<Rightarrow> ScannedBGP list res \<times> host" where
  "bird_ScanPeers Os m h =
     (case os_read_dir Os (peerDir m) h of
        (Inl e, h) \<Rightarrow> (Inl (''read bird peer dir: '' @ e), h)
      | (Inr entries, h) \<Rightarrow>
          (case bird_scan_entries Os m entries h of (ps, h) \<Rightarrow> (Inr ps, h)))"

section \<open>Contract of the operations\<close>

lemma reloadLocked_run:
  assumes "birdc_tools Os (birdcPath m)" "reloadLocked Os m h = (r, h')"
  shows "outside A h h'" "ifaces h' = ifaces h" "files h' = files h"
    "loaded h' = (if is_ok r then files h else loaded h)"
proof -
  obtain q where q: "run_cmd Os [birdcPath m, ''configure''] h = (q, h')" "is_ok r \<longleftrightarrow> cmd_err q = None"
    using assms(2) by (auto simp: reloadLocked_def split: prod.splits option.splits)
  with birdc_run [OF assms(1) q(1)]
  show "outside A h h'" "ifaces h' = ifaces h" "files h' = files h"
    "loaded h' = (if is_ok r then files h else loaded h)"
    by simp_all
qed

lemma bird_AddPeer_run:
  assumes tools: "birdc_tools Os (birdcPath m)" and run: "bird_AddPeer Os m asn lla wif h = (r, h')"
  defines "cfg \<equiv> \<lparr>bc_ASN = asn, bc_ASNSuffix = itoa asn, bc_RemoteLLA = lla, bc_WgInterface = wif\<rparr>"
  shows "outside {bird_conf m asn} h h'" "ifaces h' = ifaces h"
    "loaded h' = (if is_ok r then files h' else loaded h)"
    "is_ok r \<Longrightarrow> map_option content (fs_read h' (bird_conf m asn)) = Some (bird_render cfg)"
proof -
  let ?p = "bird_conf m asn"
  consider (nocreate) e e' where "r = Inl e" "os_open_trunc Os ?p perm_0644 h = (Inl e', h')"
    | (nowrite) f h1 e e' where "os_open_trunc Os ?p perm_0644 h = (Inr f, h1)"
        "os_write Os f (bird_render cfg) h1 = (Inl e', h')" "r = Inl e"
    | (nocheck) f h1 u h2 q h3 e d where "os_open_trunc Os ?p perm_0644 h = (Inr f, h1)"
        "os_write Os f (bird_render cfg) h1 = (Inr u, h2)"
        "run_cmd Os [birdcPath m, ''configure'', ''check''] h2 = (q, h3)" "r = Inl e"
        "os_remove Os ?p h3 = (d, h')"
    | (ran) f h1 u h2 q h3 where "os_open_trunc Os ?p perm_0644 h = (Inr f, h1)"
        "os_write Os f (bird_render cfg) h1 = (Inr u, h2)"
        "run_cmd Os [birdcPath m, ''configure'', ''check''] h2 = (q, h3)"
        "reloadLocked Os m h3 = (r, h')"
    using run unfolding bird_AddPeer_def Let_def cfg_def
    by (auto split: prod.splits sum.splits option.splits) (metis prod.collapse)
  then have "outside {?p} h h' \<and> ifaces h' = ifaces h \<and>
    loaded h' = (if is_ok r then files h' else loaded h) \<and>
    (is_ok r \<longrightarrow> map_option content (fs_read h' ?p) = Some (bird_render cfg))"
  proof cases
    case nocreate
    with os_open_trunc_frame [OF nocreate(2)] show ?thesis by simp
  next
    case nowrite
    with open_write [OF nowrite(1,2)] show ?thesis by simp
  next
    case nocheck
    note w = open_write [OF nocheck(1,2)] and c = birdc_run [OF tools nocheck(3)]
      and d = os_remove_frame [OF nocheck(5)]
    have "outside {?p} h h'" using w(1) c(3) d(1) by (metis outside_trans)
    with w(2,3) c(1,5) d(2,3) nocheck(4) show ?thesis by simp
  next
    case ran
    note w = open_write [OF ran(1,2)] and c = birdc_run [OF tools ran(3)]
      and l = reloadLocked_run [OF tools ran(4)]
    have "outside {?p} h h'" using w(1) c(3) l(1) by (metis outside_trans)
    moreover have "fs_read h' ?p = fs_read h3 ?p" using outsideD [OF l(1) [of "{}"]] by simp
    ultimately show ?thesis using w(2,3) w(5) [OF refl] c(1,2,4,5) l(2-4) by auto
  qed
  then show "outside {bird_conf m asn} h h'" "ifaces h' = ifaces h"
    "loaded h' = (if is_ok r then files h' else loaded h)"
    "is_ok r \<Longrightarrow> map_option content (fs_read h' (bird_conf m asn)) = Some (bird_render cfg)"
    by simp_all
qed

lemma bird_remove_run:
  assumes tools: "birdc_tools Os (birdcPath m)"
    and run: "reloadLocked Os m (snd (os_remove Os p h)) = (r, h')"
  shows "outside {p} h h'" "ifaces h' = ifaces h"
    "loaded h' = (if is_ok r then files h' else loaded h)"
    "fs_read h' p = None \<or> fs_read h' p = fs_read h p"
    "fault Os (Remove p) h = None \<Longrightarrow> fs_read h' p = None"
proof -
  obtain d h1 where d: "os_remove Os p h = (d, h1)" by fastforce
  note x = os_remove_frame [OF d] and l = reloadLocked_run [OF tools run [unfolded d snd_conv]]
  have same: "fs_read h' p = fs_read h1 p" using outsideD [OF l(1) [of "{}"]] by simp
  show "outside {p} h h'" using x(1) l(1) by (rule outside_trans)
  show "ifaces h' = ifaces h" "loaded h' = (if is_ok r then files h' else loaded h)"
    using x(2,3) l(2-4) by simp_all
  show "fs_read h' p = None \<or> fs_read h' p = fs_read h p" using x(7) same by auto
  show "fault Os (Remove p) h = None \<Longrightarrow> fs_read h' p = None" using x(5) same by simp
qed

text \<open>What BIRD runs after a removal depends on the one \<open>birdc configure\<close> that follows it.\<close>

definition reload_works :: "os \<Rightarrow> bird_Manager \<Rightarrow> string \<Rightarrow> host \<Rightarrow> bool" where
  "reload_works Os m p h \<longleftrightarrow>
     cmd_err (fst (exec Os [birdcPath m, ''configure''] (snd (os_remove Os p h)))) = None"

lemma bird_remove_loaded:
  assumes tools: "birdc_tools Os (birdcPath m)"
    and run: "reloadLocked Os m (snd (os_remove Os p h)) = (r, h')"
  shows "is_ok r \<longleftrightarrow> reload_works Os m p h" "files h' = files (snd (os_remove Os p h))"
proof -
  obtain q where q: "run_cmd Os [birdcPath m, ''configure''] (snd (os_remove Os p h)) = (q, h')"
    "is_ok r \<longleftrightarrow> cmd_err q = None"
    using run by (auto simp: reloadLocked_def split: prod.splits option.splits)
  show "is_ok r \<longleftrightarrow> reload_works Os m p h" using q(2) run_cmd_fst [OF q(1)] by (simp add: reload_works_def)
  show "files h' = files (snd (os_remove Os p h))" by (rule reloadLocked_run(3) [OF tools run])
qed

lemmas RemovePeerByFilename_run =
  bird_remove_run [where p = "path_join (peerDir m) f" for m f, folded RemovePeerByFilename_def]

lemmas bird_RemovePeer_run =
  bird_remove_run [where p = "bird_conf m asn" for m asn, folded bird_RemovePeer_def]

section \<open>Properties\<close>

text \<open>
  When \<open>AddPeer\<close> succeeds, the session's file holds exactly the rendered configuration and BIRD
  has read the files as they now are; when it fails, BIRD runs what it ran before. In both cases no
  other file and no interface changes.
\<close>

lemma bird_add_installs:
  assumes "birdc_tools Os (birdcPath m)" "bird_AddPeer Os m asn lla wif h = (r, h')"
  shows "outside {bird_conf m asn} h h' \<and> ifaces h' = ifaces h \<and>
    (if is_ok r then loaded h' = files h' \<and>
       map_option content (fs_read h' (bird_conf m asn)) = Some (bird_render
         \<lparr>bc_ASN = asn, bc_ASNSuffix = itoa asn, bc_RemoteLLA = lla, bc_WgInterface = wif\<rparr>)
     else loaded h' = loaded h)"
  using bird_AddPeer_run [OF assms] by simp

definition demo_bird :: bird_Manager where
  "demo_bird = bird_NewManager ''/etc/bird/peers'' ''birdc''"

definition bird_sim :: "string list list \<Rightarrow> os" where
  "bird_sim bad = sim_os (\<lambda>argv. argv \<in> set bad) (\<lambda>_. [])"

definition demo_bird_add :: "string list list \<Rightarrow> unit res \<times> host" where
  "demo_bird_add bad =
     bird_AddPeer (bird_sim bad) demo_bird 4242420001 ''fe80::2'' ''dn424242420001'' empty_host"

lemma demo_bird_tools: "birdc_tools (bird_sim bad) (birdcPath demo_bird)"
  by (simp add: bird_sim_def sim_birdc_tools demo_bird_def bird_NewManager_def)

lemmas bird_run_simps = demo_bird_add_def bird_AddPeer_def Let_def os_open_trunc_def os_write_def
  run_cmd_def bird_sim_def sim_os_def sim_exec_def cmd_result_def empty_host_def reloadLocked_def
  demo_bird_def bird_NewManager_def

text \<open>
  When \<open>birdc configure check\<close> refuses the configuration, the error carries what it printed
  and the file is gone again, provided the file system lets the agent remove it.
\<close>

lemma bird_add_refused_is_undone:
  assumes tools: "birdc_tools Os (birdcPath m)"
    and run: "bird_AddPeer Os m asn lla wif h = (r, h')"
    and bad: "\<forall>h. cmd_err (fst (exec Os [birdcPath m, ''configure'', ''check''] h)) \<noteq> None"
    and rm: "\<forall>h. fault Os (Remove (bird_conf m asn)) h = None"
    and opn: "\<forall>h. fault Os (OpenTrunc (bird_conf m asn)) h = None"
    and wr: "\<forall>h. fault Os (WriteTo (bird_conf m asn)) h = None"
  shows "(\<exists>txt. r = Inl (''bird config check failed: '' @ txt)) \<and>
    fs_read h' (bird_conf m asn) = None \<and> loaded h' = loaded h"
proof -
  obtain f h1 where o: "os_open_trunc Os (bird_conf m asn) perm_0644 h = (Inr f, h1)" "f = bird_conf m asn"
    using opn by (auto simp: os_open_trunc_def)
  obtain u h2 where w: "os_write Os f (bird_render \<lparr>bc_ASN = asn, bc_ASNSuffix = itoa asn,
      bc_RemoteLLA = lla, bc_WgInterface = wif\<rparr>) h1 = (Inr u, h2)"
    using wr o(2) by (auto simp: os_write_def Let_def)
  obtain q h3 where q: "run_cmd Os [birdcPath m, ''configure'', ''check''] h2 = (q, h3)" by fastforce
  have "cmd_err q \<noteq> None" using bad run_cmd_fst [OF q] by simp
  then have r: "r = Inl (''bird config check failed: '' @ combined q)"
      "os_remove Os (bird_conf m asn) h3 = (fst (os_remove Os (bird_conf m asn) h3), h')"
    using run o w q by (auto simp: bird_AddPeer_def Let_def)
  from os_remove_frame(5) [OF r(2)] rm have "fs_read h' (bird_conf m asn) = None" by simp
  with r(1) bird_AddPeer_run(3) [OF tools run] show ?thesis by simp
qed

text \<open>
  C36: when the check passes but the reload that follows it fails, \<open>AddPeer\<close> reports the error and
  leaves the file in place, so that the next successful reload brings the session up.
\<close>

theorem bird_add_failed_reload_keeps_file:
  assumes run: "bird_AddPeer Os m asn lla wif h = (Inl e, h')"
    and tools: "birdc_tools Os (birdcPath m)"
    and chk: "\<forall>h. cmd_err (fst (exec Os [birdcPath m, ''configure'', ''check''] h)) = None"
    and opn: "\<forall>h. fault Os (OpenTrunc (bird_conf m asn)) h = None"
    and wr: "\<forall>h. fault Os (WriteTo (bird_conf m asn)) h = None"
  shows "has_prefix ''birdc configure: '' e \<and> loaded h' = loaded h \<and>
    map_option content (fs_read h' (bird_conf m asn)) = Some (bird_render
      \<lparr>bc_ASN = asn, bc_ASNSuffix = itoa asn, bc_RemoteLLA = lla, bc_WgInterface = wif\<rparr>)"
proof -
  let ?txt = "bird_render
      \<lparr>bc_ASN = asn, bc_ASNSuffix = itoa asn, bc_RemoteLLA = lla, bc_WgInterface = wif\<rparr>"
  obtain f h1 where o: "os_open_trunc Os (bird_conf m asn) perm_0644 h = (Inr f, h1)" "f = bird_conf m asn"
    using opn by (auto simp: os_open_trunc_def)
  obtain u h2 where w: "os_write Os f ?txt h1 = (Inr u, h2)"
    using wr o(2) by (auto simp: os_write_def Let_def)
  obtain q h3 where q: "run_cmd Os [birdcPath m, ''configure'', ''check''] h2 = (q, h3)" by fastforce
  have "cmd_err q = None" using chk run_cmd_fst [OF q] by simp
  with run o(1) w q have l: "reloadLocked Os m h3 = (Inl e, h')"
    by (simp add: bird_AddPeer_def)
  then have "has_prefix ''birdc configure: '' e"
    by (auto simp: reloadLocked_def has_prefix_def split: prod.splits option.splits)
  moreover have "map_option content (fs_read h2 (bird_conf m asn)) = Some ?txt"
    using open_write(5) [OF o(1) w refl] by auto
  moreover have "fs_read h' (bird_conf m asn) = fs_read h2 (bird_conf m asn)"
    using outsideD [OF reloadLocked_run(1) [OF tools l, of "{}"]] birdc_run(2) [OF tools q] by simp
  ultimately show ?thesis using bird_AddPeer_run(3) [OF tools run] by simp
qed

lemma bird_add_failed_reload_keeps_file_witness:
  "loaded (snd (demo_bird_add [[''birdc'', ''configure'']])) = [] \<and>
   fs_read (snd (demo_bird_add [[''birdc'', ''configure'']])) (bird_conf demo_bird 4242420001) \<noteq> None"
proof -
  let ?bad = "[[''birdc'', ''configure'']]"
  obtain e h' where run: "demo_bird_add ?bad = (Inl e, h')"
    by (auto simp: bird_run_simps split: option.splits)
  have "\<forall>h. cmd_err (fst (exec (bird_sim ?bad) [birdcPath demo_bird, ''configure'', ''check''] h)) = None"
    by (simp add: bird_run_simps)
  from bird_add_failed_reload_keeps_file [OF run [unfolded demo_bird_add_def] demo_bird_tools this] run
  show ?thesis by (auto simp: bird_sim_def sim_os_def empty_host_def)
qed

text \<open>
  The text of a route query never exceeds 64 KiB and the note that it was cut, and it is the
  trimmed output of \<open>birdc\<close> when that fits.
\<close>

lemma show_route_bounded:
  assumes "ShowRoute Os m target detailed h = (Inr txt, h')"
  shows "length txt \<le> maxRouteOutput + length truncation_note \<and>
    (\<exists>r. run_cmd Os (birdcPath m # route_args target detailed) h = (r, h') \<and>
       has_prefix (take maxRouteOutput txt) (trim_space (combined r)) \<and>
       (length (trim_space (combined r)) \<le> maxRouteOutput \<longrightarrow> txt = trim_space (combined r)))"
  using assms
  by (auto simp: ShowRoute_def Let_def has_prefix_def min_def split: prod.splits option.splits if_splits)

text \<open>What the scan reads of a rendered configuration.\<close>

definition lla_ok :: "string \<Rightarrow> bool" where
  "lla_ok lla \<longleftrightarrow>
     has_prefix ''fe80:'' lla \<and> 5 < length lla \<and> (\<forall>c \<in> set (drop 5 lla). hex_or_colon c)"

definition iface_ok :: "string \<Rightarrow> bool" where
  "iface_ok i \<longleftrightarrow> i \<noteq> [] \<and> (\<forall>c \<in> set i. rx_nonspace c \<and> c \<noteq> CHR 0x27)"

lemma not_hex_or_colon_space: "\<not> hex_or_colon CHR '' ''"
  by (simp add: hex_or_colon_def is_digit_def)

lemma rx_space_sep [simp]:
  "rx_space CHR '' ''" "\<not> rx_nonspace CHR '' ''" "rx_nonspace CHR 0x27"
  by (simp_all add: rx_space_def rx_nonspace_def)

lemma digit_not_space: "is_digit c \<Longrightarrow> rx_nonspace c"
  by (auto simp: is_digit_def rx_space_def rx_nonspace_def)

lemma hd_itoa_nonneg: "0 \<le> n \<Longrightarrow> is_digit (hd (itoa n @ s))"
  using itoa_nonneg_digits [of n "hd (itoa n)"] by simp

lemma neighbor_match:
  assumes "lla_ok lla" "iface_ok wif" "0 \<le> asn" "s = [] \<or> \<not> is_digit (hd s)"
  shows "rmatch neighborRe [] [] (''neighbor '' @ lla @ '' % '' @ CHR 0x27 # wif @ CHR 0x27 #
      '' as '' @ itoa asn @ s) = Some ([(3, itoa asn), (2, wif), (1, lla)], s)"
proof -
  obtain z where z: "lla = ''fe80:'' @ z" "z \<noteq> []" "\<forall>c \<in> set z. hex_or_colon c"
    using assms(1) by (auto simp: lla_ok_def has_prefix_iff)
  let ?q = "CHR 0x27"
  let ?t3 = "itoa asn @ s" let ?t2 = "wif @ ?q # '' as '' @ ?t3"
  let ?r3 = "plus rx_space @ lit ''as'' @ plus rx_space @ cap 3 (plus is_digit) @ []"
  let ?r2 = "cap 2 (plus rx_nonspace) @ lit [?q] @ ?r3"
  let ?r1 = "plus rx_space @ lit ''%'' @ [Star rx_space] @ lit [?q] @ ?r2"
  have "\<not> rx_space (hd ?t3)"
    using digit_not_space [OF hd_itoa_nonneg [OF assms(3)]] by (simp add: rx_nonspace_def)
  moreover have "rmatch (cap 3 (plus is_digit) @ []) os cs ?t3 = Some ((3, itoa asn) # cs, s)" for os cs
    using assms(3,4) by (intro cap_step) (auto intro: itoa_nonneg_digits)
  ultimately have 3: "rmatch ?r3 os cs ('' as '' @ ?t3) = Some ((3, itoa asn) # cs, s)" for os cs
    by (simp add: rmatch_lit_Cons rmatch_space rmatch_spaces_lit rx_space_def)
  have 2: "rmatch ?r2 os cs ?t2 = Some ((3, itoa asn) # (2, wif) # cs, s)" for os cs
    using assms(2) 3 by (intro cap_back_step) (auto simp: iface_ok_def)
  have 1: "rmatch ?r1 os cs ('' % '' @ ?q # ?t2) = Some ((3, itoa asn) # (2, wif) # cs, s)" for os cs
    using 2 by (simp add: rmatch_lit_Cons rmatch_space rx_space_def)
  have "rmatch (plus hex_or_colon @ Shut 1 # ?r1) [(1, lla @ '' % '' @ ?q # ?t2)] []
      (z @ '' % '' @ ?q # ?t2) = Some ([(3, itoa asn), (2, wif), (1, lla)], s)"
    using z(2,3) not_hex_or_colon_space 1 captured_simp [of 1 lla "'' % '' @ ?q # ?t2" "[]"]
    by (intro plus_stop) simp_all
  then show ?thesis
    unfolding neighborRe_def z(1)
    by (simp add: rx_simps rx_space_def)
qed

lemma neighbor_found:
  assumes "lla_ok lla" "iface_ok wif" "0 \<le> asn" "\<forall>c \<in> set u. is_digit c"
  shows "\<exists>s. rfind neighborRe (''protocol bgp dn42_'' @ u @ '' from dnpeers {'' @ lf # ''    neighbor '' @ lla @
      '' % '' @ CHR 0x27 # wif @ CHR 0x27 # '' as '' @ itoa asn @ '';'' @ t) =
    Some ([(3, itoa asn), (2, wif), (1, lla)], s)"
proof -
  define r where "r = tl neighborRe"
  have re: "neighborRe = Chr (\<lambda>x. x = CHR ''n'') # r" and r: "\<exists>r'. r = Chr (\<lambda>x. x = CHR ''e'') # r'"
    by (simp_all add: r_def neighborRe_def lit_def)
  then obtain r' where r': "r = Chr (\<lambda>x. x = CHR ''e'') # r'" by blast
  let ?t = "''neighbor '' @ lla @ '' % '' @ CHR 0x27 # wif @ CHR 0x27 # '' as '' @ itoa asn @ '';'' @ t"
  have at: "rfind neighborRe ?t = Some ([(3, itoa asn), (2, wif), (1, lla)], '';'' @ t)"
    using rfind_here [OF neighbor_match [OF assms(1-3), of "'';'' @ t"]] by (simp add: is_digit_def)
  have "\<forall>c \<in> set u. \<not> c = CHR ''n''"
    using assms(4) by (auto simp: is_digit_def)
  then have mid: "rfind neighborRe (u @ '' from dnpeers {'' @ lf # ''    '' @ s) = rfind neighborRe s" for s
    using rfind_skip_first [of u "\<lambda>x. x = CHR ''n''" r] by (simp add: re r')
  have "rfind neighborRe (''protocol bgp dn42_'' @ s) = rfind neighborRe s" for s
    by (simp add: re r')
  from this [of "u @ '' from dnpeers {'' @ lf # ''    '' @ ?t"] mid [of ?t] at show ?thesis
    by simp
qed

lemma proto_found:
  assumes "\<forall>c \<in> set u. is_digit c"
  shows "\<exists>s. rfind protoNameRe (''protocol bgp dn42_'' @ u @ '' from dnpeers'' @ t) =
    Some ([(1, ''dn42_'' @ u)], s)"
proof -
  let ?n = "''dn42_'' @ u"
  let ?r = "plus rx_space @ lit ''from'' @ plus rx_space @ lit ''dnpeers'' @ []"
  have "\<forall>c \<in> set ?n. rx_nonspace c"
    using assms digit_not_space by (auto simp: rx_nonspace_def rx_space_def)
  moreover have "rmatch ?r os cs ('' from dnpeers'' @ t) = Some (cs, t)" for os cs
    by (simp add: rmatch_lit_Cons rmatch_space rx_space_def del: append_Nil2)
  ultimately have "rmatch (cap 1 (plus rx_nonspace) @ ?r) os cs (?n @ '' from dnpeers'' @ t) =
      Some ((1, ?n) # cs, t)" for os cs
    by (intro cap_step) simp_all
  then have "rmatch protoNameRe [] [] (''protocol bgp '' @ ?n @ '' from dnpeers'' @ t) = Some ([(1, ?n)], t)"
    by (simp add: protoNameRe_def rmatch_lit_Cons rmatch_space rx_space_def)
  then show ?thesis by (auto intro: rfind_here)
qed

text \<open>
  C32: scanning the configuration that \<open>AddPeer\<close> renders gives back the session it was rendered
  from: AS number, link-local address, interface, protocol name and file name.
\<close>

theorem bird_scan_reads_render:
  assumes "lla_ok lla" "iface_ok wif" "0 \<le> asn" "int64_range asn"
  shows "scan_conf (bird_filename asn) (bird_render
      \<lparr>bc_ASN = asn, bc_ASNSuffix = itoa asn, bc_RemoteLLA = lla, bc_WgInterface = wif\<rparr>) =
    Some \<lparr>sb_Name = ''dn42_'' @ itoa asn, sb_ProtoName = ''dn42_'' @ itoa asn,
      sb_Filename = bird_filename asn, sb_ASN = asn, sb_RemoteLLA = lla, sb_WgInterface = wif\<rparr>"
proof -
  have dig: "\<forall>c \<in> set (itoa asn). is_digit c" using itoa_nonneg_digits [OF assms(3)] by blast
  let ?txt = "bird_render
      \<lparr>bc_ASN = asn, bc_ASNSuffix = itoa asn, bc_RemoteLLA = lla, bc_WgInterface = wif\<rparr>"
  obtain s where n: "rfind neighborRe ?txt = Some ([(3, itoa asn), (2, wif), (1, lla)], s)"
    using neighbor_found [OF assms(1-3) dig, of "lf # ''}'' @ [lf]"] by (auto simp: bird_render_def)
  obtain s' where p: "rfind protoNameRe ?txt = Some ([(1, ''dn42_'' @ itoa asn)], s')"
    using proto_found [OF dig, of "'' {'' @ lf # ''    neighbor '' @ lla @ '' % '' @ CHR 0x27 # wif @
      CHR 0x27 # '' as '' @ itoa asn @ '';'' @ lf # ''}'' @ [lf]"] by (auto simp: bird_render_def)
  have name: "trim_suffix ''.conf'' (bird_filename asn) = ''dn42_'' @ itoa asn"
    using trim_suffix_append [of "''.conf''" "''dn42_'' @ itoa asn"] by (simp add: bird_filename_def)
  from n p name assms(4) show ?thesis by (simp add: scan_conf_def group_def parse_int64_itoa)
qed

lemma bird_scan_reads_render_witness:
  "map_option sb_WgInterface (scan_conf (bird_filename 4242420001) (bird_render
     \<lparr>bc_ASN = 4242420001, bc_ASNSuffix = itoa 4242420001, bc_RemoteLLA = ''fe80::ade0'',
      bc_WgInterface = ''dn424242420001''\<rparr>)) = Some ''dn424242420001''"
  by (subst bird_scan_reads_render)
    (simp_all add: lla_ok_def has_prefix_def iface_ok_def hex_or_colon_def is_digit_def
      rx_nonspace_def rx_space_def int64_range_def)

end
