(* ===== verification/Crypto.thy ===== *)
theory Crypto
  imports Go_Json
begin

text \<open>
  \<open>src/internal/crypto/crypto.go\<close>: hexadecimal keys, key agreement, key derivation and the framing
  of encrypted messages. The primitives (X25519, XChaCha20-Poly1305, HKDF, HMAC, SHA-256 and the random source)
  are a parameter, the record \<open>prims\<close>; what the agent relies on of them is stated in
  \<open>aead_laws\<close> and \<open>dh_laws\<close>. A byte slice is a \<^typ>\<open>string\<close>. The random source is read at a
  position that each read advances.
\<close>

section \<open>Primitives\<close>

type_synonym bytes = string

record prims =
  NonceSize :: nat
  Overhead :: nat
  Seal :: "bytes \<Rightarrow> bytes \<Rightarrow> bytes \<Rightarrow> bytes"
  AOpen :: "bytes \<Rightarrow> bytes \<Rightarrow> bytes \<Rightarrow> bytes res"
  NewX :: "bytes \<Rightarrow> bytes res"
  rand_read :: "nat \<Rightarrow> nat \<Rightarrow> bytes res"
  x25519 :: "bytes \<Rightarrow> bytes \<Rightarrow> bytes"
  x25519_base :: "bytes \<Rightarrow> bytes"
  hkdf :: "bytes \<Rightarrow> bytes \<Rightarrow> bytes \<Rightarrow> nat \<Rightarrow> bytes res"
  hmac :: "bytes \<Rightarrow> bytes \<Rightarrow> bytes"
  sha256 :: "bytes \<Rightarrow> bytes"

text \<open>Opening undoes sealing under the same key and nonce, and sealing adds \<open>Overhead\<close> bytes.\<close>

definition aead_laws :: "prims \<Rightarrow> bool" where
  "aead_laws P \<longleftrightarrow>
     (\<forall>k n p. length n = NonceSize P \<longrightarrow>
        length (Seal P k n p) = length p + Overhead P \<and> AOpen P k n (Seal P k n p) = Inr p) \<and>
     (\<forall>pos len b. rand_read P pos len = Inr b \<longrightarrow> length b = len)"

definition dh_laws :: "prims \<Rightarrow> bool" where
  "dh_laws P \<longleftrightarrow>
     (\<forall>a b. length a = 32 \<longrightarrow> length b = 32 \<longrightarrow>
        x25519 P a (x25519_base P b) = x25519 P b (x25519_base P a)) \<and>
     (\<forall>a. length a = 32 \<longrightarrow> length (x25519_base P a) = 32)"

section \<open>Package encoding/hex\<close>

definition hex_encode :: "bytes \<Rightarrow> string" where
  "hex_encode b = concat (map (\<lambda>c. [hex_char (byte_of c div 16), hex_char (byte_of c mod 16)]) b)"

definition upper_hex :: "nat \<Rightarrow> char" where
  "upper_hex n = char_of (if n < 10 then 48 + n else 55 + n)"

text \<open>\<open>%#U\<close> of a byte.\<close>

definition rune_text :: "char \<Rightarrow> string" where
  "rune_text c =
     (let b = byte_of c in
      ''U+00'' @ [upper_hex (b div 16), upper_hex (b mod 16)] @
      (if 32 \<le> b \<and> b < 127 \<or> 161 \<le> b \<and> b \<noteq> 173
       then '' '' @ [CHR 0x27] @ utf8_enc b @ [CHR 0x27] else []))"

definition invalid_byte :: "char \<Rightarrow> string" where
  "invalid_byte c = ''encoding/hex: invalid byte: '' @ rune_text c"

fun hex_decode :: "string \<Rightarrow> bytes res" where
  "hex_decode [] = Inr []"
| "hex_decode [c] =
     (case hex_val c of
        None \<Rightarrow> Inl (invalid_byte c)
      | Some _ \<Rightarrow> Inl ''encoding/hex: odd length hex string'')"
| "hex_decode (c # d # s) =
     (case hex_val c of
        None \<Rightarrow> Inl (invalid_byte c)
      | Some hi \<Rightarrow>
          (case hex_val d of
             None \<Rightarrow> Inl (invalid_byte d)
           | Some lo \<Rightarrow>
               (case hex_decode s of
                  Inl e \<Rightarrow> Inl e
                | Inr b \<Rightarrow> Inr (char_of (16 * hi + lo) # b))))"

section \<open>Keys\<close>

record KeyPair =
  kp_Private :: bytes
  kp_Public :: bytes

definition GenerateKeyPair :: "prims \<Rightarrow> nat \<Rightarrow> KeyPair res" where
  "GenerateKeyPair P pos =
     (case rand_read P pos 32 of
        Inl e \<Rightarrow> Inl (''generate key pair: '' @ e)
      | Inr priv \<Rightarrow> Inr \<lparr>kp_Private = priv, kp_Public = x25519_base P priv\<rparr>)"

definition PublicKeyFromHex :: "string \<Rightarrow> bytes res" where
  "PublicKeyFromHex hexStr =
     (case hex_decode hexStr of
        Inl e \<Rightarrow> Inl (''decode public key hex: '' @ e)
      | Inr data \<Rightarrow>
          if length data = 32 then Inr data else Inl ''crypto/ecdh: invalid public key'')"

definition PrivateKeyFromHex :: "string \<Rightarrow> bytes res" where
  "PrivateKeyFromHex hexStr =
     (case hex_decode hexStr of
        Inl e \<Rightarrow> Inl (''decode private key hex: '' @ e)
      | Inr data \<Rightarrow>
          if length data = 32 then Inr data else Inl ''crypto/ecdh: invalid private key size'')"

definition PubKeyHex :: "bytes \<Rightarrow> string" where
  "PubKeyHex pub = hex_encode pub"

definition PrivKeyHex :: "bytes \<Rightarrow> string" where
  "PrivKeyHex priv = hex_encode priv"

text \<open>\<open>PrivateKey.ECDH\<close> refuses the all-zero output of a low-order point.\<close>

definition DeriveSharedSecret :: "prims \<Rightarrow> bytes \<Rightarrow> bytes \<Rightarrow> bytes res" where
  "DeriveSharedSecret P priv pub =
     (let s = x25519 P priv pub in
      if \<forall>c \<in> set s. byte_of c = (0 :: nat)
      then Inl ''crypto/ecdh: bad X25519 remote ECDH input: low order point'' else Inr s)"

definition DeriveEncKey :: "prims \<Rightarrow> bytes \<Rightarrow> bytes \<Rightarrow> bytes res" where
  "DeriveEncKey P shared nonce =
     (case hkdf P shared nonce ''autopeer-encryption-key'' 32 of
        Inl e \<Rightarrow> Inl (''derive enc key: '' @ e)
      | Inr key \<Rightarrow> Inr key)"

definition ComputeAuthProof :: "prims \<Rightarrow> bytes \<Rightarrow> bytes \<Rightarrow> bytes" where
  "ComputeAuthProof P shared nonce = hmac P shared (''autopeer-key-auth'' @ nonce)"

definition NewNonce :: "prims \<Rightarrow> nat \<Rightarrow> bytes res" where
  "NewNonce P pos =
     (case rand_read P pos 32 of Inl e \<Rightarrow> Inl (''generate nonce: '' @ e) | Inr b \<Rightarrow> Inr b)"

section \<open>Encryption\<close>

definition NewAEAD :: "prims \<Rightarrow> bytes \<Rightarrow> bytes res" where
  "NewAEAD P key = NewX P key"

text \<open>
  \<open>Seal\<close> appends to the slice \<open>out[n:n]\<close>, whose capacity is the rest of \<open>out\<close>: what fits is written
  in place, and what does not fit goes to a new array that the function drops.
\<close>

definition Encrypt :: "prims \<Rightarrow> bytes \<Rightarrow> nat \<Rightarrow> bytes \<Rightarrow> bytes res" where
  "Encrypt P aead pos plaintext =
     (case rand_read P pos (NonceSize P) of
        Inl e \<Rightarrow> Inl (''generate nonce: '' @ e)
      | Inr nonce \<Rightarrow>
          let room = length plaintext + Overhead P;
              sealed = Seal P aead nonce plaintext;
              body = (if length sealed \<le> room
                      then sealed @ replicate (room - length sealed) (char_of (0 :: nat))
                      else replicate room (char_of (0 :: nat)))
          in Inr (nonce @ body))"

definition Decrypt :: "prims \<Rightarrow> bytes \<Rightarrow> bytes \<Rightarrow> bytes res" where
  "Decrypt P aead data =
     (if length data < NonceSize P + Overhead P then Inl ''ciphertext too short''
      else
        case AOpen P aead (take (NonceSize P) data) (drop (NonceSize P) data) of
          Inl e \<Rightarrow> Inl (''decrypt: '' @ e)
        | Inr plain \<Rightarrow> Inr plain)"

section \<open>Lemmas\<close>

definition hex_read :: "string \<Rightarrow> bytes option" where
  "hex_read s = (case hex_decode s of Inl _ \<Rightarrow> None | Inr b \<Rightarrow> Some b)"

lemma byte_lt: "(byte_of c :: nat) < 256"
  by (metis of_char_of char_of_byte mod_less_divisor zero_less_numeral)

lemma hex_decode_encode: "hex_decode (hex_encode b) = Inr b"
proof (induction b)
  case Nil
  then show ?case by (simp add: hex_encode_def)
next
  case (Cons c b)
  have "16 * (byte_of c div 16) + byte_of c mod 16 = (byte_of c :: nat)" by simp
  moreover have "(byte_of c :: nat) div 16 < 16"
    by (rule less_mult_imp_div_less) (use byte_lt [of c] in simp)
  ultimately show ?case
    using Cons by (simp add: hex_encode_def hex_val_char del: mult_div_mod_eq)
qed

interpretation hexa: codec hex_encode hex_read "\<lambda>b. True"
  by unfold_locales (simp add: hex_read_def hex_decode_encode)

lemma Encrypt_shape:
  assumes "aead_laws P" "Encrypt P k pos p = Inr out"
  shows "length (take (NonceSize P) out) = NonceSize P"
    "drop (NonceSize P) out = Seal P k (take (NonceSize P) out) p"
    "length out = NonceSize P + length p + Overhead P"
proof -
  obtain n where n: "rand_read P pos (NonceSize P) = Inr n"
    using assms(2) by (auto simp: Encrypt_def split: sum.splits)
  with assms(1) have len: "length n = NonceSize P" by (auto simp: aead_laws_def)
  with assms(1) have s: "length (Seal P k n p) = length p + Overhead P" by (auto simp: aead_laws_def)
  with assms(2) n have "out = n @ Seal P k n p" by (simp add: Encrypt_def)
  with len s show "length (take (NonceSize P) out) = NonceSize P"
    "drop (NonceSize P) out = Seal P k (take (NonceSize P) out) p"
    "length out = NonceSize P + length p + Overhead P" by simp_all
qed

section \<open>Properties\<close>

text \<open>
  C33: \<open>Decrypt\<close> undoes \<open>Encrypt\<close> under the same key, whatever nonce was drawn, and a frame that is
  shorter than a nonce and a tag is refused before the cipher is asked.
\<close>

theorem decrypt_encrypt:
  assumes "aead_laws P" "Encrypt P k pos plain = Inr frame"
  shows "Decrypt P k frame = Inr plain \<and> length frame = NonceSize P + length plain + Overhead P \<and>
    (\<forall>short. length short < NonceSize P + Overhead P \<longrightarrow> Decrypt P k short = Inl ''ciphertext too short'')"
  using Encrypt_shape [OF assms] assms(1) by (auto simp: Decrypt_def aead_laws_def)

text \<open>Primitives that satisfy the laws, for the witnesses; they have no cryptographic strength.\<close>

definition toy_xor :: "bytes \<Rightarrow> bytes \<Rightarrow> bytes" where
  "toy_xor a b = map2 (\<lambda>c d. char_of ((byte_of c + byte_of d) mod 256 :: nat)) a b"

definition toy_prims :: prims where
  "toy_prims =
     \<lparr>NonceSize = 24, Overhead = 16,
      Seal = (\<lambda>k n p. p @ replicate 16 CHR ''t''),
      AOpen = (\<lambda>k n c. if drop (length c - 16) c = replicate 16 CHR ''t''
                       then Inr (take (length c - 16) c) else Inl ''message authentication failed''),
      NewX = (\<lambda>k. Inr k),
      rand_read = (\<lambda>pos len. Inr (replicate len (char_of pos))),
      x25519 = toy_xor,
      x25519_base = (\<lambda>a. a),
      hkdf = (\<lambda>s n i l. Inr (take l (s @ n @ i @ replicate l CHR ''k''))),
      hmac = (\<lambda>k m. k @ m),
      sha256 = (\<lambda>m. m)\<rparr>"

lemma toy_aead_laws: "aead_laws toy_prims"
  by (simp add: aead_laws_def toy_prims_def)

lemma toy_dh_laws: "dh_laws toy_prims"
proof -
  have "toy_xor a b = toy_xor b a" for a b
    by (rule nth_equalityI) (simp_all add: toy_xor_def add.commute)
  then show ?thesis by (simp add: dh_laws_def toy_prims_def)
qed

lemma decrypt_encrypt_witness:
  "Decrypt toy_prims ''k'' (replicate 24 (char_of (7 :: nat)) @ ''hi'' @ replicate 16 CHR ''t'') = Inr ''hi''"
proof -
  have "Encrypt toy_prims ''k'' 7 ''hi'' =
    Inr (replicate 24 (char_of (7 :: nat)) @ ''hi'' @ replicate 16 CHR ''t'')"
    by (simp add: Encrypt_def toy_prims_def)
  from decrypt_encrypt [OF toy_aead_laws this] show ?thesis by simp
qed

text \<open>
  Key agreement. Two parties that exchange the hexadecimal form of their public keys derive the
  same session key from the same nonce, unless the shared point is degenerate for both.
\<close>

lemma session_key_agreement:
  assumes "dh_laws P" "length a = 32" "length b = 32"
  shows "\<exists>pa pb. PublicKeyFromHex (PubKeyHex (x25519_base P a)) = Inr pa \<and>
      PublicKeyFromHex (PubKeyHex (x25519_base P b)) = Inr pb \<and>
      DeriveSharedSecret P a pb = DeriveSharedSecret P b pa \<and>
      (\<forall>s nonce. DeriveSharedSecret P a pb = Inr s \<longrightarrow>
         DeriveEncKey P s nonce = DeriveEncKey P (x25519 P b pa) nonce \<and>
         ComputeAuthProof P s nonce = ComputeAuthProof P (x25519 P b pa) nonce)"
proof -
  have hexa: "PublicKeyFromHex (PubKeyHex (x25519_base P x)) = Inr (x25519_base P x)" if "length x = 32" for x
    using assms(1) that by (simp add: PublicKeyFromHex_def PubKeyHex_def hex_decode_encode dh_laws_def)
  have "x25519 P a (x25519_base P b) = x25519 P b (x25519_base P a)"
    using assms by (simp add: dh_laws_def)
  then show ?thesis
    using hexa assms(2,3) by (auto simp: DeriveSharedSecret_def Let_def split: if_splits)
qed

end
