(* ===== verification/Ws.thy ===== *)
theory Ws
  imports Crypto
begin

text \<open>
  The WebSocket client, \<open>src/internal/ws/client.go\<close>: messages and their JSON form, the client's
  state, sending and receiving with and without encryption, and the connection loop \<open>Run\<close> as a
  step relation in which the loop, the reader, the writer and the senders interleave.

  Dialling and the transport are a parameter: \<open>dial\<close> decides whether a connection attempt succeeds,
  and the frames the reader receives are arbitrary. The mutex of the client makes each operation on
  the shared fields atomic. A message's payload, a \<open>json.RawMessage\<close>, is kept as its syntax tree;
  a tree of this development is always well-formed JSON, so \<open>json.Marshal\<close> of a message succeeds.
\<close>

section \<open>Messages\<close>

record Message =
  m_Type :: string
  m_ID :: string
  m_Payload :: "json option"
  m_Success :: "bool option"
  m_Error :: string

definition omit_empty :: "string \<Rightarrow> string \<Rightarrow> (string \<times> json) list" where
  "omit_empty k s = (if s = [] then [] else [(k, JStr s)])"

definition message_json :: "Message \<Rightarrow> json" where
  "message_json m = JObj
     ([(''type'', JStr (m_Type m))] @ omit_empty ''id'' (m_ID m) @
      (case m_Payload m of None \<Rightarrow> [] | Some j \<Rightarrow> [(''payload'', j)]) @
      (case m_Success m of None \<Rightarrow> [] | Some b \<Rightarrow> [(''success'', JBool b)]) @
      omit_empty ''error'' (m_Error m))"

fun dec_raw :: "json option \<Rightarrow> json \<Rightarrow> json option option" where
  "dec_raw old j = Some (Some j)"

definition message_dec :: "json \<Rightarrow> Message option" where
  "message_dec j =
     (case members j of
        None \<Rightarrow> None
      | Some ms \<Rightarrow>
          (case (get_field dec_string [] ''type'' ms, get_field dec_string [] ''id'' ms,
                 get_field dec_raw None ''payload'' ms, get_field dec_bool_ptr None ''success'' ms,
                 get_field dec_string [] ''error'' ms) of
             (Some t, Some i, Some p, Some s, Some e) \<Rightarrow>
               Some \<lparr>m_Type = t, m_ID = i, m_Payload = p, m_Success = s, m_Error = e\<rparr>
           | _ \<Rightarrow> None))"

definition message_marshal :: "Message \<Rightarrow> bytes" where
  "message_marshal m = json_print (message_json m)"

definition message_unmarshal :: "bytes \<Rightarrow> Message option" where
  "message_unmarshal data = (case json_parse data of None \<Rightarrow> None | Some j \<Rightarrow> message_dec j)"

section \<open>The client\<close>

record sendItem =
  si_binary :: bool
  si_data :: bytes

text \<open>
  \<open>c_conn\<close> and \<open>c_connDone\<close> hold the number of the connection they belong to; \<open>c_rng\<close> is the
  position of the random source.
\<close>

record Client =
  c_url :: string
  c_token :: string
  c_nodeID :: string
  c_conn :: "nat option"
  c_done :: bool
  c_connDone :: "nat option"
  c_sendCh :: "sendItem list"
  c_reconnMax :: int
  c_encrypted :: bool
  c_aead :: "bytes option"
  c_keypair :: "KeyPair option"
  c_serverPub :: bytes
  c_hasKeypair :: bool
  c_rng :: nat

definition second_ns :: int where
  "second_ns = 10 ^ 9"

definition NewClient :: "string \<Rightarrow> string \<Rightarrow> string \<Rightarrow> int \<Rightarrow> Client" where
  "NewClient url token nodeID reconnMaxSec =
     \<lparr>c_url = url, c_token = token, c_nodeID = nodeID, c_conn = None, c_done = False,
      c_connDone = None, c_sendCh = [], c_reconnMax = wrap64 (reconnMaxSec * second_ns),
      c_encrypted = False, c_aead = None, c_keypair = None, c_serverPub = [],
      c_hasKeypair = False, c_rng = 0\<rparr>"

definition SetKeyPair :: "KeyPair option \<Rightarrow> Client \<Rightarrow> Client" where
  "SetKeyPair kp c = c\<lparr>c_keypair := kp, c_hasKeypair := (kp \<noteq> None)\<rparr>"

definition SetServerPubKey :: "bytes option \<Rightarrow> Client \<Rightarrow> Client" where
  "SetServerPubKey pub c = (case pub of None \<Rightarrow> c | Some b \<Rightarrow> c\<lparr>c_serverPub := b\<rparr>)"

definition HasServerPubKey :: "Client \<Rightarrow> bool" where
  "HasServerPubKey c \<longleftrightarrow> c_serverPub c \<noteq> []"

text \<open>When the AEAD cannot be made, \<open>c.aead\<close> has become nil and \<open>c.encrypted\<close> is as it was.\<close>

definition EnableEncryption :: "prims \<Rightarrow> bytes \<Rightarrow> Client \<Rightarrow> Client" where
  "EnableEncryption P key c =
     (case NewAEAD P key of
        Inl _ \<Rightarrow> c\<lparr>c_aead := None\<rparr>
      | Inr a \<Rightarrow> c\<lparr>c_aead := Some a, c_encrypted := True\<rparr>)"

definition IsEncrypted :: "Client \<Rightarrow> bool" where
  "IsEncrypted c = c_encrypted c"

definition send_capacity :: nat where
  "send_capacity = 256"

text \<open>The frame a message travels in: encrypted and binary once encryption is on, else plain text.\<close>

definition wire_item :: "prims \<Rightarrow> Client \<Rightarrow> Message \<Rightarrow> sendItem res" where
  "wire_item P c msg =
     (case (c_encrypted c, c_aead c) of
        (True, Some k) \<Rightarrow>
          (case Encrypt P k (c_rng c) (message_marshal msg) of
             Inl e \<Rightarrow> Inl (''encrypt: '' @ e)
           | Inr w \<Rightarrow> Inr \<lparr>si_binary = True, si_data = w\<rparr>)
      | _ \<Rightarrow> Inr \<lparr>si_binary = False, si_data = message_marshal msg\<rparr>)"

text \<open>
  \<open>Send\<close> in its two halves: the frame is made under the lock, and put into the channel after the
  lock is released.
\<close>

definition prepare :: "prims \<Rightarrow> Message \<Rightarrow> Client \<Rightarrow> sendItem res \<times> Client" where
  "prepare P msg c =
     (if c_conn c = None then (Inl ''not connected'', c)
      else
        (wire_item P c msg,
         c\<lparr>c_rng := (if c_encrypted c \<and> c_aead c \<noteq> None then Suc (c_rng c) else c_rng c)\<rparr>))"

definition enqueue :: "sendItem \<Rightarrow> Client \<Rightarrow> unit res \<times> Client" where
  "enqueue it c =
     (if length (c_sendCh c) < send_capacity
      then (Inr (), c\<lparr>c_sendCh := c_sendCh c @ [it]\<rparr>)
      else (Inl ''send buffer full'', c))"

definition Send :: "prims \<Rightarrow> Message \<Rightarrow> Client \<Rightarrow> unit res \<times> Client" where
  "Send P msg c =
     (case prepare P msg c of
        (Inl e, c) \<Rightarrow> (Inl e, c)
      | (Inr it, c) \<Rightarrow> enqueue it c)"

text \<open>
  The body of \<open>readLoop\<close> up to the call of the handler, for a frame of the transport: \<open>None\<close> is one
  of the \<open>continue\<close> statements.
\<close>

definition receive :: "prims \<Rightarrow> Client \<Rightarrow> sendItem \<Rightarrow> Message option" where
  "receive P c fr =
     (case (c_encrypted c, c_aead c) of
        (True, Some k) \<Rightarrow>
          if \<not> si_binary fr then None
          else (case Decrypt P k (si_data fr) of
                  Inl _ \<Rightarrow> None
                | Inr plain \<Rightarrow> message_unmarshal plain)
      | _ \<Rightarrow> message_unmarshal (si_data fr))"

text \<open>The headers of the handshake request.\<close>

definition use_token :: "Client \<Rightarrow> bool" where
  "use_token c =
     (let useToken = (c_token c \<noteq> []) in
      if c_hasKeypair c \<and> 0 < length (c_serverPub c)
      then (if c_token c = [] then False else True) else useToken)"

definition connect_headers :: "Client \<Rightarrow> (string \<times> string) list" where
  "connect_headers c =
     (''X-Node-ID'', c_nodeID c) # (if use_token c then [(''X-Agent-Token'', c_token c)] else [])"

type_synonym dialer = "string \<Rightarrow> (string \<times> string) list \<Rightarrow> nat \<Rightarrow> string option"

text \<open>\<open>connect\<close>: attempt number \<open>n\<close>, which names the connection when it succeeds.\<close>

definition connect :: "dialer \<Rightarrow> nat \<Rightarrow> Client \<Rightarrow> unit res \<times> Client" where
  "connect dial n c =
     (case dial (c_url c) (connect_headers c) n of
        Some e \<Rightarrow> (Inl (''dial: '' @ e), c)
      | None \<Rightarrow> (Inr (), c\<lparr>c_connDone := Some n, c_sendCh := [], c_conn := Some n\<rparr>))"

text \<open>What \<open>readLoop\<close> does when the connection \<open>n\<close> it reads fails.\<close>

definition read_error :: "nat \<Rightarrow> Client \<Rightarrow> Client" where
  "read_error n c =
     c\<lparr>c_connDone := (if c_connDone c = Some n then None else c_connDone c), c_conn := None\<rparr>"

text \<open>
  \<open>Close\<close> also closes the connection. What that does is left to the transport: in the connection loop a
  read, a write or a ping may fail at any time.
\<close>

definition ws_Close :: "Client \<Rightarrow> Client" where
  "ws_Close c = c\<lparr>c_done := True\<rparr>"

definition reset_encryption :: "Client \<Rightarrow> Client" where
  "reset_encryption c = c\<lparr>c_encrypted := False, c_aead := None\<rparr>"

text \<open>
  The source doubles the delay through a \<open>float64\<close>, which is exact for the delays below \<open>2 ^ 53\<close> nanoseconds that
  doubling from one second up to a maximum of the same range goes through.
\<close>

definition next_backoff :: "int \<Rightarrow> int \<Rightarrow> int" where
  "next_backoff reconnMax b = min (wrap64 (b * 2)) reconnMax"

section \<open>The connection loop\<close>

text \<open>
  Where \<open>Run\<close> is: at the top of the loop, waiting before the next attempt, in the key exchange
  handler, waiting for the reader after a failed exchange, waiting for the reader of a live
  connection, or returned. Beside it run the reader of the current connection, while \<open>reading\<close>
  holds, and its writer, while \<open>writing\<close> holds; \<open>wire\<close> are the frames written on the current
  connection, \<open>handled\<close> the messages given to the handler, \<open>slept\<close> the delays waited and
  \<open>in_flight\<close> the frames that senders have made but not yet put into the channel they saw, which
  is the channel of the current connection when its number is \<open>chan\<close>. The check for \<open>Close\<close> and the dial are one step:
  \<open>connect\<close> does not look at \<open>Close\<close>, so a call during the dial acts as one right after it.
\<close>

datatype pc = Top | Waiting | KeyX | Draining | Live | Returned

record run_state =
  client :: Client
  pc :: pc
  backoff :: int
  attempts :: nat
  reading :: bool
  writing :: bool
  wire :: "sendItem list"
  handled :: "Message list"
  slept :: "int list"
  chan :: nat
  in_flight :: "(nat \<times> sendItem) list"

definition run_init :: "Client \<Rightarrow> run_state" where
  "run_init c =
     \<lparr>client = c, pc = Top, backoff = second_ns, attempts = 0, reading = False, writing = False,
      wire = [], handled = [], slept = [], chan = 0, in_flight = []\<rparr>"

text \<open>
  One round of \<open>writeLoop\<close>: a frame is taken from the channel and written, or lost when writing fails, which ends the
  writer; every 30 seconds a ping is sent, and one that fails ends the writer, as does \<open>Close\<close>. The end
  of the connection ends it together with the reader.
\<close>

inductive writeLoop :: "run_state \<Rightarrow> run_state \<Rightarrow> bool" where
  written: "c_sendCh (client s) = it # its \<Longrightarrow>
    writeLoop s (s\<lparr>client := (client s)\<lparr>c_sendCh := its\<rparr>, wire := wire s @ [it]\<rparr>)"
| write_failed: "c_sendCh (client s) = it # its \<Longrightarrow>
    writeLoop s (s\<lparr>client := (client s)\<lparr>c_sendCh := its\<rparr>, writing := False\<rparr>)"
| pinged: "writeLoop s s"
| ping_failed: "writeLoop s (s\<lparr>writing := False\<rparr>)"
| told_to_stop: "c_done (client s) \<Longrightarrow> writeLoop s (s\<lparr>writing := False\<rparr>)"

inductive_cases writeLoopE: "writeLoop s s'"

inductive run_step :: "prims \<Rightarrow> dialer \<Rightarrow> run_state \<Rightarrow> run_state \<Rightarrow> bool" for P dial where
  stop_top: "pc s = Top \<Longrightarrow> c_done (client s) \<Longrightarrow> run_step P dial s (s\<lparr>pc := Returned\<rparr>)"
| dial_fails: "pc s = Top \<Longrightarrow> \<not> c_done (client s) \<Longrightarrow>
    connect dial (attempts s) (reset_encryption (client s)) = (Inl e, c) \<Longrightarrow>
    run_step P dial s (s\<lparr>client := c, attempts := Suc (attempts s), pc := Waiting\<rparr>)"
| waited: "pc s = Waiting \<Longrightarrow>
    run_step P dial s (s\<lparr>pc := Top, slept := slept s @ [backoff s],
      backoff := next_backoff (c_reconnMax (client s)) (backoff s)\<rparr>)"
| stop_waiting: "pc s = Waiting \<Longrightarrow> c_done (client s) \<Longrightarrow> run_step P dial s (s\<lparr>pc := Returned\<rparr>)"
| dial_succeeds: "pc s = Top \<Longrightarrow> \<not> c_done (client s) \<Longrightarrow>
    connect dial (attempts s) (reset_encryption (client s)) = (Inr (), c) \<Longrightarrow>
    run_step P dial s (s\<lparr>client := c, attempts := Suc (attempts s), pc := KeyX, backoff := second_ns,
      reading := True, writing := True, wire := [],
      chan := attempts s\<rparr>)"
| encrypt_on: "pc s = KeyX \<Longrightarrow>
    run_step P dial s (s\<lparr>client := EnableEncryption P key (client s)\<rparr>)"
| server_key: "pc s = KeyX \<Longrightarrow>
    run_step P dial s (s\<lparr>client := SetServerPubKey (Some pub) (client s)\<rparr>)"
| keyx_fails: "pc s = KeyX \<Longrightarrow> run_step P dial s (s\<lparr>pc := Draining\<rparr>)"
| keyx_done: "pc s = KeyX \<Longrightarrow> run_step P dial s (s\<lparr>pc := Live\<rparr>)"
| again: "pc s = Draining \<or> pc s = Live \<Longrightarrow> \<not> reading s \<Longrightarrow> run_step P dial s (s\<lparr>pc := Top\<rparr>)"
| read_frame: "reading s \<Longrightarrow>
    run_step P dial s (s\<lparr>handled := handled s @
      (case receive P (client s) fr of None \<Rightarrow> [] | Some msg \<Rightarrow> [msg])\<rparr>)"
| read_fails: "reading s \<Longrightarrow>
    run_step P dial s (s\<lparr>client := read_error (attempts s - 1) (client s), reading := False,
      writing := False\<rparr>)"
| writer: "writing s \<Longrightarrow> writeLoop s s' \<Longrightarrow> run_step P dial s s'"
| send_prepare: "prepare P msg (client s) = (Inr it, c) \<Longrightarrow>
    run_step P dial s (s\<lparr>client := c, in_flight := in_flight s @ [(chan s, it)]\<rparr>)"
| send_enqueue: "in_flight s = xs @ (n, it) # ys \<Longrightarrow>
    run_step P dial s (s\<lparr>in_flight := xs @ ys,
      client := (if n = chan s then snd (enqueue it (client s)) else client s)\<rparr>)"
| close: "run_step P dial s (s\<lparr>client := ws_Close (client s)\<rparr>)"

section \<open>Messages survive the trip\<close>

definition message_ok :: "Message \<Rightarrow> bool" where
  "message_ok m \<longleftrightarrow>
     utf8_valid (m_Type m) \<and> utf8_valid (m_ID m) \<and> utf8_valid (m_Error m) \<and>
     (case m_Payload m of None \<Rightarrow> True | Some j \<Rightarrow> jwf j)"

lemma message_dec_json: "message_dec (message_json m) = Some m"
  by (cases "m_Payload m"; cases "m_Success m")
    (simp_all add: message_dec_def message_json_def omit_empty_def get_field_def jfield_def upper_char_def)

interpretation message_text: codec message_marshal message_unmarshal message_ok
proof
  fix m assume "message_ok m"
  then have "jwf (message_json m)"
    by (auto simp: message_ok_def message_json_def omit_empty_def split: option.splits)
  then show "message_unmarshal (message_marshal m) = Some m"
    by (simp add: message_marshal_def message_unmarshal_def json_text.dec_enc message_dec_json)
qed

section \<open>Frames\<close>

definition secure :: "Client \<Rightarrow> bool" where
  "secure c \<longleftrightarrow> c_encrypted c \<and> c_aead c \<noteq> None"

lemma wire_item_cases:
  "\<not> secure c \<Longrightarrow> wire_item P c msg = Inr \<lparr>si_binary = False, si_data = message_marshal msg\<rparr>"
  "secure c \<Longrightarrow> wire_item P c msg =
     (case Encrypt P (the (c_aead c)) (c_rng c) (message_marshal msg) of
        Inl e \<Rightarrow> Inl (''encrypt: '' @ e)
      | Inr w \<Rightarrow> Inr \<lparr>si_binary = True, si_data = w\<rparr>)"
  by (auto simp: wire_item_def secure_def split: bool.splits option.splits)

lemma receive_cases:
  "\<not> secure c \<Longrightarrow> receive P c fr = message_unmarshal (si_data fr)"
  "secure c \<Longrightarrow> receive P c fr =
     (if si_binary fr then
        (case Decrypt P (the (c_aead c)) (si_data fr) of Inl _ \<Rightarrow> None | Inr p \<Rightarrow> message_unmarshal p)
      else None)"
  by (auto simp: receive_def secure_def split: bool.splits option.splits)

text \<open>A frame made by one side is what the other side reads, when both have the same session.\<close>

lemma receive_wire_item:
  assumes "aead_laws P" "message_ok msg" "wire_item P c msg = Inr it"
    and "secure c = secure d" "secure c \<Longrightarrow> c_aead d = c_aead c"
  shows "receive P d it = Some msg" "si_binary it = secure c"
proof -
  have "receive P d it = Some msg \<and> si_binary it = secure c"
  proof (cases "secure c")
    case False
    with assms(2-4) show ?thesis
      by (auto simp: wire_item_cases receive_cases message_text.dec_enc)
  next
    case True
    with assms(3) obtain w where w: "Encrypt P (the (c_aead c)) (c_rng c) (message_marshal msg) = Inr w"
      "it = \<lparr>si_binary = True, si_data = w\<rparr>"
      by (auto simp: wire_item_cases split: sum.splits)
    from Encrypt_shape [OF assms(1) w(1)] assms(1)
    have "Decrypt P (the (c_aead c)) w = Inr (message_marshal msg)"
      by (auto simp: Decrypt_def aead_laws_def)
    with True w(2) assms(2,4,5) show ?thesis
      by (simp add: receive_cases message_text.dec_enc)
  qed
  then show "receive P d it = Some msg" "si_binary it = secure c" by simp_all
qed

lemma prepare_frame:
  assumes "prepare P msg c = (r, c')"
  shows "c_sendCh c' = c_sendCh c" "c_conn c' = c_conn c" "secure c' = secure c"
    "c_aead c' = c_aead c" "c_encrypted c' = c_encrypted c" "c_reconnMax c' = c_reconnMax c"
    "c_serverPub c' = c_serverPub c" "c_done c' = c_done c"
  using assms by (auto simp: prepare_def secure_def split: if_splits)

lemma enqueue_frame:
  assumes "enqueue it c = (r, c')"
  shows "c_conn c' = c_conn c" "secure c' = secure c" "c_aead c' = c_aead c"
    "c_encrypted c' = c_encrypted c" "c_reconnMax c' = c_reconnMax c"
    "c_sendCh c' = (if is_ok r then c_sendCh c @ [it] else c_sendCh c)"
    "is_ok r \<longleftrightarrow> length (c_sendCh c) < send_capacity" "c_serverPub c' = c_serverPub c"
  using assms by (auto simp: enqueue_def secure_def split: if_splits)

text \<open>\<open>Send\<close> queues one frame or leaves the queue as it is.\<close>

lemma Send_run:
  assumes "Send P msg c = (r, c')"
  shows "c_conn c' = c_conn c" "secure c' = secure c" "c_aead c' = c_aead c"
    "if is_ok r then \<exists>it. wire_item P c msg = Inr it \<and> c_sendCh c' = c_sendCh c @ [it]
     else c_sendCh c' = c_sendCh c"
    "is_ok r \<Longrightarrow> c_conn c \<noteq> None \<and> length (c_sendCh c) < send_capacity"
    "c_serverPub c' = c_serverPub c"
proof -
  obtain q c1 where p: "prepare P msg c = (q, c1)" by fastforce
  note f = prepare_frame [OF p]
  have "c_conn c' = c_conn c \<and> secure c' = secure c \<and> c_aead c' = c_aead c \<and>
    (if is_ok r then \<exists>it. wire_item P c msg = Inr it \<and> c_sendCh c' = c_sendCh c @ [it]
     else c_sendCh c' = c_sendCh c) \<and>
    (is_ok r \<longrightarrow> c_conn c \<noteq> None \<and> length (c_sendCh c) < send_capacity) \<and>
    c_serverPub c' = c_serverPub c"
  proof (cases q)
    case (Inl e)
    with assms p f show ?thesis by (auto simp: Send_def)
  next
    case (Inr it)
    with p have it: "wire_item P c msg = Inr it" "c_conn c \<noteq> None"
      by (auto simp: prepare_def split: if_splits)
    from assms p Inr have "enqueue it c1 = (r, c')" by (simp add: Send_def)
    from enqueue_frame [OF this] f it show ?thesis by auto
  qed
  then show "c_conn c' = c_conn c" "secure c' = secure c" "c_aead c' = c_aead c"
    "if is_ok r then \<exists>it. wire_item P c msg = Inr it \<and> c_sendCh c' = c_sendCh c @ [it]
     else c_sendCh c' = c_sendCh c"
    "is_ok r \<Longrightarrow> c_conn c \<noteq> None \<and> length (c_sendCh c) < send_capacity"
    "c_serverPub c' = c_serverPub c"
    by simp_all
qed

section \<open>Invariant of the connection loop\<close>

definition reconn_ok :: "int \<Rightarrow> bool" where
  "reconn_ok m \<longleftrightarrow> second_ns \<le> m \<and> m < 2 ^ 62"

definition run_ok :: "run_state \<Rightarrow> bool" where
  "run_ok s \<longleftrightarrow>
     reconn_ok (c_reconnMax (client s)) \<and>
     second_ns \<le> backoff s \<and> backoff s \<le> c_reconnMax (client s) \<and>
     (\<forall>d \<in> set (slept s). second_ns \<le> d \<and> d \<le> c_reconnMax (client s)) \<and>
     length (c_sendCh (client s)) \<le> send_capacity \<and>
     (pc s = Top \<or> pc s = Waiting \<or> pc s = Returned \<longrightarrow> \<not> reading s) \<and>
     (pc s = Waiting \<longrightarrow> \<not> c_encrypted (client s))"

lemma next_backoff_bounds:
  assumes "reconn_ok m" "second_ns \<le> b" "b \<le> m"
  shows "second_ns \<le> next_backoff m b" "next_backoff m b \<le> m" "next_backoff m b = min (2 * b) m"
proof -
  have "int64_range (b * 2)"
    using assms by (auto simp: int64_range_def reconn_ok_def second_ns_def)
  then have "wrap64 (b * 2) = b * 2" by (rule wrap64_id)
  with assms show "second_ns \<le> next_backoff m b" "next_backoff m b \<le> m"
    "next_backoff m b = min (2 * b) m"
    by (auto simp: next_backoff_def reconn_ok_def second_ns_def)
qed

lemma connect_frame:
  assumes "connect dial n c = (r, c')"
  shows "c_reconnMax c' = c_reconnMax c" "c_encrypted c' = c_encrypted c" "c_aead c' = c_aead c"
    "c_sendCh c' = (if is_ok r then [] else c_sendCh c)" "is_ok r \<Longrightarrow> c_conn c' = Some n"
  using assms by (auto simp: connect_def split: option.splits)

lemma connect_headers_reset [simp]: "connect_headers (reset_encryption c) = connect_headers c"
  by (simp add: connect_headers_def use_token_def reset_encryption_def Let_def cong: if_cong)

lemma reset_encryption_url [simp]: "c_url (reset_encryption c) = c_url c"
  by (simp add: reset_encryption_def)

lemmas client_ops = reset_encryption_def EnableEncryption_def SetServerPubKey_def read_error_def
  ws_Close_def

interpretation run_loop: preserved "run_step P dial" run_ok for P dial
proof
  fix s t assume ok: "run_ok s" and "run_step P dial s t"
  from this(2) show "run_ok t"
  proof (cases rule: run_step.cases)
    case (dial_fails e c)
    with ok connect_frame [OF dial_fails(4)] show ?thesis
      by (auto simp: run_ok_def client_ops)
  next
    case waited
    with ok next_backoff_bounds [of "c_reconnMax (client s)" "backoff s"] show ?thesis
      by (auto simp: run_ok_def)
  next
    case (dial_succeeds c)
    with ok connect_frame [OF dial_succeeds(4)] show ?thesis
      by (auto simp: run_ok_def reconn_ok_def client_ops)
  next
    case writer
    from writer(2) ok show ?thesis by (elim writeLoopE) (auto simp: run_ok_def)
  next
    case (send_prepare msg it c)
    with ok prepare_frame [OF send_prepare(2)] show ?thesis by (simp add: run_ok_def)
  next
    case (send_enqueue xs n it ys)
    obtain r c where e: "enqueue it (client s) = (r, c)" by fastforce
    with ok send_enqueue enqueue_frame [OF e] show ?thesis by (auto simp: run_ok_def)
  qed (use ok in \<open>auto simp: run_ok_def client_ops split: sum.splits\<close>)
qed

section \<open>Properties\<close>

text \<open>
  C14: in every state the connection loop reaches, whatever the network and the senders do, the
  reconnect delay and all delays waited so far lie between one second and the configured maximum,
  the send queue holds at most 256 frames, and the loop never waits with encryption on or
  starts an attempt while the reader of an older connection is still running.
\<close>

theorem run_loop_safe:
  assumes "reconn_ok (c_reconnMax c)" "c_sendCh c = []" "\<not> c_encrypted c"
    and "(run_step P dial)\<^sup>*\<^sup>* (run_init c) s"
  shows "second_ns \<le> backoff s \<and> backoff s \<le> c_reconnMax (client s) \<and>
    (\<forall>d \<in> set (slept s). second_ns \<le> d \<and> d \<le> c_reconnMax (client s)) \<and>
    length (c_sendCh (client s)) \<le> send_capacity \<and>
    (pc s = Top \<or> pc s = Waiting \<longrightarrow> \<not> reading s) \<and> (pc s = Waiting \<longrightarrow> \<not> c_encrypted (client s))"
proof -
  have "run_ok (run_init c)"
    using assms(1-3) by (simp add: run_ok_def run_init_def reconn_ok_def)
  from run_loop.reach_inv [OF assms(4) this] show ?thesis unfolding run_ok_def by blast
qed

definition demo_client :: Client where
  "demo_client = NewClient ''wss://center'' ''tok'' ''node1'' 60"

lemma demo_client_ok: "reconn_ok (c_reconnMax demo_client)"
  by (simp add: demo_client_def NewClient_def reconn_ok_def second_ns_def wrap64_def)

lemma run_loop_safe_witness:
  "\<exists>s. (run_step toy_prims (\<lambda>u h n. Some ''refused''))\<^sup>*\<^sup>* (run_init demo_client) s \<and>
     slept s = [second_ns] \<and> backoff s \<le> c_reconnMax (client s)"
proof -
  let ?dial = "\<lambda>u h n. Some ''refused''"
  define s where "s = run_init demo_client"
  define s1 where "s1 = s\<lparr>client := reset_encryption demo_client, attempts := 1, pc := Waiting\<rparr>"
  define s2 where "s2 = s1\<lparr>pc := Top, slept := slept s1 @ [backoff s1],
    backoff := next_backoff (c_reconnMax (client s1)) (backoff s1)\<rparr>"
  have s: "pc s = Top" "client s = demo_client" "attempts s = 0" "slept s = []" "backoff s = second_ns"
    by (simp_all add: s_def run_init_def)
  have c: "\<not> c_done demo_client" "\<not> c_encrypted demo_client" "c_sendCh demo_client = []"
    by (simp_all add: demo_client_def NewClient_def)
  have "connect ?dial (attempts s) (reset_encryption (client s)) =
      (Inl ''dial: refused'', reset_encryption demo_client)"
    by (simp add: connect_def s)
  from dial_fails [OF s(1) _ this, of toy_prims] c(1) have "run_step toy_prims ?dial s s1"
    by (simp add: s1_def s)
  moreover have "run_step toy_prims ?dial s1 s2"
    unfolding s2_def by (rule waited) (simp add: s1_def)
  ultimately have reach: "(run_step toy_prims ?dial)\<^sup>*\<^sup>* (run_init demo_client) s2"
    unfolding s_def by (meson converse_rtranclp_into_rtranclp r_into_rtranclp)
  from run_loop_safe [OF demo_client_ok c(3,2) reach] reach show ?thesis
    by (intro exI [of _ s2]) (simp add: s2_def s1_def s)
qed

text \<open>
  C16: \<open>Send\<close> on a connected client with room in its queue adds exactly one frame, and a peer with
  the same session reads the message back from it. The frame is binary and encrypted when
  encryption is on and plain text when it is not.
\<close>

theorem send_then_receive:
  assumes "aead_laws P" "message_ok msg" "Send P msg c = (Inr (), c')"
    and "secure d = secure c" "secure c \<longrightarrow> c_aead d = c_aead c"
  shows "\<exists>it. c_sendCh c' = c_sendCh c @ [it] \<and> si_binary it = secure c \<and> receive P d it = Some msg"
  using Send_run(4) [OF assms(3)] receive_wire_item [OF assms(1,2), of c _ d] assms(4,5) by auto

definition demo_live :: Client where
  "demo_live = EnableEncryption toy_prims ''k'' (demo_client\<lparr>c_conn := Some 0\<rparr>)"

definition demo_msg :: Message where
  "demo_msg = \<lparr>m_Type = ''peers.sync'', m_ID = [], m_Payload = None, m_Success = None, m_Error = []\<rparr>"

lemma demo_msg_ok: "message_ok demo_msg"
  by (simp add: message_ok_def demo_msg_def)

lemma demo_live_simps:
  "c_conn demo_live = Some 0" "c_encrypted demo_live" "c_aead demo_live = Some ''k''"
  "c_sendCh demo_live = []" "secure demo_live"
  by (simp_all add: demo_live_def demo_client_def NewClient_def EnableEncryption_def NewAEAD_def
      toy_prims_def secure_def)

lemma demo_send: "fst (Send toy_prims demo_msg demo_live) = Inr ()"
  by (simp add: Send_def prepare_def wire_item_def demo_live_simps Encrypt_def toy_prims_def
      enqueue_def send_capacity_def)

lemma send_then_receive_witness:
  "\<exists>it. c_sendCh (snd (Send toy_prims demo_msg demo_live)) = [it] \<and> si_binary it \<and>
     receive toy_prims demo_live it = Some demo_msg"
proof -
  have "Send toy_prims demo_msg demo_live = (Inr (), snd (Send toy_prims demo_msg demo_live))"
    using demo_send by (simp add: prod_eq_iff)
  from send_then_receive [OF toy_aead_laws demo_msg_ok this, of demo_live] show ?thesis
    by (simp add: demo_live_simps)
qed

text \<open>
  C17: once encryption is on, the handler sees a message only if its frame was binary and the cipher
  accepted it under the session key; anything else is dropped.
\<close>

theorem receive_only_authentic:
  assumes "secure c" "receive P c fr = Some msg"
  shows "si_binary fr \<and> (\<exists>plain. Decrypt P (the (c_aead c)) (si_data fr) = Inr plain \<and>
    message_unmarshal plain = Some msg)"
  using assms by (auto simp: receive_cases split: if_splits sum.splits)

lemma receive_only_authentic_witness:
  "receive toy_prims demo_live \<lparr>si_binary = False, si_data = message_marshal demo_msg\<rparr> = None"
proof (rule ccontr)
  assume "\<not> ?thesis"
  then obtain m where "receive toy_prims demo_live \<lparr>si_binary = False, si_data = message_marshal demo_msg\<rparr> = Some m"
    by auto
  from receive_only_authentic [OF demo_live_simps(5) this] show False by simp
qed

text \<open>
  C38: before encryption is on, a message of any type in a plain frame reaches the handler; the
  reader does not restrict it to the key exchange.
\<close>

theorem plaintext_reaches_handler:
  assumes "message_ok msg" "\<not> secure (client s)" "reading s"
  shows "\<exists>t. run_step P dial s t \<and> handled t = handled s @ [msg] \<and> client t = client s"
proof -
  let ?fr = "\<lparr>si_binary = False, si_data = message_marshal msg\<rparr>"
  have "receive P (client s) ?fr = Some msg"
    using assms(1,2) by (simp add: receive_cases message_text.dec_enc)
  with read_frame [OF assms(3), of P dial ?fr] show ?thesis by auto
qed

lemma plaintext_reaches_handler_witness:
  "\<exists>t. run_step toy_prims (\<lambda>u h n. None) ((run_init demo_client)\<lparr>reading := True\<rparr>) t \<and>
     map m_Type (handled t) = [''peers.sync'']"
  using plaintext_reaches_handler [OF demo_msg_ok, of "(run_init demo_client)\<lparr>reading := True\<rparr>" toy_prims]
  by (fastforce simp: secure_def run_init_def demo_client_def NewClient_def demo_msg_def)

text \<open>
  The backoff is reset by a successful dial and stays so until the next failed one; and between the end of a
  connection and the next attempt the loop is never in its wait.
\<close>

definition fresh_backoff :: "run_state \<Rightarrow> bool" where
  "fresh_backoff s \<longleftrightarrow> (pc s = KeyX \<or> pc s = Draining \<or> pc s = Live \<longrightarrow> backoff s = second_ns)"

interpretation backoff_reset: preserved "run_step P dial" fresh_backoff for P dial
proof
  fix s t assume ok: "fresh_backoff s" and "run_step P dial s t"
  from this(2) show "fresh_backoff t"
  proof (cases rule: run_step.cases)
    case writer
    from writer(2) ok show ?thesis by (elim writeLoopE) (auto simp: fresh_backoff_def)
  qed (use ok in \<open>auto simp: fresh_backoff_def\<close>)
qed

definition redialling :: "nat \<Rightarrow> int list \<Rightarrow> run_state \<Rightarrow> bool" where
  "redialling n d s \<longleftrightarrow>
     n < attempts s \<or> attempts s = n \<and> pc s \<in> {Draining, Live, Top, Returned} \<and> slept s = d"

interpretation redial: preserved "run_step P dial" "redialling n d" for P dial n d
proof
  fix s t assume ok: "redialling n d s" and "run_step P dial s t"
  from this(2) show "redialling n d t"
  proof (cases rule: run_step.cases)
    case writer
    from writer(2) ok show ?thesis by (elim writeLoopE) (auto simp: redialling_def)
  qed (use ok in \<open>auto simp: redialling_def\<close>)
qed

lemma redial_possible:
  assumes "pc s = Draining \<or> pc s = Live" "\<not> reading s" "\<not> c_done (client s)"
  shows "\<exists>t. (run_step P dial)\<^sup>*\<^sup>* s t \<and> attempts t = Suc (attempts s) \<and> slept t = slept s"
proof -
  let ?s1 = "s\<lparr>pc := Top\<rparr>"
  have one: "(run_step P dial)\<^sup>*\<^sup>* s ?s1" by (rule r_into_rtranclp, rule again [OF assms(1,2)])
  obtain r c where con: "connect dial (attempts ?s1) (reset_encryption (client ?s1)) = (r, c)" by fastforce
  have "\<exists>t. run_step P dial ?s1 t \<and> attempts t = Suc (attempts s) \<and> slept t = slept s"
  proof (cases r)
    case (Inl e)
    with con dial_fails [of ?s1 dial e c P] assms(3) show ?thesis by fastforce
  next
    case (Inr u)
    with con dial_succeeds [of ?s1 dial c P] assms(3) show ?thesis by fastforce
  qed
  then show ?thesis using one by (meson rtranclp.rtrancl_into_rtrancl)
qed

text \<open>
  C39: a connection that was made, whether its key exchange failed or it was live, is followed by the next
  attempt at once. The delay has been set back to one second; whatever happens until the next attempt, no delay is
  waited before it; and once the reader has stopped, a client that is not closed can make that attempt.
\<close>

theorem reconnect_without_delay:
  assumes "(run_step P dial)\<^sup>*\<^sup>* (run_init c) s" "pc s = Draining \<or> pc s = Live"
  shows "backoff s = second_ns \<and>
    (\<forall>t. (run_step P dial)\<^sup>*\<^sup>* s t \<longrightarrow> attempts t = attempts s \<longrightarrow> slept t = slept s) \<and>
    (\<not> reading s \<longrightarrow> \<not> c_done (client s) \<longrightarrow>
       (\<exists>t. (run_step P dial)\<^sup>*\<^sup>* s t \<and> attempts t = Suc (attempts s) \<and> slept t = slept s))"
proof -
  have "fresh_backoff s"
    by (rule backoff_reset.reach_inv [OF assms(1)]) (simp add: fresh_backoff_def run_init_def)
  then have "backoff s = second_ns" using assms(2) by (auto simp: fresh_backoff_def)
  moreover have "slept t = slept s" if "(run_step P dial)\<^sup>*\<^sup>* s t" "attempts t = attempts s" for t
  proof -
    have "redialling (attempts s) (slept s) t"
      by (rule redial.reach_inv [OF that(1)]) (use assms(2) in \<open>auto simp: redialling_def\<close>)
    then show ?thesis using that(2) by (simp add: redialling_def)
  qed
  ultimately show ?thesis using redial_possible [OF assms(2)] by blast
qed

definition demo_run :: run_state where
  "demo_run = (run_init demo_client)\<lparr>client := snd (connect (\<lambda>u h n. None) 0 (reset_encryption demo_client)),
     attempts := 1, reading := True, writing := True, pc := Live\<rparr>"

lemma demo_run_reached: "(run_step toy_prims (\<lambda>u h n. None))\<^sup>*\<^sup>* (run_init demo_client) demo_run"
proof -
  let ?dial = "\<lambda>u h n. None" and ?s = "demo_run\<lparr>pc := KeyX\<rparr>"
  obtain c where c: "connect ?dial 0 (reset_encryption demo_client) = (Inr (), c)" by (simp add: connect_def)
  have "run_step toy_prims ?dial (run_init demo_client) ?s"
    using dial_succeeds [of "run_init demo_client" ?dial c toy_prims] c
    by (simp add: run_init_def demo_run_def demo_client_def NewClient_def)
  moreover have "run_step toy_prims ?dial ?s demo_run"
    using keyx_done [of ?s toy_prims ?dial] by (simp add: demo_run_def)
  ultimately show ?thesis by (meson rtranclp.rtrancl_into_rtrancl rtranclp.rtrancl_refl)
qed

lemma reconnect_without_delay_witness:
  "(run_step toy_prims (\<lambda>u h n. None))\<^sup>*\<^sup>* (run_init demo_client) demo_run \<and> backoff demo_run = second_ns \<and>
   {slept t |t. (run_step toy_prims (\<lambda>u h n. None))\<^sup>*\<^sup>* demo_run t \<and> attempts t = 1} = {[]}"
proof -
  let ?R = "(run_step toy_prims (\<lambda>u h n. None))\<^sup>*\<^sup>*"
  have start: "pc demo_run = Live" "attempts demo_run = 1" "slept demo_run = []" by (simp_all add: demo_run_def run_init_def)
  note next_attempt = reconnect_without_delay [OF demo_run_reached disjI2 [OF start(1)]]
  have "slept t = []" if "?R demo_run t" "attempts t = 1" for t
    using next_attempt [THEN conjunct2, THEN conjunct1, rule_format, OF that(1)] that(2) start by simp
  then have "{slept t |t. ?R demo_run t \<and> attempts t = 1} \<subseteq> {[]}" by blast
  moreover have "[] \<in> {slept t |t. ?R demo_run t \<and> attempts t = 1}"
    using start(2,3) rtranclp.rtrancl_refl [of _ demo_run] by force
  ultimately show ?thesis using demo_run_reached next_attempt [THEN conjunct1] by blast
qed

section \<open>The loop ends after Close\<close>

text \<open>How many steps of its own \<open>Run\<close> can still take once the client is closed.\<close>

fun steps_left :: "pc \<Rightarrow> nat" where
  "steps_left KeyX = 3"
| "steps_left Draining = 2"
| "steps_left Live = 2"
| "steps_left Waiting = 2"
| "steps_left Top = 1"
| "steps_left Returned = 0"

lemma client_done [simp]:
  "c_done (reset_encryption c) = c_done c" "c_done (EnableEncryption P k c) = c_done c"
  "c_done (SetServerPubKey pub c) = c_done c" "c_done (read_error n c) = c_done c" "c_done (ws_Close c)"
  by (auto simp: client_ops split: sum.splits option.splits)

lemma closed_step:
  assumes "run_step P dial s t" "c_done (client s)"
  shows "c_done (client t)" "attempts t = attempts s" "pc t = pc s \<or> steps_left (pc t) < steps_left (pc s)"
proof -
  have "c_done (client t) \<and> attempts t = attempts s \<and> (pc t = pc s \<or> steps_left (pc t) < steps_left (pc s))"
    using assms(1)
  proof (cases rule: run_step.cases)
    case writer
    from writer(2) assms(2) show ?thesis by (elim writeLoopE) auto
  next
    case (send_prepare msg it c)
    then show ?thesis using assms(2) by (auto simp: prepare_def split: if_splits)
  next
    case (send_enqueue xs n it ys)
    then show ?thesis using assms(2) by (auto simp: enqueue_def)
  qed (use assms(2) in auto)
  then show "c_done (client t)" "attempts t = attempts s" "pc t = pc s \<or> steps_left (pc t) < steps_left (pc s)"
    by simp_all
qed

interpretation closed_loop: preserved "run_step P dial" "\<lambda>s. c_done (client s) \<and> attempts s = n \<and> steps_left (pc s) \<le> k"
  for P dial n k
  by unfold_locales (use closed_step in fastforce)

text \<open>
  C15: after \<open>Close\<close> the connection loop ends. It dials no further connection, every step that it takes
  itself brings it closer to its end, so that it takes at most three, and as long as it has not returned it can take one as
  soon as the reader of the last connection has stopped.
\<close>

theorem closed_run_ends:
  assumes "c_done (client s)" "(run_step P dial)\<^sup>*\<^sup>* s t"
  shows "attempts t = attempts s \<and> steps_left (pc t) \<le> steps_left (pc s) \<and> steps_left (pc s) \<le> 3 \<and>
    (\<forall>u. run_step P dial t u \<longrightarrow> pc u = pc t \<or> steps_left (pc u) < steps_left (pc t)) \<and>
    (\<not> reading t \<longrightarrow> pc t \<noteq> Returned \<longrightarrow> (\<exists>u. run_step P dial t u \<and> steps_left (pc u) < steps_left (pc t)))"
proof -
  have t: "c_done (client t)" "attempts t = attempts s" "steps_left (pc t) \<le> steps_left (pc s)"
    using closed_loop.reach_inv [OF assms(2), of "attempts s" "steps_left (pc s)"] assms(1) by simp_all
  have goes_on: "\<exists>u. run_step P dial t u \<and> steps_left (pc u) < steps_left (pc t)" if "\<not> reading t" "pc t \<noteq> Returned"
  proof (cases "pc t")
    case Top
    then show ?thesis using stop_top [OF _ t(1), of P dial] by force
  next
    case Waiting
    then show ?thesis using stop_waiting [OF _ t(1), of P dial] by force
  next
    case KeyX
    then show ?thesis using keyx_done [of t P dial] by force
  next
    case Draining
    then show ?thesis using again [of t P dial] that by force
  next
    case Live
    then show ?thesis using again [of t P dial] that by force
  qed (use that in simp)
  have "steps_left (pc s) \<le> 3" by (cases "pc s") simp_all
  with t goes_on closed_step(3) [OF _ t(1), of P dial] show ?thesis by blast
qed

lemma closed_run_ends_witness:
  "attempts ((run_init (ws_Close demo_client))\<lparr>pc := Live\<rparr>) = 0 \<and>
     (\<exists>u. run_step toy_prims (\<lambda>u h n. None) ((run_init (ws_Close demo_client))\<lparr>pc := Live\<rparr>) u \<and> steps_left (pc u) < 2)"
  using closed_run_ends [of "(run_init (ws_Close demo_client))\<lparr>pc := Live\<rparr>" toy_prims "\<lambda>u h n. None", OF _ rtranclp.rtrancl_refl]
  by (simp add: run_init_def)

end
