(* ===== verification/Agent.thy ===== *)
theory Agent
  imports Store Wg Bird Ws
begin

text \<open>
  What the message handlers of \<open>src/internal/handler\<close> share: the environment they run in, which
  bundles the parameters of the model with the handler's configuration, the state they change, the
  payload decoders, and \<open>sendResponse\<close>. \<open>main\<close> installs the WebSocket client in the handler
  before the first message can arrive, so the nil check of \<open>sendResponse\<close> never fires and the client
  is part of the state.
\<close>

section \<open>Environment and state\<close>

text \<open>
  The parameters: the machine, the database, the cryptographic primitives, the clock, the text of
  the errors of \<open>encoding/json\<close> for a target type and an input, the resolver, the general
  \<open>strconv.ParseFloat\<close>, the error of \<open>http.NewRequest\<close> on a URL, the answer to an HTTP request (an error, or a status, the body read and whether
  reading it failed), the order in which \<open>range\<close> walks a map, and the path of the executable.
  The rest are the fields of \<open>handler.Handler\<close>.
\<close>

record http_answer =
  ha_status :: int
  ha_body :: string
  ha_read_err :: "string option"

record 'db env =
  eOs :: os
  eBolt :: "'db bolt"
  ePrims :: prims
  eClock :: "host \<Rightarrow> clock"
  eJsonErr :: "string \<Rightarrow> json option \<Rightarrow> string"
  eResolve :: "string \<Rightarrow> host \<Rightarrow> ip list res"
  eParseFloat :: "string \<Rightarrow> gofloat \<times> num_err option"
  eNewRequest :: "string \<Rightarrow> string option"
  eHttp :: "string \<Rightarrow> (string \<times> string) list \<Rightarrow> host \<Rightarrow> http_answer res"
  eRange :: "(string \<times> PeerInfo) list \<Rightarrow> (string \<times> PeerInfo) list"
  eExecPath :: string
  eTempName :: "string \<Rightarrow> host \<Rightarrow> string"
  eWg :: wg_Manager
  eBird :: bird_Manager
  eToken :: string
  eKey :: "KeyPair option"

text \<open>How the process ends: replaced by the program at a path, or exited with a status.\<close>

datatype process_end = Execed string | Exited int

text \<open>
  \<open>a_pending\<close> is the channel \<open>pendingKeyX\<close> of capacity one, \<open>None\<close> when it is nil; \<open>a_blocked\<close>
  says that the goroutine that handles messages waits forever on a full channel.
\<close>

record 'db agent =
  a_host :: host
  a_db :: 'db
  a_ws :: Client
  a_pending :: "Message list option"
  a_blocked :: bool
  a_end :: "process_end option"

definition on_host :: "(host \<Rightarrow> 'a \<times> host) \<Rightarrow> 'db agent \<Rightarrow> 'a \<times> 'db agent" where
  "on_host f st = (case f (a_host st) of (r, h) \<Rightarrow> (r, st\<lparr>a_host := h\<rparr>))"

definition on_db :: "('db \<Rightarrow> 'a \<times> 'db) \<Rightarrow> 'db agent \<Rightarrow> 'a \<times> 'db agent" where
  "on_db f st = (case f (a_db st) of (r, db) \<Rightarrow> (r, st\<lparr>a_db := db\<rparr>))"

definition on_ws :: "(Client \<Rightarrow> 'a \<times> Client) \<Rightarrow> 'db agent \<Rightarrow> 'a \<times> 'db agent" where
  "on_ws f st = (case f (a_ws st) of (r, c) \<Rightarrow> (r, st\<lparr>a_ws := c\<rparr>))"

section \<open>Responses\<close>

definition response_msg :: "string \<Rightarrow> bool \<Rightarrow> string \<Rightarrow> Message" where
  "response_msg msgID success message =
     \<lparr>m_Type = ''response'', m_ID = msgID,
      m_Payload = (if message \<noteq> [] then Some (JObj [(''message'', JStr message)]) else None),
      m_Success = (if success then Some True else None),
      m_Error = (if success then [] else message)\<rparr>"

definition payload_msg :: "string \<Rightarrow> bool option \<Rightarrow> json \<Rightarrow> Message" where
  "payload_msg msgID success j =
     \<lparr>m_Type = ''response'', m_ID = msgID, m_Payload = Some j, m_Success = success, m_Error = []\<rparr>"

definition send_msg :: "'db env \<Rightarrow> Message \<Rightarrow> 'db agent \<Rightarrow> 'db agent" where
  "send_msg E m st = snd (on_ws (Send (ePrims E) m) st)"

definition sendResponse :: "'db env \<Rightarrow> string \<Rightarrow> bool \<Rightarrow> string \<Rightarrow> 'db agent \<Rightarrow> 'db agent" where
  "sendResponse E msgID success message st = send_msg E (response_msg msgID success message) st"

definition sendResponseChecked ::
    "'db env \<Rightarrow> string \<Rightarrow> bool \<Rightarrow> string \<Rightarrow> 'db agent \<Rightarrow> unit res \<times> 'db agent" where
  "sendResponseChecked E msgID success message st =
     on_ws (Send (ePrims E) (response_msg msgID success message)) st"

definition RequestSync :: "'db env \<Rightarrow> 'db agent \<Rightarrow> 'db agent" where
  "RequestSync E st =
     send_msg E \<lparr>m_Type = ''peers.sync'', m_ID = [], m_Payload = None, m_Success = None,
                 m_Error = []\<rparr> st"

section \<open>Payloads\<close>

text \<open>\<open>json.Unmarshal(msg.Payload, ...)\<close>: an absent payload is the empty text, which is an error.\<close>

definition unmarshal :: "(json \<Rightarrow> 'a option) \<Rightarrow> json option \<Rightarrow> 'a option" where
  "unmarshal dec p = Option.bind p dec"

definition invalid_payload :: "'db env \<Rightarrow> string \<Rightarrow> Message \<Rightarrow> string" where
  "invalid_payload E ty msg = ''invalid payload: '' @ eJsonErr E ty (m_Payload msg)"

record PeerAddPayload =
  pa_PeerID :: string
  pa_ASN :: int
  pa_RemoteWgPubkey :: string
  pa_RemoteEndpoint :: string
  pa_RemoteLLA :: string
  pa_ListenPort :: int
  pa_WgInterface :: string
  pa_MTU :: "int option"
  pa_WgPreSharedKey :: "string option"

definition peer_add_dec :: "json \<Rightarrow> PeerAddPayload option" where
  "peer_add_dec j =
     Option.bind (members j) (\<lambda>ms.
     Option.bind (get_field dec_string [] ''peer_id'' ms) (\<lambda>pid.
     Option.bind (get_field dec_int64 0 ''asn'' ms) (\<lambda>asn.
     Option.bind (get_field dec_string [] ''remote_wg_pubkey'' ms) (\<lambda>pub.
     Option.bind (get_field dec_string [] ''remote_endpoint'' ms) (\<lambda>ep.
     Option.bind (get_field dec_string [] ''remote_lla'' ms) (\<lambda>lla.
     Option.bind (get_field dec_int64 0 ''listen_port'' ms) (\<lambda>port.
     Option.bind (get_field dec_string [] ''wg_interface'' ms) (\<lambda>wif.
     Option.bind (get_field dec_int_ptr None ''mtu'' ms) (\<lambda>mtu.
     Option.bind (get_field dec_string_ptr None ''wg_preshared_key'' ms) (\<lambda>psk.
       Some \<lparr>pa_PeerID = pid, pa_ASN = asn, pa_RemoteWgPubkey = pub, pa_RemoteEndpoint = ep,
             pa_RemoteLLA = lla, pa_ListenPort = port, pa_WgInterface = wif, pa_MTU = mtu,
             pa_WgPreSharedKey = psk\<rparr>))))))))))"

record PeerRemovePayload =
  pr_PeerID :: string
  pr_ASN :: int

definition peer_remove_dec :: "json \<Rightarrow> PeerRemovePayload option" where
  "peer_remove_dec j =
     Option.bind (members j) (\<lambda>ms.
     Option.bind (get_field dec_string [] ''peer_id'' ms) (\<lambda>pid.
     Option.bind (get_field dec_int64 0 ''asn'' ms) (\<lambda>asn.
       Some \<lparr>pr_PeerID = pid, pr_ASN = asn\<rparr>)))"

record BirdControlPayload =
  bp_PeerID :: string
  bp_ProtoName :: string

definition bird_control_dec :: "json \<Rightarrow> BirdControlPayload option" where
  "bird_control_dec j =
     Option.bind (members j) (\<lambda>ms.
     Option.bind (get_field dec_string [] ''peer_id'' ms) (\<lambda>pid.
     Option.bind (get_field dec_string [] ''proto_name'' ms) (\<lambda>proto.
       Some \<lparr>bp_PeerID = pid, bp_ProtoName = proto\<rparr>)))"

section \<open>JSON of numbers and floats\<close>

definition jint :: "int \<Rightarrow> json" where
  "jint n = JNum (itoa n)"

text \<open>
  A float prints as the literal it was parsed from, a number equal to the one Go prints; infinity has
  no JSON form, and \<open>json.Marshal\<close> fails on it.
\<close>

fun jfloat :: "gofloat \<Rightarrow> json option" where
  "jfloat FZero = Some (JNum ''0'')"
| "jfloat FMinusOne = Some (JNum ''-1'')"
| "jfloat FInf = None"
| "jfloat (FLit l) = Some (JNum l)"

fun jfloats :: "gofloat list \<Rightarrow> json list option" where
  "jfloats [] = Some []"
| "jfloats (f # fs) = Option.bind (jfloat f) (\<lambda>j. map_option ((#) j) (jfloats fs))"

section \<open>Frames of the state updates\<close>

lemma on_host_simps [simp]:
  "a_db (snd (on_host f st)) = a_db st" "a_ws (snd (on_host f st)) = a_ws st"
  "a_pending (snd (on_host f st)) = a_pending st" "a_blocked (snd (on_host f st)) = a_blocked st"
  "a_end (snd (on_host f st)) = a_end st"
  "a_host (snd (on_host f st)) = snd (f (a_host st))" "fst (on_host f st) = fst (f (a_host st))"
  by (simp_all add: on_host_def split: prod.splits)

lemma on_db_simps [simp]:
  "a_host (snd (on_db f st)) = a_host st" "a_ws (snd (on_db f st)) = a_ws st"
  "a_pending (snd (on_db f st)) = a_pending st" "a_blocked (snd (on_db f st)) = a_blocked st"
  "a_end (snd (on_db f st)) = a_end st"
  "a_db (snd (on_db f st)) = snd (f (a_db st))" "fst (on_db f st) = fst (f (a_db st))"
  by (simp_all add: on_db_def split: prod.splits)

lemma on_ws_simps [simp]:
  "a_host (snd (on_ws f st)) = a_host st" "a_db (snd (on_ws f st)) = a_db st"
  "a_pending (snd (on_ws f st)) = a_pending st" "a_blocked (snd (on_ws f st)) = a_blocked st"
  "a_end (snd (on_ws f st)) = a_end st"
  "a_ws (snd (on_ws f st)) = snd (f (a_ws st))" "fst (on_ws f st) = fst (f (a_ws st))"
  by (simp_all add: on_ws_def split: prod.splits)

lemma send_msg_simps [simp]:
  "a_host (send_msg E m st) = a_host st" "a_db (send_msg E m st) = a_db st"
  "a_pending (send_msg E m st) = a_pending st" "a_blocked (send_msg E m st) = a_blocked st"
  "a_end (send_msg E m st) = a_end st"
  "a_ws (send_msg E m st) = snd (Send (ePrims E) m (a_ws st))"
  by (simp_all add: send_msg_def)

lemma sendResponse_simps [simp]:
  "a_host (sendResponse E i b t st) = a_host st" "a_db (sendResponse E i b t st) = a_db st"
  "a_pending (sendResponse E i b t st) = a_pending st"
  "a_blocked (sendResponse E i b t st) = a_blocked st" "a_end (sendResponse E i b t st) = a_end st"
  "a_ws (sendResponse E i b t st) = snd (Send (ePrims E) (response_msg i b t) (a_ws st))"
  by (simp_all add: sendResponse_def)

text \<open>
  \<open>answers E st st' msg m\<close>: the handler gave the client one message, \<open>m\<close>, with the id of the
  request, and did nothing else to it.
\<close>

definition answers :: "'db env \<Rightarrow> Message \<Rightarrow> 'db agent \<Rightarrow> 'db agent \<Rightarrow> Message \<Rightarrow> bool" where
  "answers E msg st st' m \<longleftrightarrow> m_ID m = m_ID msg \<and> a_ws st' = snd (Send (ePrims E) m (a_ws st))"

lemma answers_response [intro]:
  "a_ws st1 = a_ws st \<Longrightarrow> answers E msg st (sendResponse E (m_ID msg) b t st1) (response_msg (m_ID msg) b t)"
  by (simp add: answers_def response_msg_def)

lemma answers_payload [intro]:
  "a_ws st1 = a_ws st \<Longrightarrow> answers E msg st (send_msg E (payload_msg (m_ID msg) b j) st1) (payload_msg (m_ID msg) b j)"
  by (simp add: answers_def payload_msg_def)

text \<open>The request was answered, by exactly one message.\<close>

definition answered :: "'db env \<Rightarrow> Message \<Rightarrow> 'db agent \<Rightarrow> 'db agent \<Rightarrow> bool" where
  "answered E msg st st' \<longleftrightarrow> (\<exists>m. answers E msg st st' m)"

lemma answeredI: "answers E msg st st' m \<Longrightarrow> answered E msg st st'"
  by (auto simp: answered_def)

lemma answered_response [intro]:
  "a_ws st1 = a_ws st \<Longrightarrow> answered E msg st (sendResponse E (m_ID msg) b t st1)"
  by (rule answeredI) (rule answers_response)

lemma answered_payload [intro]:
  "a_ws st1 = a_ws st \<Longrightarrow> answered E msg st (send_msg E (payload_msg (m_ID msg) b j) st1)"
  by (rule answeredI) (rule answers_payload)

section \<open>A concrete agent\<close>

text \<open>
  An environment and a state for the witnesses: the simulated machine, the database in memory, the
  simple primitives, and a connected, encrypted client.
\<close>

definition demo_env :: "(string list \<Rightarrow> bool) \<Rightarrow> (string list \<Rightarrow> string) \<Rightarrow> mem_db env" where
  "demo_env bad out =
     \<lparr>eOs = sim_os bad out, eBolt = mem_bolt, ePrims = toy_prims,
      eClock = (\<lambda>h. \<lparr>now_ns = 0, today = (2024, 1, 1), local_ns = (\<lambda>d t. 0)\<rparr>),
      eJsonErr = (\<lambda>ty p. ''unexpected end of JSON input''),
      eResolve = (\<lambda>n h. Inl ''no such host''), eParseFloat = parse_float,
      eNewRequest = (\<lambda>u. None), eHttp = (\<lambda>u hs h. Inl ''connection refused''), eRange = (\<lambda>m. m),
      eExecPath = ''/usr/local/bin/autopeer-agent'', eTempName = (\<lambda>p h. p @ ''.tmp''),
      eWg = demo_wg, eBird = demo_bird, eToken = ''tok'', eKey = None\<rparr>"

definition demo_agent :: "mem_db agent" where
  "demo_agent =
     \<lparr>a_host = empty_host, a_db = [], a_ws = demo_live, a_pending = None, a_blocked = False,
      a_end = None\<rparr>"

lemma demo_env_simps [simp]:
  "eOs (demo_env bad out) = sim_os bad out" "eBolt (demo_env bad out) = mem_bolt"
  "ePrims (demo_env bad out) = toy_prims" "eWg (demo_env bad out) = demo_wg"
  "eBird (demo_env bad out) = demo_bird" "eRange (demo_env bad out) = (\<lambda>m. m)"
  "eToken (demo_env bad out) = ''tok''" "eKey (demo_env bad out) = None"
  "eExecPath (demo_env bad out) = ''/usr/local/bin/autopeer-agent''"
  "eParseFloat (demo_env bad out) = parse_float"
  by (simp_all add: demo_env_def)

lemma demo_agent_simps [simp]:
  "a_host demo_agent = empty_host" "a_db demo_agent = []" "a_ws demo_agent = demo_live"
  "a_pending demo_agent = None" "\<not> a_blocked demo_agent" "a_end demo_agent = None"
  by (simp_all add: demo_agent_def)

lemma demo_mgr_simps [simp]:
  "wgDir demo_wg = ''/etc/wireguard''" "peerDir demo_bird = ''/etc/bird/peers''"
  "birdcPath demo_bird = ''birdc''"
  by (simp_all add: demo_wg_def wg_NewManager_def demo_bird_def bird_NewManager_def)

end
