(* ===== verification/Files.thy ===== *)
theory Files
  imports Host
begin

text \<open>
  The system calls of package \<open>os\<close> that the updater and the start of the agent make beyond those
  of theory \<open>Host\<close>: rename, chmod, temporary files, directories, sync and close. The mode of a
  directory is known once chmod has set it; what mkdir gives it depends on the umask of the process.
\<close>

section \<open>System calls\<close>

text \<open>\<open>os.Rename\<close> replaces the target in one step.\<close>

definition os_rename :: "os \<Rightarrow> string \<Rightarrow> string \<Rightarrow> host \<Rightarrow> unit os_res \<times> host" where
  "os_rename Os src dst h =
     (case fault Os (Rename src dst) h of
        Some e \<Rightarrow> (Inl (EOTHER e), tock h)
      | None \<Rightarrow>
          (case fs_read h src of
             None \<Rightarrow> (Inl (ENOENT ''rename'' src), tock h)
           | Some f \<Rightarrow> (Inr (), tock (fs_put dst f (fs_del src h)))))"

definition os_chmod :: "os \<Rightarrow> string \<Rightarrow> nat \<Rightarrow> host \<Rightarrow> unit os_res \<times> host" where
  "os_chmod Os p perm h =
     (case fault Os (Chmod p) h of
        Some e \<Rightarrow> (Inl (EOTHER e), tock h)
      | None \<Rightarrow>
          (case fs_read h p of
             Some f \<Rightarrow> (Inr (), tock (fs_put p (f\<lparr>mode := perm\<rparr>) h))
           | None \<Rightarrow>
               if p \<in> set (dirs h)
               then (Inr (), tock (h\<lparr>dir_modes := AList.update p perm (dir_modes h)\<rparr>))
               else (Inl (ENOENT ''chmod'' p), tock h)))"

text \<open>The directory and those above it, up to the root.\<close>

fun parents :: "nat \<Rightarrow> string \<Rightarrow> string list" where
  "parents 0 p = [p]"
| "parents (Suc n) p = (if path_dir p = p then [p] else p # parents n (path_dir p))"

text \<open>
  \<open>os.MkdirAll\<close>. The permission argument is left out: the mode of a directory that it makes depends on the
  umask and is not recorded, so that a mode is known only of what \<open>os.Chmod\<close> has set.
\<close>

definition os_mkdir_all :: "os \<Rightarrow> string \<Rightarrow> host \<Rightarrow> unit os_res \<times> host" where
  "os_mkdir_all Os p h =
     (case fault Os (MkdirAll p) h of
        Some e \<Rightarrow> (Inl (EOTHER e), tock h)
      | None \<Rightarrow>
          (if \<exists>d \<in> set (parents (length p) p). fs_read h d \<noteq> None then
             (Inl (EOTHER (''mkdir '' @ p @ '': not a directory'')), tock h)
           else (Inr (), tock (h\<lparr>dirs := parents (length p) p @ dirs h\<rparr>))))"

text \<open>
  \<open>os.CreateTemp\<close> creates a file under a name that does not exist; the name it finds is the argument
  \<open>tmp\<close>.
\<close>

definition os_create_temp :: "os \<Rightarrow> string \<Rightarrow> host \<Rightarrow> string os_res \<times> host" where
  "os_create_temp Os tmp h =
     (case fault Os (CreateTemp tmp) h of
        Some e \<Rightarrow> (Inl (EOTHER e), tock h)
      | None \<Rightarrow> (Inr tmp, tock (fs_put tmp \<lparr>content = [], mode = perm_0600\<rparr> h)))"

definition os_sync :: "os \<Rightarrow> string \<Rightarrow> host \<Rightarrow> unit os_res \<times> host" where
  "os_sync Os p h =
     (case fault Os (Fsync p) h of Some e \<Rightarrow> (Inl (EOTHER e), tock h) | None \<Rightarrow> (Inr (), tock h))"

text \<open>A close whose result the source discards has no effect on the state and is left out.\<close>

definition os_close :: "os \<Rightarrow> string \<Rightarrow> host \<Rightarrow> unit os_res \<times> host" where
  "os_close Os p h =
     (case fault Os (CloseFile p) h of Some e \<Rightarrow> (Inl (EOTHER e), tock h) | None \<Rightarrow> (Inr (), tock h))"

definition os_open :: "os \<Rightarrow> string \<Rightarrow> host \<Rightarrow> unit os_res \<times> host" where
  "os_open Os p h =
     (case fault Os (OpenRead p) h of
        Some e \<Rightarrow> (Inl (EOTHER e), tock h)
      | None \<Rightarrow>
          (if fs_read h p \<noteq> None \<or> p \<in> set (dirs h) then (Inr (), tock h)
           else (Inl (ENOENT ''open'' p), tock h)))"

text \<open>
  \<open>io.Copy\<close> from an open file to an open file: a read that fails leaves what was written before it.
\<close>

definition io_copy :: "os \<Rightarrow> string \<Rightarrow> string \<Rightarrow> host \<Rightarrow> unit os_res \<times> host" where
  "io_copy Os src dst h =
     (case fs_read h src of
        None \<Rightarrow> (Inl (EOTHER (''read '' @ src @ '': is a directory'')), tock h)
      | Some f \<Rightarrow>
          (case fault Os (ReadFrom src) h of
             Some e \<Rightarrow> (Inl (EOTHER e), snd (os_write Os dst (take (short_write Os dst h) (content f)) h))
           | None \<Rightarrow>
               (case os_write Os dst (content f) h of
                  (Inl e, h) \<Rightarrow> (Inl (EOTHER e), h)
                | (Inr _, h) \<Rightarrow> (Inr (), h))))"

section \<open>Sequencing\<close>

text \<open>
  Calls in sequence: the first that fails ends the function with its error. This is the
  \<open>if err := ...; err != nil { return err }\<close> of the source.
\<close>

type_synonym ('e, 'a) hprog = "host \<Rightarrow> ('e + 'a) \<times> host"

definition ret :: "'a \<Rightarrow> ('e, 'a) hprog" where
  "ret a h = (Inr a, h)"

definition fail :: "'e \<Rightarrow> ('e, 'a) hprog" where
  "fail e h = (Inl e, h)"

definition andThen :: "('e, 'a) hprog \<Rightarrow> ('a \<Rightarrow> ('e, 'b) hprog) \<Rightarrow> ('e, 'b) hprog" where
  "andThen m f h = (case m h of (Inl e, h) \<Rightarrow> (Inl e, h) | (Inr a, h) \<Rightarrow> f a h)"

text \<open>The error of a call as its text behind a prefix, \<open>fmt.Errorf("prefix: %w", err)\<close>.\<close>

definition wrapErr :: "('e \<Rightarrow> 'f) \<Rightarrow> ('e, 'a) hprog \<Rightarrow> ('f, 'a) hprog" where
  "wrapErr w m h = (case m h of (Inl e, h) \<Rightarrow> (Inl (w e), h) | (Inr a, h) \<Rightarrow> (Inr a, h))"

text \<open>A clean-up that runs when the call failed, and one that runs in any case (\<open>defer\<close>).\<close>

definition onFail :: "('e, 'a) hprog \<Rightarrow> (host \<Rightarrow> host) \<Rightarrow> ('e, 'a) hprog" where
  "onFail m g h = (case m h of (Inl e, h) \<Rightarrow> (Inl e, g h) | (Inr a, h) \<Rightarrow> (Inr a, h))"

definition deferred :: "('e, 'a) hprog \<Rightarrow> (host \<Rightarrow> host) \<Rightarrow> ('e, 'a) hprog" where
  "deferred m g h = (case m h of (r, h) \<Rightarrow> (r, g h))"

section \<open>Partial correctness of such programs\<close>

text \<open>
  \<open>ensures P m Q R\<close>: from a state with \<open>P\<close>, the program ends in a result and a state with \<open>Q\<close>, or
  with an error in a state with \<open>R\<close>.
\<close>

definition ensures :: "(host \<Rightarrow> bool) \<Rightarrow> ('e, 'a) hprog \<Rightarrow> ('a \<Rightarrow> host \<Rightarrow> bool) \<Rightarrow> (host \<Rightarrow> bool) \<Rightarrow> bool" where
  "ensures P m Q R \<longleftrightarrow>
     (\<forall>h. P h \<longrightarrow> (case m h of (Inr a, h') \<Rightarrow> Q a h' | (Inl e, h') \<Rightarrow> R h'))"

named_theorems ensures_rules \<open>rules for programs in sequence\<close>

lemma ensuresI: "(\<And>h r h'. P h \<Longrightarrow> m h = (r, h') \<Longrightarrow> case r of Inr a \<Rightarrow> Q a h' | Inl e \<Rightarrow> R h') \<Longrightarrow> ensures P m Q R"
  unfolding ensures_def by (force split: prod.splits sum.splits)

lemma ensuresD: "ensures P m Q R \<Longrightarrow> P h \<Longrightarrow> m h = (r, h') \<Longrightarrow> case r of Inr a \<Rightarrow> Q a h' | Inl e \<Rightarrow> R h'"
  unfolding ensures_def by (force split: prod.splits sum.splits)

lemma ensures_ret [ensures_rules]: "(\<And>h. P h \<Longrightarrow> Q a h) \<Longrightarrow> ensures P (ret a) Q R"
  by (simp add: ensures_def ret_def)

lemma ensures_fail [ensures_rules]: "(\<And>h. P h \<Longrightarrow> R h) \<Longrightarrow> ensures P (fail e) Q R"
  by (simp add: ensures_def fail_def)

lemma ensures_andThen [ensures_rules]:
  "ensures P m M R \<Longrightarrow> (\<And>a. ensures (M a) (f a) Q R) \<Longrightarrow> ensures P (andThen m f) Q R"
  unfolding ensures_def andThen_def by (fastforce split: prod.splits sum.splits)

lemma ensures_wrapErr [ensures_rules]: "ensures P m Q R \<Longrightarrow> ensures P (wrapErr w m) Q R"
  unfolding ensures_def wrapErr_def by (fastforce split: prod.splits sum.splits)

lemma ensures_onFail:
  "ensures P m Q M \<Longrightarrow> (\<And>h. M h \<Longrightarrow> R (g h)) \<Longrightarrow> ensures P (onFail m g) Q R"
  unfolding ensures_def onFail_def by (fastforce split: prod.splits sum.splits)

lemma ensures_deferred:
  "ensures P m (\<lambda>a h. Q a (g h)) (\<lambda>h. R (g h)) \<Longrightarrow> ensures P (deferred m g) Q R"
  unfolding ensures_def deferred_def by (fastforce split: prod.splits sum.splits)

lemma ensures_weaken:
  "ensures P m Q R \<Longrightarrow> (\<And>h. P' h \<Longrightarrow> P h) \<Longrightarrow> (\<And>a h. Q a h \<Longrightarrow> Q' a h) \<Longrightarrow> (\<And>h. R h \<Longrightarrow> R' h) \<Longrightarrow>
     ensures P' m Q' R'"
  unfolding ensures_def by (fastforce split: prod.splits sum.splits)


section \<open>Contents\<close>

text \<open>What a path holds, without the mode.\<close>

definition cont :: "host \<Rightarrow> string \<Rightarrow> string option" where
  "cont h p = map_option content (fs_read h p)"

lemma cont_tock [simp]: "cont (tock h) p = cont h p"
  by (simp add: cont_def)

lemma cont_put: "cont (fs_put q f h) p = (if p = q then Some (content f) else cont h p)"
  by (simp add: cont_def fstab.look_put)

lemma cont_del: "cont (fs_del q h) p = (if p = q then None else cont h p)"
  by (simp add: cont_def fstab.look_del)

lemma cont_dirs [simp]: "cont (h\<lparr>dirs := ds\<rparr>) p = cont h p"
  by (simp add: cont_def fs_read_def)

lemma dir_modes_frame [simp]:
  "cont (h\<lparr>dir_modes := ms\<rparr>) p = cont h p" "fs_read (h\<lparr>dir_modes := ms\<rparr>) = fs_read h"
  by (simp_all add: cont_def fs_read_def fun_eq_iff)

lemma cont_chmod: "os_chmod Os q perm h = (r, h') \<Longrightarrow> cont h' p = cont h p"
  by (auto simp: os_chmod_def cont_put cont_def fstab.look_put split: option.splits if_splits)

lemma cont_mkdir: "os_mkdir_all Os q h = (r, h') \<Longrightarrow> cont h' p = cont h p"
  by (auto simp: os_mkdir_all_def split: option.splits if_splits)

lemma cont_calls:
  "os_open Os q h = (r, h') \<Longrightarrow> cont h' p = cont h p"
  "os_sync Os q h = (r, h') \<Longrightarrow> cont h' p = cont h p"
  "os_close Os q h = (r, h') \<Longrightarrow> cont h' p = cont h p"
  by (auto simp: os_open_def os_sync_def os_close_def split: option.splits if_splits)

lemma cont_remove: "os_remove Os q h = (r, h') \<Longrightarrow> p \<noteq> q \<Longrightarrow> cont h' p = cont h p"
  by (auto simp: os_remove_def cont_del split: option.splits)

lemma cont_write: "os_write Os q t h = (r, h') \<Longrightarrow> p \<noteq> q \<Longrightarrow> cont h' p = cont h p"
  by (auto simp: os_write_def Let_def cont_put split: option.splits)

lemma cont_write_ok:
  "os_write Os q t h = (Inr u, h') \<Longrightarrow> cont h q = Some s \<Longrightarrow> cont h' q = Some (s @ t)"
  by (auto simp: os_write_def Let_def cont_put cont_def fstab.look_put split: option.splits)

lemma cont_rename:
  assumes "os_rename Os src dst h = (r, h')"
  shows "p \<noteq> src \<Longrightarrow> p \<noteq> dst \<Longrightarrow> cont h' p = cont h p"
    "r = Inr u \<Longrightarrow> cont h' dst = cont h src \<and> cont h src \<noteq> None"
    "r = Inl e \<Longrightarrow> cont h' p = cont h p"
  using assms by (auto simp: os_rename_def cont_put cont_del split: option.splits)
    (auto simp: cont_def)

lemma cont_copy:
  assumes "io_copy Os src dst h = (r, h')"
  shows "p \<noteq> dst \<Longrightarrow> cont h' p = cont h p"
    "r = Inr u \<Longrightarrow> cont h dst = Some [] \<Longrightarrow> cont h' dst = cont h src \<and> cont h src \<noteq> None"
proof -
  obtain r1 h1 where w: "os_write Os dst (take (short_write Os dst h) (content (the (fs_read h src)))) h = (r1, h1)"
    by fastforce
  obtain r2 h2 where w2: "os_write Os dst (content (the (fs_read h src))) h = (r2, h2)" by fastforce
  show "p \<noteq> dst \<Longrightarrow> cont h' p = cont h p"
    using assms w w2 cont_write [OF w] cont_write [OF w2]
    by (auto simp: io_copy_def split: option.splits sum.splits)
  show "r = Inr u \<Longrightarrow> cont h dst = Some [] \<Longrightarrow> cont h' dst = cont h src \<and> cont h src \<noteq> None"
    using assms w2 cont_write_ok [of Os dst _ h _ h2 "[]"]
    by (auto simp: io_copy_def cont_def [of h src] split: option.splits sum.splits)
qed

end
