(* ===== verification/Update.thy ===== *)
theory Update
  imports Agent Files
begin

text \<open>
  Self-update: \<open>src/internal/handler/update_helpers.go\<close> and the handlers \<open>handleAgentUpdate\<close>,
  \<open>handleAgentResume\<close> and \<open>handleAgentRollback\<close> of \<open>handler.go\<close>. The download is an HTTP answer given
  by the environment, SHA-256 a primitive of the environment, and every system call may fail.
\<close>

section \<open>Paths\<close>

definition backupDir :: string where "backupDir = ''/var/lib/autopeer-agent/backup''"
definition downloadPart :: string where "downloadPart = ''/var/lib/autopeer-agent/autopeer-agent.part''"
definition downloadFinal :: string where "downloadFinal = ''/var/lib/autopeer-agent/autopeer-agent.new''"

abbreviation privateFilePerm :: nat where "privateFilePerm \<equiv> perm_0600"
abbreviation privateExecPerm :: nat where "privateExecPerm \<equiv> perm_0700"

definition maxDownloadSize :: nat where "maxDownloadSize = 50 * 1024 * 1024"

definition BackupPath :: "string \<Rightarrow> string" where
  "BackupPath version = path_join backupDir (''autopeer-agent.'' @ version)"

section \<open>Files\<close>

definition removeIfExists :: "os \<Rightarrow> string \<Rightarrow> (os_err, unit) hprog" where
  "removeIfExists Os p h =
     (case os_remove Os p h of
        (Inr _, h) \<Rightarrow> (Inr (), h)
      | (Inl e, h) \<Rightarrow> if is_not_exist e then (Inr (), h) else (Inl e, h))"

definition syncDir :: "os \<Rightarrow> string \<Rightarrow> (os_err, unit) hprog" where
  "syncDir Os p = andThen (os_open Os p) (\<lambda>_. os_sync Os p)"

definition ensurePrivateDir :: "os \<Rightarrow> string \<Rightarrow> (os_err, unit) hprog" where
  "ensurePrivateDir Os p = andThen (os_mkdir_all Os p) (\<lambda>_. os_chmod Os p perm_0700)"

definition sha256File :: "os \<Rightarrow> prims \<Rightarrow> string \<Rightarrow> (os_err, string) hprog" where
  "sha256File Os P p =
     andThen (os_read_file Os p) (\<lambda>data h.
       case fault Os (ReadFrom p) h of
         Some e \<Rightarrow> (Inl (EOTHER e), tock h)
       | None \<Rightarrow> (Inr (hex_encode (sha256 P data)), tock h))"

text \<open>\<open>os.Remove\<close> with its result discarded.\<close>

definition rm :: "os \<Rightarrow> string \<Rightarrow> host \<Rightarrow> host" where
  "rm Os p h = snd (os_remove Os p h)"

text \<open>The part of \<open>copyFileAtomic\<close> from the chmod of the temporary file to the end.\<close>

definition fill_and_publish :: "os \<Rightarrow> string \<Rightarrow> string \<Rightarrow> string \<Rightarrow> nat \<Rightarrow> (os_err, unit) hprog" where
  "fill_and_publish Os src tmpPath dst perm =
     andThen (os_chmod Os tmpPath perm) (\<lambda>_.
     andThen (io_copy Os src tmpPath) (\<lambda>_.
     andThen (os_sync Os tmpPath) (\<lambda>_.
     andThen (os_close Os tmpPath) (\<lambda>_.
     andThen (os_rename Os tmpPath dst) (\<lambda>_.
     andThen (os_chmod Os dst perm) (\<lambda>_.
     syncDir Os (path_dir dst)))))))"

definition copyFileAtomic ::
    "os \<Rightarrow> (string \<Rightarrow> host \<Rightarrow> string) \<Rightarrow> string \<Rightarrow> string \<Rightarrow> nat \<Rightarrow> (os_err, unit) hprog" where
  "copyFileAtomic Os tempName src dst perm =
     andThen (os_open Os src) (\<lambda>_ h.
     andThen (os_create_temp Os (tempName (path_join (path_dir dst) (''.'' @ path_base dst @ ''.'')) h))
       (\<lambda>tmpPath.
         deferred (fill_and_publish Os src tmpPath dst perm) (rm Os tmpPath)) h)"

definition replaceFile ::
    "os \<Rightarrow> (string \<Rightarrow> host \<Rightarrow> string) \<Rightarrow> string \<Rightarrow> string \<Rightarrow> nat \<Rightarrow> (string, unit) hprog" where
  "replaceFile Os tempName src dst perm =
     andThen (wrapErr (\<lambda>e. ''set source permissions: '' @ os_err_text e) (os_chmod Os src perm))
       (\<lambda>_ h.
         case os_rename Os src dst h of
           (Inr _, h) \<Rightarrow>
             andThen (wrapErr (\<lambda>e. ''set target permissions: '' @ os_err_text e) (os_chmod Os dst perm))
               (\<lambda>_. wrapErr os_err_text (syncDir Os (path_dir dst))) h
         | (Inl _, h) \<Rightarrow>
             wrapErr os_err_text
               (andThen (copyFileAtomic Os tempName src dst perm) (\<lambda>_. removeIfExists Os src)) h)"

section \<open>Download and rollback\<close>

text \<open>
  The body as \<open>io.LimitReader\<close> gives it: at most one byte more than allowed. A read error of the
  connection shows only when the body ends before that.
\<close>

definition limited :: "http_answer \<Rightarrow> string" where
  "limited a = take (maxDownloadSize + 1) (ha_body a)"

definition body_read_err :: "http_answer \<Rightarrow> string option" where
  "body_read_err a = (if maxDownloadSize < length (ha_body a) then None else ha_read_err a)"

definition receive_body :: "os \<Rightarrow> http_answer \<Rightarrow> (string, unit) hprog" where
  "receive_body Os a h =
     (case os_write Os downloadPart (limited a) h of
        (Inl e, h) \<Rightarrow> (Inl e, h)
      | (Inr _, h) \<Rightarrow> (case body_read_err a of Some e \<Rightarrow> (Inl e, h) | None \<Rightarrow> (Inr (), h)))"

text \<open>The size check, which a failing \<open>Stat\<close> skips.\<close>

definition check_size :: "os \<Rightarrow> (string, unit) hprog" where
  "check_size Os h =
     (case fault Os (Stat downloadPart) h of
        Some _ \<Rightarrow> (Inr (), tock h)
      | None \<Rightarrow>
          (if (case fs_read h downloadPart of None \<Rightarrow> False | Some f \<Rightarrow> maxDownloadSize < length (content f))
           then (Inl (''download exceeded maximum allowed size of '' @ nat_str maxDownloadSize @ '' bytes''), tock h)
           else (Inr (), tock h)))"

definition check_hash :: "prims \<Rightarrow> string \<Rightarrow> string \<Rightarrow> (string, unit) hprog" where
  "check_hash P data expected =
     (let actual = hex_encode (sha256 P data) in
      if actual \<noteq> expected
      then fail (''sha256 mismatch: expected '' @ expected @ '', got '' @ actual)
      else ret ())"

definition fetch :: "'db env \<Rightarrow> string \<Rightarrow> (string, http_answer) hprog" where
  "fetch E url h =
     (case eNewRequest E url of
        Some e \<Rightarrow> (Inl e, h)
      | None \<Rightarrow>
          (case eHttp E url (if eToken E \<noteq> [] then [(''X-Agent-Token'', eToken E)] else []) h of
             Inl e \<Rightarrow> (Inl (''HTTP GET: '' @ e), tock h)
           | Inr a \<Rightarrow>
               if ha_status a \<noteq> 200 then (Inl (''unexpected status: '' @ itoa (ha_status a)), tock h)
               else (Inr a, tock h)))"

definition downloadFile :: "'db env \<Rightarrow> string \<Rightarrow> string \<Rightarrow> (string, unit) hprog" where
  "downloadFile E url expectedSHA256 =
     (if \<not> has_prefix ''https://'' url then fail (''refusing to download from non-HTTPS URL: '' @ url)
      else
        andThen (wrapErr (\<lambda>e. ''remove stale temp file: '' @ os_err_text e) (removeIfExists (eOs E) downloadPart))
          (\<lambda>_. andThen (fetch E url) (\<lambda>a.
          andThen (wrapErr (\<lambda>e. ''create temp file: '' @ e) (os_open_trunc (eOs E) downloadPart privateFilePerm))
          (\<lambda>_. andThen (onFail
            (andThen (wrapErr (\<lambda>e. ''write: '' @ e) (receive_body (eOs E) a)) (\<lambda>_.
             andThen (check_size (eOs E)) (\<lambda>_.
             andThen (check_hash (ePrims E) (limited a) expectedSHA256) (\<lambda>_.
             andThen (wrapErr (\<lambda>e. ''sync temp file: '' @ os_err_text e) (os_sync (eOs E) downloadPart)) (\<lambda>_.
             wrapErr (\<lambda>e. ''close temp file: '' @ os_err_text e) (os_close (eOs E) downloadPart))))))
            (rm (eOs E) downloadPart))
          (\<lambda>_. wrapErr os_err_text
            (andThen (os_rename (eOs E) downloadPart downloadFinal)
              (\<lambda>_. syncDir (eOs E) (path_dir downloadFinal))))))))"

definition executable :: "'db env \<Rightarrow> (string, string) hprog" where
  "executable E h =
     (case fault (eOs E) Executable h of
        Some e \<Rightarrow> (Inl e, tock h)
      | None \<Rightarrow> (Inr (eExecPath E), tock h))"

definition DownloadAndApply ::
    "'db env \<Rightarrow> string \<Rightarrow> string \<Rightarrow> string \<Rightarrow> (string, unit) hprog" where
  "DownloadAndApply E url expectedSHA256 currentVersion =
     andThen (wrapErr (\<lambda>e. ''create update directory: '' @ os_err_text e)
       (ensurePrivateDir (eOs E) (path_dir backupDir))) (\<lambda>_.
     andThen (wrapErr (\<lambda>e. ''create backup directory: '' @ os_err_text e)
       (ensurePrivateDir (eOs E) backupDir)) (\<lambda>_.
     andThen (wrapErr (\<lambda>e. ''download: '' @ e) (downloadFile E url expectedSHA256)) (\<lambda>_.
     andThen (wrapErr (\<lambda>e. ''get executable path: '' @ e) (executable E)) (\<lambda>execPath.
     andThen (wrapErr (\<lambda>e. ''backup: '' @ os_err_text e)
       (copyFileAtomic (eOs E) (eTempName E) execPath (BackupPath currentVersion) privateFilePerm)) (\<lambda>_.
     wrapErr (\<lambda>e. ''replace binary: '' @ e)
       (replaceFile (eOs E) (eTempName E) downloadFinal execPath privateExecPerm))))))"

definition RollbackFrom :: "'db env \<Rightarrow> string \<Rightarrow> (string, unit) hprog" where
  "RollbackFrom E backupPath =
     andThen
       (\<lambda>h. case os_stat (eOs E) backupPath h of
              (Inl e, h) \<Rightarrow>
                if is_not_exist e then (Inl (''backup not found at '' @ backupPath), h) else (Inr (), h)
            | (Inr _, h) \<Rightarrow> (Inr (), h)) (\<lambda>_.
     andThen (wrapErr (\<lambda>e. ''get executable path: '' @ e) (executable E)) (\<lambda>execPath.
     wrapErr (\<lambda>e. ''restore backup: '' @ e)
       (replaceFile (eOs E) (eTempName E) backupPath execPath privateExecPerm)))"

definition RestartSelf :: "'db env \<Rightarrow> 'db agent \<Rightarrow> 'db agent" where
  "RestartSelf E st =
     (case on_host (executable E) st of
        (Inl _, st) \<Rightarrow> st\<lparr>a_end := Some (Exited 1)\<rparr>
      | (Inr execPath, st) \<Rightarrow>
          (case fault (eOs E) (ExecSelf execPath) (a_host st) of
             Some _ \<Rightarrow> st\<lparr>a_end := Some (Exited 1)\<rparr>
           | None \<Rightarrow> st\<lparr>a_end := Some (Execed execPath)\<rparr>))"

section \<open>Handlers\<close>

record update_payload =
  up_UpdateID :: string
  up_Version :: string
  up_URL :: string
  up_SHA256 :: string

definition update_dec :: "json \<Rightarrow> update_payload option" where
  "update_dec j =
     Option.bind (members j) (\<lambda>ms.
     Option.bind (get_field dec_string [] ''update_id'' ms) (\<lambda>i.
     Option.bind (get_field dec_string [] ''version'' ms) (\<lambda>v.
     Option.bind (get_field dec_string [] ''url'' ms) (\<lambda>u.
     Option.bind (get_field dec_string [] ''sha256'' ms) (\<lambda>s.
       Some \<lparr>up_UpdateID = i, up_Version = v, up_URL = u, up_SHA256 = s\<rparr>)))))"

definition finish_update :: "'db env \<Rightarrow> Message \<Rightarrow> update_payload \<Rightarrow> 'db agent \<Rightarrow> 'db agent" where
  "finish_update E msg p st =
     (let st = send_msg E
            \<lparr>m_Type = ''agent.updating'', m_ID = [],
             m_Payload = Some (JObj [(''update_id'', JStr (up_UpdateID p))]),
             m_Success = None, m_Error = []\<rparr> st;
          st = snd (on_db (PutVersion (eBolt E) (up_Version p)) st);
          st = snd (on_db (PutUpdateID (eBolt E) (up_UpdateID p)) st);
          st = snd (sendResponseChecked E (m_ID msg) True ''update applied, restarting'' st);
          st = snd (on_db (Close (eBolt E)) st);
          st = st\<lparr>a_ws := ws_Close (a_ws st)\<rparr>
      in RestartSelf E st)"

definition handleAgentUpdate :: "'db env \<Rightarrow> Message \<Rightarrow> 'db agent \<Rightarrow> 'db agent" where
  "handleAgentUpdate E msg st =
     (case unmarshal update_dec (m_Payload msg) of
        None \<Rightarrow> sendResponse E (m_ID msg) False (invalid_payload E ''update'' msg) st
      | Some p \<Rightarrow>
          if fst (GetUpdateID (eBolt E) (a_db st)) = up_UpdateID p then
            sendResponse E (m_ID msg) True ''already applied'' st
          else
            (case on_host (executable E) st of
               (Inl e, st) \<Rightarrow> sendResponse E (m_ID msg) False (''get executable path: '' @ e) st
             | (Inr execPath, st) \<Rightarrow>
                 (case on_host (sha256File (eOs E) (ePrims E) execPath) st of
                    (Inl e, st) \<Rightarrow>
                      sendResponse E (m_ID msg) False (''hash current binary: '' @ os_err_text e) st
                  | (Inr currentHash, st) \<Rightarrow>
                      if currentHash = up_SHA256 p then
                        snd (on_db (PutUpdateID (eBolt E) (up_UpdateID p))
                          (sendResponse E (m_ID msg) True ''already applied (hash match)'' st))
                      else
                        (let currentVer = fst (GetVersion (eBolt E) (a_db st)) in
                         if currentVer = [] then
                           sendResponse E (m_ID msg) False
                             ''cannot update: current version unknown (store may be cleared)'' st
                         else
                           (case on_host (DownloadAndApply E (up_URL p) (up_SHA256 p) currentVer) st of
                              (Inl e, st) \<Rightarrow> sendResponse E (m_ID msg) False (''update failed: '' @ e) st
                            | (Inr _, st) \<Rightarrow> finish_update E msg p st)))))"

definition handleAgentResume :: "'db env \<Rightarrow> Message \<Rightarrow> 'db agent \<Rightarrow> 'db agent" where
  "handleAgentResume E msg st = sendResponse E (m_ID msg) True ''resumed'' st"

definition handleAgentRollback :: "'db env \<Rightarrow> Message \<Rightarrow> 'db agent \<Rightarrow> 'db agent" where
  "handleAgentRollback E msg st =
     (let oldVer = fst (GetVersion (eBolt E) (a_db st)) in
      if oldVer = [] then
        sendResponse E (m_ID msg) False ''no previous version to roll back to'' st
      else
        (case on_host (RollbackFrom E (BackupPath oldVer)) st of
           (Inl e, st) \<Rightarrow> sendResponse E (m_ID msg) False (''rollback failed: '' @ e) st
         | (Inr _, st) \<Rightarrow>
             RestartSelf E (sendResponse E (m_ID msg) True ''rollback applied, restarting'' st)))"


section \<open>What the helpers leave of the files\<close>

lemma cont_rm: "p \<noteq> q \<Longrightarrow> cont (rm Os q h) p = cont h p"
  using cont_remove [of Os q h "fst (os_remove Os q h)" "rm Os q h"] by (simp add: rm_def)

lemma cont_removeIfExists: "removeIfExists Os q h = (r, h') \<Longrightarrow> p \<noteq> q \<Longrightarrow> cont h' p = cont h p"
  using cont_remove [of Os q h "fst (os_remove Os q h)" "snd (os_remove Os q h)" p]
  by (auto simp: removeIfExists_def split: prod.splits sum.splits if_splits)

text \<open>A property of the contents alone survives the calls that change none.\<close>

definition about_contents :: "(host \<Rightarrow> bool) \<Rightarrow> bool" where
  "about_contents P \<longleftrightarrow> (\<forall>h h'. (\<forall>p. cont h' p = cont h p) \<longrightarrow> P h = P h')"

lemma about_contentsD: "about_contents P \<Longrightarrow> P h \<Longrightarrow> (\<And>p. cont h' p = cont h p) \<Longrightarrow> P h'"
  by (auto simp: about_contents_def)

lemma ensures_same_contents:
  assumes "about_contents P" "\<And>h r h' p. m h = (r, h') \<Longrightarrow> cont h' p = cont h p"
  shows "ensures P m (\<lambda>_. P) P"
proof (rule ensuresI)
  fix h r h' assume "P h" "m h = (r, h')"
  then have "P h'" using about_contentsD [OF assms(1)] assms(2) by blast
  then show "case r of Inr a \<Rightarrow> P h' | Inl e \<Rightarrow> P h'" by (simp split: sum.splits)
qed

lemmas ensures_chmod = ensures_same_contents [OF _ cont_chmod]
lemmas ensures_open = ensures_same_contents [OF _ cont_calls(1)]
lemmas ensures_sync = ensures_same_contents [OF _ cont_calls(2)]
lemmas ensures_close = ensures_same_contents [OF _ cont_calls(3)]
lemmas ensures_mkdir = ensures_same_contents [OF _ cont_mkdir]

lemma ensures_syncDir: "about_contents P \<Longrightarrow> ensures P (syncDir Os p) (\<lambda>_. P) P"
  unfolding syncDir_def by (intro ensures_andThen [OF ensures_open ensures_sync])

lemma ensures_privateDir: "about_contents P \<Longrightarrow> ensures P (ensurePrivateDir Os p) (\<lambda>_. P) P"
  unfolding ensurePrivateDir_def by (intro ensures_andThen [OF ensures_mkdir ensures_chmod])

text \<open>
  The states in which an atomic copy can end: everything but the temporary file and the target is
  as it was, and the target has its old content or that of the source, in full.
\<close>

definition copied :: "host \<Rightarrow> string \<Rightarrow> string \<Rightarrow> string \<Rightarrow> host \<Rightarrow> bool" where
  "copied h0 tmp src dst h \<longleftrightarrow>
     (\<forall>p. p \<noteq> tmp \<longrightarrow> p \<noteq> dst \<longrightarrow> cont h p = cont h0 p) \<and>
     (tmp \<noteq> dst \<longrightarrow> cont h dst = cont h0 dst \<or> cont h dst = cont h0 src)"

definition copied_ok :: "host \<Rightarrow> string \<Rightarrow> string \<Rightarrow> string \<Rightarrow> host \<Rightarrow> bool" where
  "copied_ok h0 tmp src dst h \<longleftrightarrow>
     copied h0 tmp src dst h \<and> cont h0 src \<noteq> None \<and> (tmp \<noteq> dst \<longrightarrow> cont h dst = cont h0 src)"

text \<open>Before the rename, only the temporary file differs.\<close>

definition staged :: "host \<Rightarrow> string \<Rightarrow> string option \<Rightarrow> host \<Rightarrow> bool" where
  "staged h0 tmp c h \<longleftrightarrow> (\<forall>p. p \<noteq> tmp \<longrightarrow> cont h p = cont h0 p) \<and> cont h tmp = c"

lemma about_contents_copy [simp]:
  "about_contents (copied h0 tmp src dst)" "about_contents (copied_ok h0 tmp src dst)"
  "about_contents (staged h0 tmp c)"
  by (simp_all add: about_contents_def copied_def copied_ok_def staged_def)

lemma staged_copied: "staged h0 tmp c h \<Longrightarrow> copied h0 tmp src dst h"
  by (auto simp: staged_def copied_def)


lemma ensures_stage:
  assumes "src \<noteq> tmp"
  shows "ensures (staged h0 tmp (Some [])) (io_copy Os src tmp)
    (\<lambda>_ h. staged h0 tmp (cont h0 src) h \<and> cont h0 src \<noteq> None) (copied h0 tmp src dst)"
proof (rule ensuresI)
  fix h r h' assume s: "staged h0 tmp (Some []) h" and c: "io_copy Os src tmp h = (r, h')"
  have *: "\<forall>p. p \<noteq> tmp \<longrightarrow> cont h' p = cont h0 p"
    using s cont_copy(1) [OF c] by (simp add: staged_def)
  show "case r of Inr a \<Rightarrow> staged h0 tmp (cont h0 src) h' \<and> cont h0 src \<noteq> None | Inl e \<Rightarrow> copied h0 tmp src dst h'"
  proof (cases r)
    case (Inl e)
    with * show ?thesis by (simp add: copied_def)
  next
    case (Inr a)
    with * s assms cont_copy(2) [OF c] show ?thesis by (simp add: staged_def)
  qed
qed

lemma ensures_publish:
  "ensures (\<lambda>h. staged h0 tmp (cont h0 src) h \<and> cont h0 src \<noteq> None) (os_rename Os tmp dst)
    (\<lambda>_. copied_ok h0 tmp src dst) (copied h0 tmp src dst)"
proof (rule ensuresI)
  fix h r h' assume s: "staged h0 tmp (cont h0 src) h \<and> cont h0 src \<noteq> None"
    and m: "os_rename Os tmp dst h = (r, h')"
  show "case r of Inr a \<Rightarrow> copied_ok h0 tmp src dst h' | Inl e \<Rightarrow> copied h0 tmp src dst h'"
  proof (cases r)
    case (Inl e)
    then have "staged h0 tmp (cont h0 src) h'" using s cont_rename(3) [OF m] by (simp add: staged_def)
    then show ?thesis using Inl staged_copied by simp
  next
    case (Inr a)
    with s cont_rename(1,2) [OF m] show ?thesis
      by (auto simp: staged_def copied_def copied_ok_def)
  qed
qed

lemma ensures_copy_body:
  assumes "src \<noteq> tmp"
  shows "ensures (staged h0 tmp (Some [])) (fill_and_publish Os src tmp dst perm)
    (\<lambda>_. copied_ok h0 tmp src dst) (copied h0 tmp src dst)"
proof -
  let ?R = "copied h0 tmp src dst" and ?S = "\<lambda>h. staged h0 tmp (cont h0 src) h \<and> cont h0 src \<noteq> None"
  have c: "about_contents ?S" by (auto simp: about_contents_def staged_def)
  note weak = ensures_weaken [where R' = ?R and Q' = "\<lambda>_. Q" and P' = Q and Q = "\<lambda>_. Q" and P = Q for Q]
  have 1: "ensures (staged h0 tmp (Some [])) (os_chmod Os tmp perm) (\<lambda>_. staged h0 tmp (Some [])) ?R"
    by (rule weak [OF ensures_chmod]) (auto intro: staged_copied)
  have 2: "ensures ?S (os_sync Os tmp) (\<lambda>_. ?S) ?R" "ensures ?S (os_close Os tmp) (\<lambda>_. ?S) ?R"
    by (rule weak [OF ensures_sync [OF c]] weak [OF ensures_close [OF c]]; auto intro: staged_copied)+
  have 3: "ensures (copied_ok h0 tmp src dst) (os_chmod Os dst perm) (\<lambda>_. copied_ok h0 tmp src dst) ?R"
    "ensures (copied_ok h0 tmp src dst) (syncDir Os (path_dir dst)) (\<lambda>_. copied_ok h0 tmp src dst) ?R"
    by (rule weak [OF ensures_chmod] weak [OF ensures_syncDir]; simp add: copied_ok_def)+
  show ?thesis unfolding fill_and_publish_def
    by (rule ensures_andThen, rule 1, rule ensures_andThen, rule ensures_stage [OF assms],
        rule ensures_andThen, rule 2(1), rule ensures_andThen, rule 2(2),
        rule ensures_andThen, rule ensures_publish, rule ensures_andThen, rule 3(1), rule 3(2))
qed

text \<open>
  What an atomic copy guarantees. The name of the temporary file is not in use, which is what
  \<open>os.CreateTemp\<close> promises.
\<close>

definition fresh_temp :: "(string \<Rightarrow> host \<Rightarrow> string) \<Rightarrow> bool" where
  "fresh_temp tempName \<longleftrightarrow> (\<forall>p h. fs_read h (tempName p h) = None)"

lemma copyFileAtomic_unfold:
  "copyFileAtomic Os tempName src dst perm h0 =
     (case os_open Os src h0 of
        (Inl e, h) \<Rightarrow> (Inl e, h)
      | (Inr _, h) \<Rightarrow>
          (case os_create_temp Os (tempName (path_join (path_dir dst) (''.'' @ path_base dst @ ''.'')) h) h of
             (Inl e, h) \<Rightarrow> (Inl e, h)
           | (Inr t, h) \<Rightarrow> (case fill_and_publish Os src t dst perm h of (r, h) \<Rightarrow> (r, rm Os t h))))"
  unfolding copyFileAtomic_def andThen_def deferred_def by (rule refl)

lemma copy_spec:
  assumes "fresh_temp tempName" "copyFileAtomic Os tempName src dst perm h0 = (r, h')" "cont h0 src \<noteq> None"
    and tmp: "tmp = tempName (path_join (path_dir dst) (''.'' @ path_base dst @ ''.'')) (tock h0)"
  shows "cont h0 tmp = None" "copied h0 tmp src dst h'" "r = Inr () \<Longrightarrow> copied_ok h0 tmp src dst h'"
proof -
  obtain ro ho where o: "os_open Os src h0 = (ro, ho)" by fastforce
  then have ho: "ho = tock h0" by (auto simp: os_open_def split: option.splits if_splits)
  show none: "cont h0 tmp = None"
  proof -
    have "fs_read (tock h0) tmp = None" unfolding tmp using assms(1) by (simp only: fresh_temp_def)
    then show ?thesis by (simp add: cont_def)
  qed
  then have "src \<noteq> tmp" using assms(3) by auto
  have same: "\<forall>p. cont h' p = cont h0 p \<Longrightarrow> copied h0 tmp src dst h'" by (simp add: copied_def)
  have "copied h0 tmp src dst h' \<and> (r = Inr () \<longrightarrow> copied_ok h0 tmp src dst h')"
  proof (cases ro)
    case (Inl e)
    with assms(2) o ho same show ?thesis by (auto simp: copyFileAtomic_unfold)
  next
    case ro: (Inr u)
    obtain rt ht where t: "os_create_temp Os tmp ho = (rt, ht)" by fastforce
    show ?thesis
    proof (cases rt)
      case (Inl e)
      then have "ht = tock ho" using t by (auto simp: os_create_temp_def split: option.splits)
      with Inl assms(2) o t ho ro tmp same show ?thesis by (auto simp: copyFileAtomic_unfold)
    next
      case (Inr q)
      then have q: "q = tmp" and st: "staged h0 tmp (Some []) ht"
        using t ho by (auto simp: os_create_temp_def staged_def cont_put split: option.splits)
      obtain rb hb where b: "fill_and_publish Os src tmp dst perm ht = (rb, hb)" by fastforce
      have post: "case rb of Inr a \<Rightarrow> copied_ok h0 tmp src dst hb | Inl e \<Rightarrow> copied h0 tmp src dst hb"
        by (rule ensuresD [OF ensures_copy_body [OF \<open>src \<noteq> tmp\<close>] st b])
      have r: "r = rb" "h' = rm Os tmp hb"
        using assms(2) o ro t Inr q b ho tmp by (simp_all add: copyFileAtomic_unfold)
      then have "cont h' p = cont hb p" if "p \<noteq> tmp" for p
        using that cont_rm by simp
      with post r(1) show ?thesis by (auto simp: copied_ok_def copied_def split: sum.splits)
    qed
  qed
  then show "copied h0 tmp src dst h'" "r = Inr () \<Longrightarrow> copied_ok h0 tmp src dst h'" by simp_all
qed


lemma replace_by_copy:
  assumes "fresh_temp tempName" and src: "cont h src = Some c" and dst: "cont h dst \<noteq> None" "src \<noteq> dst"
    and run: "wrapErr os_err_text
        (andThen (copyFileAtomic Os tempName src dst perm) (\<lambda>_. removeIfExists Os src)) h = (r, h')"
  shows "cont h' dst = cont h dst \<or> cont h' dst = Some c" "r = Inr () \<Longrightarrow> cont h' dst = Some c"
proof -
  obtain r1 h1 where cp: "copyFileAtomic Os tempName src dst perm h = (r1, h1)" by fastforce
  define tmp where "tmp = tempName (path_join (path_dir dst) (''.'' @ path_base dst @ ''.'')) (tock h)"
  have "cont h src \<noteq> None" using src by simp
  note sp = copy_spec [OF assms(1) cp this tmp_def]
  have ne: "tmp \<noteq> dst" using sp(1) dst(1) by auto
  obtain r2 h2 where rm: "removeIfExists Os src h1 = (r2, h2)" by fastforce
  have c2: "cont h2 dst = cont h1 dst" using cont_removeIfExists [OF rm] dst(2) by simp
  have copied: "r1 = Inr () \<Longrightarrow> cont h1 dst = Some c" using sp(3) ne src by (simp add: copied_ok_def)
  have partial: "cont h1 dst = cont h dst \<or> cont h1 dst = Some c" using sp(2) ne src by (auto simp: copied_def)
  show "cont h' dst = cont h dst \<or> cont h' dst = Some c" "r = Inr () \<Longrightarrow> cont h' dst = Some c"
    using run cp rm c2 copied partial by (auto simp: andThen_def wrapErr_def split: sum.splits)
qed

lemma replace_by_rename:
  assumes "cont h dst = Some c"
    and "andThen (wrapErr (\<lambda>e. ''set target permissions: '' @ os_err_text e) (os_chmod Os dst perm))
          (\<lambda>_. wrapErr os_err_text (syncDir Os (path_dir dst))) h = (r, h')"
  shows "cont h' dst = Some c"
proof -
  let ?P = "\<lambda>h. cont h dst = Some c"
  have ac: "about_contents ?P" by (auto simp: about_contents_def)
  have "ensures ?P (andThen (wrapErr (\<lambda>e. ''set target permissions: '' @ os_err_text e) (os_chmod Os dst perm))
      (\<lambda>_. wrapErr os_err_text (syncDir Os (path_dir dst)))) (\<lambda>_. ?P) ?P"
    using ensures_chmod [OF ac] ensures_syncDir [OF ac]
    by (intro ensures_andThen [where M = "\<lambda>_. ?P"] ensures_wrapErr)
  from ensuresD [OF this assms] show ?thesis by (auto split: sum.splits)
qed

lemma replace_spec:
  assumes "fresh_temp tempName" "replaceFile Os tempName src dst perm h0 = (r, h')"
    and src: "cont h0 src = Some c" and dst: "cont h0 dst \<noteq> None" "src \<noteq> dst"
  shows "cont h' dst = cont h0 dst \<or> cont h' dst = Some c" "r = Inr () \<Longrightarrow> cont h' dst = Some c"
proof -
  obtain r1 h1 where m: "os_chmod Os src perm h0 = (r1, h1)" by fastforce
  note c1 = cont_chmod [OF m]
  obtain r2 h2 where n: "os_rename Os src dst h1 = (r2, h2)" by fastforce
  have "(cont h' dst = cont h0 dst \<or> cont h' dst = Some c) \<and> (r = Inr () \<longrightarrow> cont h' dst = Some c)"
  proof (cases "\<exists>e. r1 = Inl e")
    case True
    with m assms(2) c1 show ?thesis by (auto simp: replaceFile_def andThen_def wrapErr_def)
  next
    case False
    then have r1: "r1 = Inr ()" by (cases r1) auto
    note step = assms(2) m r1 n
    show ?thesis
    proof (cases r2)
      case (Inr v)
      have "cont h2 dst = Some c" using cont_rename(2) [OF n Inr] c1 src by simp
      moreover have "andThen (wrapErr (\<lambda>e. ''set target permissions: '' @ os_err_text e) (os_chmod Os dst perm))
          (\<lambda>_. wrapErr os_err_text (syncDir Os (path_dir dst))) h2 = (r, h')"
        using step Inr by (simp add: replaceFile_def andThen_def [of _ _ h0] wrapErr_def [of _ _ h0])
      ultimately show ?thesis using replace_by_rename by fast
    next
      case (Inl e)
      have c2: "cont h2 p = cont h0 p" for p using cont_rename(3) [OF n Inl] c1 by simp
      have "wrapErr os_err_text
          (andThen (copyFileAtomic Os tempName src dst perm) (\<lambda>_. removeIfExists Os src)) h2 = (r, h')"
        using step Inl by (simp add: replaceFile_def andThen_def [of _ _ h0] wrapErr_def [of _ _ h0])
      from replace_by_copy [OF assms(1) _ _ dst(2) this] src dst(1) c2 show ?thesis by simp
    qed
  qed
  then show "cont h' dst = cont h0 dst \<or> cont h' dst = Some c" "r = Inr () \<Longrightarrow> cont h' dst = Some c"
    by simp_all
qed

text \<open>What a download that passed all checks has put in place.\<close>

definition verified :: "prims \<Rightarrow> string \<Rightarrow> string \<Rightarrow> string \<Rightarrow> bool" where
  "verified P url expected d \<longleftrightarrow>
     has_prefix ''https://'' url \<and> hex_encode (sha256 P d) = expected \<and> length d \<le> maxDownloadSize + 1"

lemma cont_fetch: "fetch E url h = (r, h') \<Longrightarrow> cont h' p = cont h p"
  by (auto simp: fetch_def split: option.splits sum.splits if_splits)

lemma cont_executable: "executable E h = (r, h') \<Longrightarrow> cont h' p = cont h p"
  by (auto simp: executable_def split: option.splits)

lemma cont_check_size: "check_size Os h = (r, h') \<Longrightarrow> cont h' p = cont h p"
  by (auto simp: check_size_def split: option.splits if_splits)

lemma cont_open_trunc:
  assumes "os_open_trunc Os q perm h = (r, h')"
  shows "p \<noteq> q \<Longrightarrow> cont h' p = cont h p" "r = Inr u \<Longrightarrow> cont h' q = Some []"
  using assms by (auto simp: os_open_trunc_def cont_put split: option.splits)

lemma cont_receive:
  assumes "receive_body Os a h = (r, h')"
  shows "p \<noteq> downloadPart \<Longrightarrow> cont h' p = cont h p"
    "r = Inr u \<Longrightarrow> cont h downloadPart = Some [] \<Longrightarrow> cont h' downloadPart = Some (limited a)"
proof -
  obtain r1 h1 where w: "os_write Os downloadPart (limited a) h = (r1, h1)" by fastforce
  then have h': "h' = h1" using assms by (auto simp: receive_body_def split: sum.splits option.splits)
  then show "p \<noteq> downloadPart \<Longrightarrow> cont h' p = cont h p" using cont_write [OF w] by simp
  assume "r = Inr u" "cont h downloadPart = Some []"
  moreover from this have "r1 = Inr ()" using assms w by (cases r1) (auto simp: receive_body_def)
  ultimately show "cont h' downloadPart = Some (limited a)" using cont_write_ok [OF w [unfolded \<open>r1 = Inr ()\<close>]] h' by simp
qed


lemma ensures_call:
  assumes "\<And>h r h'. P h \<Longrightarrow> m h = (r, h') \<Longrightarrow> R h'"
    "\<And>h a h'. P h \<Longrightarrow> m h = (Inr a, h') \<Longrightarrow> Q a h'"
  shows "ensures P m Q R"
  by (rule ensuresI) (use assms in \<open>auto split: sum.splits\<close>)

text \<open>\<open>elsewhere h0\<close>: the download has touched no file but its own two.\<close>

definition elsewhere :: "host \<Rightarrow> host \<Rightarrow> bool" where
  "elsewhere h0 h \<longleftrightarrow> (\<forall>p. p \<noteq> downloadPart \<longrightarrow> p \<noteq> downloadFinal \<longrightarrow> cont h p = cont h0 p)"

lemma elsewhere_part:
  "elsewhere h0 h \<Longrightarrow> (\<And>p. p \<noteq> downloadPart \<Longrightarrow> cont h' p = cont h p) \<Longrightarrow> elsewhere h0 h'"
  by (simp add: elsewhere_def)

lemma limited_length: "length (limited a) \<le> maxDownloadSize + 1"
  by (simp add: limited_def)

lemma ensures_checked_body:
  fixes h0 :: host
  assumes "has_prefix ''https://'' url"
  defines "S \<equiv> \<lambda>d h. elsewhere h0 h \<and> cont h downloadPart = Some d"
  shows "ensures (S [])
    (andThen (wrapErr (\<lambda>e. ''write: '' @ e) (receive_body (eOs E) a)) (\<lambda>_.
     andThen (check_size (eOs E)) (\<lambda>_.
     andThen (check_hash (ePrims E) (limited a) expected) (\<lambda>_.
     andThen (wrapErr (\<lambda>e. ''sync temp file: '' @ os_err_text e) (os_sync (eOs E) downloadPart)) (\<lambda>_.
     wrapErr (\<lambda>e. ''close temp file: '' @ os_err_text e) (os_close (eOs E) downloadPart))))))
    (\<lambda>_ h. S (limited a) h \<and> verified (ePrims E) url expected (limited a)) (elsewhere h0)"
proof -
  let ?V = "verified (ePrims E) url expected (limited a)"
  let ?T = "\<lambda>h. S (limited a) h \<and> ?V"
  have ac: "about_contents (S (limited a))" "about_contents ?T"
    by (simp_all add: about_contents_def S_def elsewhere_def)
  have 1: "ensures (S []) (receive_body (eOs E) a) (\<lambda>_. S (limited a)) (elsewhere h0)"
    by (rule ensures_call) (auto simp: S_def dest: cont_receive intro: elsewhere_part [OF _ cont_receive(1)])
  have 2: "ensures (S (limited a)) (check_size (eOs E)) (\<lambda>_. S (limited a)) (elsewhere h0)"
    by (rule ensures_weaken [OF ensures_same_contents [OF ac(1) cont_check_size]]) (auto simp: S_def)
  have 3: "ensures (S (limited a)) (check_hash (ePrims E) (limited a) expected) (\<lambda>_. ?T) (elsewhere h0)"
    by (rule ensures_call)
      (use assms(1) limited_length in \<open>auto simp: check_hash_def fail_def ret_def S_def verified_def Let_def split: if_splits\<close>)
  have 4: "ensures ?T (os_sync (eOs E) downloadPart) (\<lambda>_. ?T) (elsewhere h0)"
    "ensures ?T (os_close (eOs E) downloadPart) (\<lambda>_. ?T) (elsewhere h0)"
    by (rule ensures_weaken [OF ensures_sync [OF ac(2)]] ensures_weaken [OF ensures_close [OF ac(2)]];
        auto simp: S_def)+
  show ?thesis
    by (intro ensures_andThen [OF ensures_wrapErr [OF 1]] ensures_andThen [OF 2] ensures_andThen [OF 3]
        ensures_andThen [OF ensures_wrapErr [OF 4(1)]] ensures_wrapErr [OF 4(2)])
qed

lemma ensures_download:
  "ensures (elsewhere h0) (downloadFile E url expected)
    (\<lambda>_ h. elsewhere h0 h \<and> (\<exists>d. cont h downloadFinal = Some d \<and> verified (ePrims E) url expected d))
    (elsewhere h0)"
proof (cases "has_prefix ''https://'' url")
  case False
  then show ?thesis by (simp add: downloadFile_def ensures_fail)
next
  case True
  let ?D = "elsewhere h0" and ?os = "eOs E"
  let ?S = "\<lambda>d h. ?D h \<and> cont h downloadPart = Some d"
  let ?T = "\<lambda>d h. ?S d h \<and> verified (ePrims E) url expected d"
  let ?F = "\<lambda>h. ?D h \<and> (\<exists>d. cont h downloadFinal = Some d \<and> verified (ePrims E) url expected d)"
  have ac: "about_contents ?D" "about_contents ?F"
    by (auto simp: about_contents_def elsewhere_def)
  have 1: "ensures ?D (removeIfExists ?os downloadPart) (\<lambda>_. ?D) ?D"
    by (rule ensures_call) (auto intro: elsewhere_part [OF _ cont_removeIfExists])
  have 2: "ensures ?D (fetch E url) (\<lambda>_. ?D) ?D"
    by (rule ensures_same_contents [OF ac(1) cont_fetch])
  have 3: "ensures ?D (os_open_trunc ?os downloadPart privateFilePerm) (\<lambda>_. ?S []) ?D"
    by (rule ensures_call) (auto dest: cont_open_trunc intro: elsewhere_part [OF _ cont_open_trunc(1)])
  have 4: "?D h \<Longrightarrow> ?D (rm ?os downloadPart h)" for h
    by (rule elsewhere_part [OF _ cont_rm])
  have 5: "ensures (?T d) (os_rename ?os downloadPart downloadFinal) (\<lambda>_. ?F) ?D" for d
  proof (rule ensures_call)
    fix h r h' assume pre: "?T d h" and m: "os_rename ?os downloadPart downloadFinal h = (r, h')"
    then show D: "?D h'" using cont_rename(1) [OF m] by (simp add: elsewhere_def)
  next
    fix h u h' assume pre: "?T d h" and m: "os_rename ?os downloadPart downloadFinal h = (Inr u, h')"
    then have "?D h'" using cont_rename(1) [OF m] by (simp add: elsewhere_def)
    with pre cont_rename(2) [OF m refl] show "?F h'" by simp
  qed
  have 6: "ensures ?F (syncDir ?os (path_dir downloadFinal)) (\<lambda>_. ?F) ?D"
    by (rule ensures_weaken [OF ensures_syncDir [OF ac(2)]]) auto
  have 7: "ensures (?T d) (wrapErr os_err_text (andThen (os_rename ?os downloadPart downloadFinal)
      (\<lambda>_. syncDir ?os (path_dir downloadFinal)))) (\<lambda>_. ?F) ?D" for d
    by (intro ensures_wrapErr ensures_andThen [OF 5 6])
  note body = ensures_onFail [where R = ?D and g = "rm ?os downloadPart",
      OF ensures_checked_body [OF True, where ?h0.0 = h0 and E = E and expected = expected] 4]
  show ?thesis using True unfolding downloadFile_def
    by (simp only: not_True_eq_False if_False)
      (intro ensures_andThen [OF ensures_wrapErr [OF 1]] ensures_andThen [OF 2]
        ensures_andThen [OF ensures_wrapErr [OF 3]] ensures_andThen [OF body] 7)
qed

text \<open>
  The stages of an update, as what is known of the executable: untouched; the verified download beside it; the
  backup taken, which overwrites the download when the version names a backup file that is the
  download itself; replaced. At no stage is it anything but its old content or a verified one.
\<close>

definition exe_sound :: "'db env \<Rightarrow> string \<Rightarrow> string \<Rightarrow> string \<Rightarrow> host \<Rightarrow> bool" where
  "exe_sound E url expected c h \<longleftrightarrow>
     cont h (eExecPath E) = Some c \<or>
     (\<exists>d. cont h (eExecPath E) = Some d \<and> verified (ePrims E) url expected d)"

definition exe_old :: "'db env \<Rightarrow> string \<Rightarrow> host \<Rightarrow> bool" where
  "exe_old E c h \<longleftrightarrow> cont h (eExecPath E) = Some c"

definition exe_fetched :: "'db env \<Rightarrow> string \<Rightarrow> string \<Rightarrow> string \<Rightarrow> host \<Rightarrow> bool" where
  "exe_fetched E url expected c h \<longleftrightarrow>
     exe_old E c h \<and> (\<exists>d. cont h downloadFinal = Some d \<and> verified (ePrims E) url expected d)"

definition exe_backed :: "'db env \<Rightarrow> string \<Rightarrow> string \<Rightarrow> string \<Rightarrow> string \<Rightarrow> host \<Rightarrow> bool" where
  "exe_backed E url expected ver c h \<longleftrightarrow>
     exe_old E c h \<and> (\<exists>d. cont h downloadFinal = Some d \<and>
       (verified (ePrims E) url expected d \<or> BackupPath ver = downloadFinal \<and> d = c))"

definition exe_new :: "'db env \<Rightarrow> string \<Rightarrow> string \<Rightarrow> string \<Rightarrow> string \<Rightarrow> host \<Rightarrow> bool" where
  "exe_new E url expected ver c h \<longleftrightarrow>
     exe_sound E url expected c h \<and>
     (BackupPath ver \<noteq> downloadFinal \<longrightarrow>
        (\<exists>d. cont h (eExecPath E) = Some d \<and> verified (ePrims E) url expected d))"

lemmas exe_stages = exe_sound_def exe_old_def exe_fetched_def exe_backed_def exe_new_def

lemma ensures_exe_dir: "ensures (exe_old E c) (ensurePrivateDir (eOs E) d) (\<lambda>_. exe_old E c) (exe_sound E url expected c)"
proof -
  have "about_contents (exe_old E c)" by (auto simp: about_contents_def exe_old_def)
  then show ?thesis by (rule ensures_weaken [OF ensures_privateDir]) (auto simp: exe_stages)
qed

lemma ensures_exe_download:
  assumes "eExecPath E \<noteq> downloadPart" "eExecPath E \<noteq> downloadFinal"
  shows "ensures (exe_old E c) (downloadFile E url expected)
    (\<lambda>_. exe_fetched E url expected c) (exe_sound E url expected c)"
proof (rule ensuresI)
  fix h r h' assume K: "exe_old E c h" and m: "downloadFile E url expected h = (r, h')"
  have "elsewhere h h" by (simp add: elsewhere_def)
  from ensuresD [OF ensures_download this m] K assms
  show "case r of Inr a \<Rightarrow> exe_fetched E url expected c h' | Inl e \<Rightarrow> exe_sound E url expected c h'"
    by (auto simp: elsewhere_def exe_stages split: sum.splits)
qed

lemma ensures_exe_path:
  "ensures (exe_fetched E url expected c) (executable E)
    (\<lambda>p h. exe_fetched E url expected c h \<and> p = eExecPath E) (exe_sound E url expected c)"
proof (rule ensuresI)
  fix h r h' assume "exe_fetched E url expected c h" and m: "executable E h = (r, h')"
  then have "exe_fetched E url expected c h'" using cont_executable [OF m] by (simp add: exe_stages)
  with m show "case r of Inr p \<Rightarrow> exe_fetched E url expected c h' \<and> p = eExecPath E
      | Inl e \<Rightarrow> exe_sound E url expected c h'"
    by (auto simp: executable_def exe_stages split: option.splits)
qed

lemma ensures_exe_backup:
  assumes "fresh_temp (eTempName E)"
  shows "ensures (exe_fetched E url expected c)
    (copyFileAtomic (eOs E) (eTempName E) (eExecPath E) (BackupPath ver) privateFilePerm)
    (\<lambda>_. exe_backed E url expected ver c) (exe_sound E url expected c)"
proof (rule ensuresI)
  let ?exe = "eExecPath E" and ?bak = "BackupPath ver"
  fix h r h' assume F: "exe_fetched E url expected c h"
    and m: "copyFileAtomic (eOs E) (eTempName E) ?exe ?bak privateFilePerm h = (r, h')"
  define tmp where "tmp = eTempName E (path_join (path_dir ?bak) (''.'' @ path_base ?bak @ ''.'')) (tock h)"
  have K: "cont h ?exe = Some c" using F by (simp add: exe_stages)
  then have "cont h ?exe \<noteq> None" by simp
  note sp = copy_spec [OF assms m this tmp_def]
  from F obtain d where d: "cont h downloadFinal = Some d" "verified (ePrims E) url expected d"
    by (auto simp: exe_stages)
  have ne: "tmp \<noteq> ?exe" "tmp \<noteq> downloadFinal" using sp(1) K d by auto
  have "cont h' ?exe = Some c" using sp(2) K ne by (auto simp: copied_def)
  moreover have "cont h' downloadFinal = Some d \<or> ?bak = downloadFinal \<and> cont h' downloadFinal = Some c"
    using sp(2) K d(1) ne by (auto simp: copied_def)
  ultimately show "case r of Inr a \<Rightarrow> exe_backed E url expected ver c h' | Inl e \<Rightarrow> exe_sound E url expected c h'"
    using d(2) by (auto simp: exe_stages split: sum.splits)
qed

lemma ensures_exe_replace:
  assumes "fresh_temp (eTempName E)" "eExecPath E \<noteq> downloadFinal"
  shows "ensures (exe_backed E url expected ver c)
    (replaceFile (eOs E) (eTempName E) downloadFinal (eExecPath E) privateExecPerm)
    (\<lambda>_. exe_new E url expected ver c) (exe_sound E url expected c)"
proof (rule ensuresI)
  fix h r h' assume G: "exe_backed E url expected ver c h"
    and m: "replaceFile (eOs E) (eTempName E) downloadFinal (eExecPath E) privateExecPerm h = (r, h')"
  from G obtain d where d: "cont h downloadFinal = Some d"
    "verified (ePrims E) url expected d \<or> BackupPath ver = downloadFinal \<and> d = c" by (auto simp: exe_stages)
  have "cont h (eExecPath E) \<noteq> None" using G by (simp add: exe_stages)
  note sp = replace_spec [OF assms(1) m d(1) this assms(2) [symmetric]]
  show "case r of Inr a \<Rightarrow> exe_new E url expected ver c h' | Inl e \<Rightarrow> exe_sound E url expected c h'"
    using sp d(2) G by (auto simp: exe_stages split: sum.splits)
qed

lemma ensures_exe_install:
  assumes "fresh_temp (eTempName E)" "eExecPath E \<noteq> downloadFinal"
  shows "ensures (\<lambda>h. exe_fetched E url expected c h \<and> p = eExecPath E)
    (andThen (wrapErr (\<lambda>e. ''backup: '' @ os_err_text e)
       (copyFileAtomic (eOs E) (eTempName E) p (BackupPath ver) privateFilePerm))
     (\<lambda>_. wrapErr (\<lambda>e. ''replace binary: '' @ e)
       (replaceFile (eOs E) (eTempName E) downloadFinal p privateExecPerm)))
    (\<lambda>_. exe_new E url expected ver c) (exe_sound E url expected c)"
proof (cases "p = eExecPath E")
  case True
  from ensures_andThen [OF ensures_wrapErr [OF ensures_exe_backup [OF assms(1)]]
      ensures_wrapErr [OF ensures_exe_replace [OF assms]]]
  show ?thesis unfolding True by simp
qed (simp add: ensures_def)

lemma apply_spec:
  assumes "fresh_temp (eTempName E)" and run: "DownloadAndApply E url expected ver h = (r, h')"
    and exe: "cont h (eExecPath E) = Some c" "eExecPath E \<noteq> downloadPart" "eExecPath E \<noteq> downloadFinal"
  shows "cont h' (eExecPath E) = Some c \<or>
      (\<exists>d. cont h' (eExecPath E) = Some d \<and> verified (ePrims E) url expected d)"
    "r = Inr () \<Longrightarrow> BackupPath ver \<noteq> downloadFinal \<Longrightarrow>
       \<exists>d. cont h' (eExecPath E) = Some d \<and> verified (ePrims E) url expected d"
proof -
  have all: "ensures (exe_old E c) (DownloadAndApply E url expected ver)
      (\<lambda>_. exe_new E url expected ver c) (exe_sound E url expected c)"
    unfolding DownloadAndApply_def
    by (rule ensures_andThen [OF ensures_wrapErr [OF ensures_exe_dir]]
        ensures_andThen [OF ensures_wrapErr [OF ensures_exe_download [OF exe(2,3)]]]
        ensures_andThen [OF ensures_wrapErr [OF ensures_exe_path]] ensures_exe_install [OF assms(1) exe(3)])+
  have "exe_old E c h" using exe(1) by (simp add: exe_old_def)
  from ensuresD [OF all this run]
  show "cont h' (eExecPath E) = Some c \<or>
      (\<exists>d. cont h' (eExecPath E) = Some d \<and> verified (ePrims E) url expected d)"
    "r = Inr () \<Longrightarrow> BackupPath ver \<noteq> downloadFinal \<Longrightarrow>
       \<exists>d. cont h' (eExecPath E) = Some d \<and> verified (ePrims E) url expected d"
    by (auto simp: exe_stages split: sum.splits)
qed

section \<open>The update when nothing fails\<close>

text \<open>A machine on which no system call fails.\<close>

definition faultless :: "os \<Rightarrow> bool" where
  "faultless Os \<longleftrightarrow> fault Os = (\<lambda>c h. None)"

lemma faultless_fault: "faultless Os \<Longrightarrow> fault Os c h = None"
  by (simp add: faultless_def)

named_theorems run_simps \<open>system calls that do not fail\<close>

lemma faultless_calls [run_simps]:
  assumes "faultless Os"
  shows "fs_read h p = Some f \<Longrightarrow> os_chmod Os p m h = (Inr (), tock (fs_put p (f\<lparr>mode := m\<rparr>) h))"
    "fs_read h p = None \<Longrightarrow> p \<in> set (dirs h) \<Longrightarrow> os_chmod Os p m h = (Inr (), tock (h\<lparr>dir_modes := AList.update p m (dir_modes h)\<rparr>))"
    "fs_read h p = Some f \<Longrightarrow> os_rename Os p q h = (Inr (), tock (fs_put q f (fs_del p h)))"
    "fs_read h p = Some f \<Longrightarrow> os_open Os p h = (Inr (), tock h)"
    "p \<in> set (dirs h) \<Longrightarrow> os_open Os p h = (Inr (), tock h)"
    "os_sync Os p h = (Inr (), tock h)" "os_close Os p h = (Inr (), tock h)"
    "os_create_temp Os p h = (Inr p, tock (fs_put p \<lparr>content = [], mode = perm_0600\<rparr> h))"
    "fs_read h p = Some f \<Longrightarrow> os_write Os p t h = (Inr (), tock (fs_put p (f\<lparr>content := content f @ t\<rparr>) h))"
    "fs_read h p = None \<Longrightarrow> os_open_trunc Os p m h = (Inr p, tock (fs_put p \<lparr>content = [], mode = m\<rparr> h))"
    "fs_read h p = Some f \<Longrightarrow> os_read_file Os p h = (Inr (content f), tock h)"
  using assms
  by (simp_all add: faultless_def os_chmod_def os_rename_def os_open_def os_sync_def os_close_def
      os_create_temp_def os_write_def os_open_trunc_def os_read_file_def)

lemma faultless_rm: "faultless Os \<Longrightarrow> fs_read (rm Os p h) = (fs_read h)(p := None) \<and> dirs (rm Os p h) = dirs h"
  by (auto simp: faultless_def rm_def os_remove_def fstab.look_del fun_eq_iff split: option.splits)

lemma faultless_syncDir [run_simps]:
  "faultless Os \<Longrightarrow> d \<in> set (dirs h) \<Longrightarrow> syncDir Os d h = (Inr (), tock (tock h))"
  by (simp add: syncDir_def andThen_def run_simps)

lemma fs_read_tock_fun [simp]: "fs_read (tock h) = fs_read h"
  by (simp add: fun_eq_iff)

lemma fill_run:
  assumes "faultless Os" "fs_read h1 tmp = Some \<lparr>content = [], mode = m\<rparr>" "fs_read h1 src = Some f"
    and "tmp \<noteq> src" "tmp \<noteq> dst" "path_dir dst \<in> set (dirs h1)"
  shows "\<exists>h2. fill_and_publish Os src tmp dst perm h1 = (Inr (), h2) \<and>
    fs_read h2 = (fs_read h1)(tmp := None, dst \<mapsto> \<lparr>content = content f, mode = perm\<rparr>) \<and> dirs h2 = dirs h1"
proof -
  show ?thesis using assms faultless_fault [OF assms(1)]
    by (simp add: fill_and_publish_def andThen_def io_copy_def run_simps fstab.look_put fstab.look_del fun_eq_iff)
qed

lemma copy_run:
  assumes "faultless Os" "fresh_temp T" "fs_read h src = Some f" "path_dir dst \<in> set (dirs h)"
    and "T (path_join (path_dir dst) (''.'' @ path_base dst @ ''.'')) (tock h) \<noteq> dst"
  obtains h' where "copyFileAtomic Os T src dst perm h = (Inr (), h')"
    "fs_read h' = (fs_read h)(dst \<mapsto> \<lparr>content = content f, mode = perm\<rparr>)" "dirs h' = dirs h"
proof -
  define tmp where "tmp = T (path_join (path_dir dst) (''.'' @ path_base dst @ ''.'')) (tock h)"
  have none: "fs_read h tmp = None"
    using assms(2) unfolding fresh_temp_def tmp_def by (metis fs_read_tock)
  have ne: "tmp \<noteq> src" "tmp \<noteq> dst" using none assms(3,5) by (auto simp: tmp_def)
  define h1 where "h1 = tock (fs_put tmp \<lparr>content = [], mode = perm_0600\<rparr> (tock h))"
  have "\<exists>h2. fill_and_publish Os src tmp dst perm h1 = (Inr (), h2) \<and>
      fs_read h2 = (fs_read h)(tmp := None, dst \<mapsto> \<lparr>content = content f, mode = perm\<rparr>) \<and> dirs h2 = dirs h"
    using fill_run [OF assms(1), of h1 tmp perm_0600 src f dst perm] ne none assms(3,4)
    by (simp add: h1_def fstab.look_put)
  then obtain h2 where h2: "fill_and_publish Os src tmp dst perm h1 = (Inr (), h2)"
    "fs_read h2 = (fs_read h)(tmp := None, dst \<mapsto> \<lparr>content = content f, mode = perm\<rparr>)" "dirs h2 = dirs h"
    by blast
  have "copyFileAtomic Os T src dst perm h = (Inr (), rm Os tmp h2)"
    using assms(1,3) h2(1) unfolding copyFileAtomic_unfold
    by (simp add: run_simps h1_def tmp_def [symmetric, simplified])
  moreover have "fs_read (rm Os tmp h2) = (fs_read h)(dst \<mapsto> \<lparr>content = content f, mode = perm\<rparr>)"
    using faultless_rm [OF assms(1)] h2(2) ne(2) none by (auto simp: fun_eq_iff)
  moreover have "dirs (rm Os tmp h2) = dirs h" using faultless_rm [OF assms(1)] h2(3) by simp
  ultimately show thesis using that by blast
qed


lemma replace_run:
  assumes "faultless Os" "fs_read h src = Some f" "src \<noteq> dst" "path_dir dst \<in> set (dirs h)"
  obtains h' where "replaceFile Os T src dst perm h = (Inr (), h')"
    "fs_read h' = (fs_read h)(src := None, dst \<mapsto> f\<lparr>mode := perm\<rparr>)" "dirs h' = dirs h"
proof -
  have "\<exists>h'. replaceFile Os T src dst perm h = (Inr (), h') \<and>
    fs_read h' = (fs_read h)(src := None, dst \<mapsto> f\<lparr>mode := perm\<rparr>) \<and> dirs h' = dirs h"
    using assms
    by (simp add: replaceFile_def andThen_def wrapErr_def run_simps fstab.look_put fstab.look_del fun_eq_iff)
  then show thesis using that by blast
qed

lemma privateDir_run:
  assumes "faultless Os" "\<forall>d \<in> set (parents (length p) p). fs_read h d = None"
  obtains h' where "ensurePrivateDir Os p h = (Inr (), h')" "fs_read h' = fs_read h"
    "dirs h' = parents (length p) p @ dirs h"
proof -
  have p: "p \<in> set (parents (length p) p)" by (cases "length p") auto
  with assms(2) have "fs_read h p = None" by blast
  have "os_mkdir_all Os p h = (Inr (), tock (h\<lparr>dirs := parents (length p) p @ dirs h\<rparr>))"
    using assms by (auto simp: os_mkdir_all_def faultless_def)
  moreover have "fs_read (h\<lparr>dirs := ds\<rparr>) q = fs_read h q" for ds q by (simp add: fs_read_def)
  ultimately have "\<exists>h'. ensurePrivateDir Os p h = (Inr (), h') \<and> fs_read h' = fs_read h \<and>
      dirs h' = parents (length p) p @ dirs h"
    using assms(1) p \<open>fs_read h p = None\<close>
    by (simp add: ensurePrivateDir_def andThen_def run_simps fun_eq_iff)
  then show thesis using that by blast
qed

text \<open>The server sends the file that was announced.\<close>

definition serves :: "'db env \<Rightarrow> string \<Rightarrow> string \<Rightarrow> string \<Rightarrow> bool" where
  "serves E url expected body \<longleftrightarrow>
     has_prefix ''https://'' url \<and> eNewRequest E url = None \<and> length body \<le> maxDownloadSize \<and>
     hex_encode (sha256 (ePrims E) body) = expected \<and>
     (\<forall>hs h. eHttp E url hs h = Inr \<lparr>ha_status = 200, ha_body = body, ha_read_err = None\<rparr>)"

lemma part_final: "downloadPart \<noteq> downloadFinal"
  by (simp add: downloadPart_def downloadFinal_def)

lemma download_run:
  assumes "faultless (eOs E)" "serves E url expected body" "path_dir downloadFinal \<in> set (dirs h)"
  obtains h' where "downloadFile E url expected h = (Inr (), h')"
    "fs_read h' = (fs_read h)(downloadPart := None, downloadFinal \<mapsto> \<lparr>content = body, mode = privateFilePerm\<rparr>)"
    "dirs h' = dirs h"
proof -
  define h1 where "h1 = snd (os_remove (eOs E) downloadPart h)"
  have rm: "removeIfExists (eOs E) downloadPart h = (Inr (), h1)"
    and h1: "fs_read h1 = (fs_read h)(downloadPart := None)" "dirs h1 = dirs h"
    using assms(1)
    by (auto simp: h1_def removeIfExists_def os_remove_def faultless_def fstab.look_del fun_eq_iff split: option.splits)
  have lim: "limited \<lparr>ha_status = 200, ha_body = body, ha_read_err = None\<rparr> = body"
    "body_read_err \<lparr>ha_status = 200, ha_body = body, ha_read_err = None\<rparr> = None"
    using assms(2) by (simp_all add: limited_def body_read_err_def serves_def)
  have "\<exists>h'. downloadFile E url expected h = (Inr (), h') \<and>
    fs_read h' = (fs_read h)(downloadPart := None, downloadFinal \<mapsto> \<lparr>content = body, mode = privateFilePerm\<rparr>) \<and>
    dirs h' = dirs h"
    using assms part_final h1 rm lim faultless_fault [OF assms(1)]
    by (simp add: downloadFile_def serves_def andThen_def wrapErr_def onFail_def fetch_def receive_body_def
        check_size_def check_hash_def ret_def run_simps fstab.look_put fstab.look_del fun_eq_iff)
  then show thesis using that by blast
qed


lemma parents_backup:
  "parents (length backupDir) backupDir = [backupDir, ''/var/lib/autopeer-agent'', ''/var/lib'', ''/var'', ''/'']"
  "parents (length (path_dir backupDir)) (path_dir backupDir) =
     [''/var/lib/autopeer-agent'', ''/var/lib'', ''/var'', ''/'']"
  "path_dir downloadFinal = ''/var/lib/autopeer-agent''"
  by code_simp+

lemma backup_comps: "path_comps backupDir = [''var'', ''lib'', ''autopeer-agent'', ''backup'']" "is_rooted backupDir"
  by code_simp+

text \<open>A version that gives a file name.\<close>

definition plain_version :: "string \<Rightarrow> bool" where
  "plain_version v \<longleftrightarrow> CHR ''/'' \<notin> set v"

lemma join_backup: "plain_name x \<Longrightarrow> path_join backupDir x = backupDir @ ''/'' @ x"
  using backup_comps by (subst path_join_plain) (auto simp: backupDir_def path_of_def)

lemma backup_path:
  assumes "plain_version v"
  shows "BackupPath v = backupDir @ ''/autopeer-agent.'' @ v"
  using assms join_backup [of "''autopeer-agent.'' @ v"]
  by (simp add: BackupPath_def plain_name_def plain_version_def)

lemma backup_path_parts:
  assumes "plain_version v"
  shows "path_dir (BackupPath v) = backupDir" "path_base (BackupPath v) = ''autopeer-agent.'' @ v"
    "BackupPath v \<noteq> downloadFinal" "BackupPath v \<noteq> downloadPart"
proof -
  let ?x = "''autopeer-agent.'' @ v"
  have x: "CHR ''/'' \<notin> set ?x" using assms by (auto simp: plain_version_def)
  have r: "rev (BackupPath v) = rev ?x @ CHR ''/'' # rev backupDir" by (simp add: backup_path [OF assms])
  have "dropWhile (\<lambda>c. c \<noteq> CHR ''/'') (rev (BackupPath v)) = CHR ''/'' # rev backupDir"
    unfolding r using x by (subst dropWhile_append2) auto
  moreover have "path_clean (backupDir @ ''/'') = backupDir" by code_simp
  ultimately show "path_dir (BackupPath v) = backupDir" by (simp add: path_dir_def)
  have "hd (rev ?x) \<noteq> CHR ''/''" using x by (metis append_is_Nil_conv hd_in_set list.distinct(1) rev_is_Nil_conv set_rev)
  then have "dropWhile (\<lambda>c. c = CHR ''/'') (rev (BackupPath v)) = rev (BackupPath v)"
    unfolding r by (cases "rev ?x") auto
  moreover have "takeWhile (\<lambda>c. c \<noteq> CHR ''/'') (rev (BackupPath v)) = rev ?x"
    unfolding r using takeWhile_rev_sep(1) [OF x] .
  ultimately show "path_base (BackupPath v) = ?x"
    by (simp add: path_base_def Let_def backup_path [OF assms])
  show "BackupPath v \<noteq> downloadFinal" "BackupPath v \<noteq> downloadPart"
    by (simp_all add: backup_path [OF assms] backupDir_def downloadFinal_def downloadPart_def)
qed

text \<open>The name of a temporary file starts with the given text, as the manual of \<open>os.CreateTemp\<close> says.\<close>

definition temp_named :: "(string \<Rightarrow> host \<Rightarrow> string) \<Rightarrow> bool" where
  "temp_named T \<longleftrightarrow> (\<forall>p h. has_prefix p (T p h))"

lemma temp_not_backup:
  assumes "temp_named T" "plain_version v"
  shows "T (path_join (path_dir (BackupPath v)) (''.'' @ path_base (BackupPath v) @ ''.'')) h \<noteq> BackupPath v"
proof -
  have "plain_name (''.'' @ path_base (BackupPath v) @ ''.'')"
    using assms(2) by (simp add: backup_path_parts plain_name_def plain_version_def)
  then have "path_join (path_dir (BackupPath v)) (''.'' @ path_base (BackupPath v) @ ''.'') =
      backupDir @ ''/.'' @ path_base (BackupPath v) @ ''.''"
    using assms(2) by (simp add: backup_path_parts join_backup)
  then obtain t where "T (path_join (path_dir (BackupPath v)) (''.'' @ path_base (BackupPath v) @ ''.'')) h =
      backupDir @ ''/.'' @ path_base (BackupPath v) @ ''.'' @ t"
    using assms(1) unfolding temp_named_def by (metis append.assoc has_prefix_iff)
  then show ?thesis by (simp add: backup_path [OF assms(2)])
qed


text \<open>The machine before an update: an executable, and no files where directories have to be.\<close>

definition update_ready :: "'db env \<Rightarrow> string \<Rightarrow> gofile \<Rightarrow> host \<Rightarrow> bool" where
  "update_ready E ver f h \<longleftrightarrow>
     fs_read h (eExecPath E) = Some f \<and>
     eExecPath E \<notin> {downloadPart, downloadFinal, BackupPath ver} \<and> path_dir (eExecPath E) \<in> set (dirs h) \<and>
     (\<forall>d \<in> set (parents (length backupDir) backupDir). fs_read h d = None)"

lemma apply_run:
  assumes ok: "faultless (eOs E)" "fresh_temp (eTempName E)" "temp_named (eTempName E)"
    and ver: "plain_version ver" and ready: "update_ready E ver f h" and srv: "serves E url expected body"
  obtains h' where "DownloadAndApply E url expected ver h = (Inr (), h')"
    "fs_read h' = (fs_read h)(downloadPart := None, downloadFinal := None,
       BackupPath ver \<mapsto> \<lparr>content = content f, mode = privateFilePerm\<rparr>,
       eExecPath E \<mapsto> \<lparr>content = body, mode = privateExecPerm\<rparr>)"
    "set (dirs h') = set (parents (length backupDir) backupDir) \<union> set (dirs h)"
proof -
  let ?exe = "eExecPath E" and ?bak = "BackupPath ver" and ?os = "eOs E"
  have exe: "fs_read h ?exe = Some f" "?exe \<noteq> downloadPart" "?exe \<noteq> downloadFinal" "?exe \<noteq> ?bak"
    "path_dir ?exe \<in> set (dirs h)" and free: "\<forall>d \<in> set (parents (length backupDir) backupDir). fs_read h d = None"
    using ready by (simp_all add: update_ready_def)
  have "\<forall>d \<in> set (parents (length (path_dir backupDir)) (path_dir backupDir)). fs_read h d = None"
    using free by (auto simp: parents_backup)
  with ok(1) obtain h1 where h1: "ensurePrivateDir ?os (path_dir backupDir) h = (Inr (), h1)" "fs_read h1 = fs_read h"
    "dirs h1 = parents (length (path_dir backupDir)) (path_dir backupDir) @ dirs h"
    by (rule privateDir_run)
  have "\<forall>d \<in> set (parents (length backupDir) backupDir). fs_read h1 d = None" using free h1(2) by simp
  with ok(1) obtain h2 where h2: "ensurePrivateDir ?os backupDir h1 = (Inr (), h2)" "fs_read h2 = fs_read h1"
    "dirs h2 = parents (length backupDir) backupDir @ dirs h1"
    by (rule privateDir_run)
  have dirs: "backupDir \<in> set (dirs h2)" "path_dir downloadFinal \<in> set (dirs h2)" "path_dir ?exe \<in> set (dirs h2)"
    using h1(3) h2(3) exe(5) by (auto simp: parents_backup)
  obtain h3 where h3: "downloadFile E url expected h2 = (Inr (), h3)" "dirs h3 = dirs h2"
    "fs_read h3 = (fs_read h2)(downloadPart := None, downloadFinal \<mapsto> \<lparr>content = body, mode = privateFilePerm\<rparr>)"
    by (rule download_run [OF ok(1) srv dirs(2)])
  have x: "executable E h3 = (Inr ?exe, tock h3)"
    using faultless_fault [OF ok(1)] by (simp add: executable_def)
  have "fs_read (tock h3) ?exe = Some f" using h3(3) h2(2) h1(2) exe by simp
  moreover have "path_dir ?bak \<in> set (dirs (tock h3))" using dirs(1) h3(2) backup_path_parts(1) [OF ver] by simp
  ultimately obtain h4 where h4: "copyFileAtomic ?os (eTempName E) ?exe ?bak privateFilePerm (tock h3) = (Inr (), h4)"
    "fs_read h4 = (fs_read (tock h3))(?bak \<mapsto> \<lparr>content = content f, mode = privateFilePerm\<rparr>)"
    "dirs h4 = dirs (tock h3)"
    by (rule copy_run [OF ok(1,2) _ _ temp_not_backup [OF ok(3) ver]])
  have "fs_read h4 downloadFinal = Some \<lparr>content = body, mode = privateFilePerm\<rparr>"
    using h4(2) h3(3) backup_path_parts(3) [OF ver] by simp
  moreover have "path_dir ?exe \<in> set (dirs h4)" using dirs(3) h3(2) h4(3) by simp
  ultimately obtain h5 where h5: "replaceFile ?os (eTempName E) downloadFinal ?exe privateExecPerm h4 = (Inr (), h5)"
    "fs_read h5 = (fs_read h4)(downloadFinal := None, ?exe \<mapsto> \<lparr>content = body, mode = privateFilePerm\<rparr>\<lparr>mode := privateExecPerm\<rparr>)"
    "dirs h5 = dirs h4"
    by (rule replace_run [OF ok(1) _ exe(3) [symmetric]])
  have "DownloadAndApply E url expected ver h = (Inr (), h5)"
    using h1(1) h2(1) h3(1) x h4(1) h5(1) by (simp add: DownloadAndApply_def andThen_def wrapErr_def)
  moreover have "fs_read h5 = (fs_read h)(downloadPart := None, downloadFinal := None,
       ?bak \<mapsto> \<lparr>content = content f, mode = privateFilePerm\<rparr>,
       ?exe \<mapsto> \<lparr>content = body, mode = privateExecPerm\<rparr>)"
    using h5(2) h4(2) h3(3) h2(2) h1(2) exe backup_path_parts(3,4) [OF ver] by (auto simp: fun_eq_iff)
  moreover have "set (dirs h5) = set (parents (length backupDir) backupDir) \<union> set (dirs h)"
    using h5(3) h4(3) h3(2) h2(3) h1(3) by (auto simp: parents_backup)
  ultimately show thesis by (rule that)
qed

section \<open>The handlers\<close>

definition already_applied :: "'db env \<Rightarrow> update_payload \<Rightarrow> string \<Rightarrow> 'db agent \<Rightarrow> bool" where
  "already_applied E p c st \<longleftrightarrow>
     fst (GetUpdateID (eBolt E) (a_db st)) = up_UpdateID p \<or> hex_encode (sha256 (ePrims E) c) = up_SHA256 p"

lemma sha256File_run:
  "faultless Os \<Longrightarrow> fs_read h p = Some f \<Longrightarrow>
     sha256File Os P p h = (Inr (hex_encode (sha256 P (content f))), tock (tock h))"
  by (simp add: sha256File_def andThen_def run_simps faultless_fault)

lemma RestartSelf_run:
  "faultless (eOs E) \<Longrightarrow> RestartSelf E st = st\<lparr>a_host := tock (a_host st), a_end := Some (Execed (eExecPath E))\<rparr>"
  by (simp add: RestartSelf_def on_host_def executable_def faultless_fault)

lemma update_run:
  assumes "faultless (eOs E)" "fresh_temp (eTempName E)" "temp_named (eTempName E)"
    and "unmarshal update_dec (m_Payload msg) = Some p"
    and "ver = fst (GetVersion (eBolt E) (a_db st))" "ver \<noteq> []" "plain_version ver"
    and "update_ready E ver f (a_host st)" "\<not> already_applied E p (content f) st"
    and "serves E (up_URL p) (up_SHA256 p) body"
    and "st' = handleAgentUpdate E msg st"
  shows "fs_read (a_host st') = (fs_read (a_host st))(downloadPart := None, downloadFinal := None,
      BackupPath ver \<mapsto> \<lparr>content = content f, mode = privateFilePerm\<rparr>,
      eExecPath E \<mapsto> \<lparr>content = body, mode = privateExecPerm\<rparr>) \<and>
    a_db st' = snd (Close (eBolt E) (snd (PutUpdateID (eBolt E) (up_UpdateID p)
      (snd (PutVersion (eBolt E) (up_Version p) (a_db st)))))) \<and>
    a_ws st' = ws_Close (snd (Send (ePrims E) (response_msg (m_ID msg) True ''update applied, restarting'')
      (snd (Send (ePrims E) \<lparr>m_Type = ''agent.updating'', m_ID = [],
         m_Payload = Some (JObj [(''update_id'', JStr (up_UpdateID p))]), m_Success = None, m_Error = []\<rparr>
         (a_ws st))))) \<and>
    a_end st' = Some (Execed (eExecPath E)) \<and>
    set (dirs (a_host st')) = set (parents (length backupDir) backupDir) \<union> set (dirs (a_host st))"
proof -
  let ?h = "tock (tock (tock (a_host st)))"
  have f: "fs_read (tock (a_host st)) (eExecPath E) = Some f" using assms(8) by (simp add: update_ready_def)
  have "update_ready E ver f ?h" using assms(8) by (simp add: update_ready_def)
  then obtain h' where h': "DownloadAndApply E (up_URL p) (up_SHA256 p) ver ?h = (Inr (), h')"
    "fs_read h' = (fs_read ?h)(downloadPart := None, downloadFinal := None,
       BackupPath ver \<mapsto> \<lparr>content = content f, mode = privateFilePerm\<rparr>,
       eExecPath E \<mapsto> \<lparr>content = body, mode = privateExecPerm\<rparr>)"
    "set (dirs h') = set (parents (length backupDir) backupDir) \<union> set (dirs ?h)"
    by (rule apply_run [OF assms(1-3,7) _ assms(10)])
  have exe: "executable E (a_host st) = (Inr (eExecPath E), tock (a_host st))"
    using faultless_fault [OF assms(1)] by (simp add: executable_def)
  have "st' = finish_update E msg p (st\<lparr>a_host := h'\<rparr>)"
    using assms(4-6,9,11) exe h'(1) sha256File_run [OF assms(1) f, of "ePrims E"]
    by (simp add: handleAgentUpdate_def on_host_def already_applied_def Let_def)
  then show ?thesis using h'(2,3)
    by (simp add: finish_update_def RestartSelf_run [OF assms(1)] Let_def sendResponseChecked_def)
qed


lemma cont_sha256File: "sha256File Os P q h = (r, h') \<Longrightarrow> cont h' p = cont h p"
  by (auto simp: sha256File_def andThen_def os_read_file_def split: option.splits)

lemma RestartSelf_effect:
  "a_end (RestartSelf E st) \<noteq> None" "cont (a_host (RestartSelf E st)) p = cont (a_host st) p"
  using cont_executable [of E "a_host st" "fst (executable E (a_host st))" "snd (executable E (a_host st))" p]
  by (auto simp: RestartSelf_def on_host_def split: prod.splits sum.splits option.splits)

lemma finish_update_effect:
  "a_end (finish_update E msg p st) \<noteq> None"
  "cont (a_host (finish_update E msg p st)) q = cont (a_host st) q"
  by (simp_all add: finish_update_def RestartSelf_effect Let_def sendResponseChecked_def)

text \<open>The ways through the update handler: an early answer, a failed update, a restart.\<close>

lemma update_cases:
  assumes "unmarshal update_dec (m_Payload msg) = Some p"
  obtains
    (early) st1 b t where "\<forall>q. cont (a_host st1) q = cont (a_host st) q" "a_ws st1 = a_ws st" "a_end st1 = a_end st"
      "a_host (handleAgentUpdate E msg st) = a_host st1"
      "a_ws (handleAgentUpdate E msg st) = a_ws (sendResponse E (m_ID msg) b t st1)"
      "a_end (handleAgentUpdate E msg st) = a_end st"
  | (failed) h1 h2 e where "\<forall>q. cont h1 q = cont (a_host st) q"
      "DownloadAndApply E (up_URL p) (up_SHA256 p) (fst (GetVersion (eBolt E) (a_db st))) h1 = (Inl e, h2)"
      "handleAgentUpdate E msg st = sendResponse E (m_ID msg) False (''update failed: '' @ e) (st\<lparr>a_host := h2\<rparr>)"
  | (applied) h1 h2 where "\<forall>q. cont h1 q = cont (a_host st) q"
      "DownloadAndApply E (up_URL p) (up_SHA256 p) (fst (GetVersion (eBolt E) (a_db st))) h1 = (Inr (), h2)"
      "handleAgentUpdate E msg st = finish_update E msg p (st\<lparr>a_host := h2\<rparr>)"
proof -
  let ?ver = "fst (GetVersion (eBolt E) (a_db st))"
  obtain r1 h1 where x: "executable E (a_host st) = (r1, h1)" by fastforce
  obtain r2 h2 where y: "sha256File (eOs E) (ePrims E) (projr r1) h1 = (r2, h2)" by fastforce
  obtain r3 h3 where z: "DownloadAndApply E (up_URL p) (up_SHA256 p) ?ver h2 = (r3, h3)" by fastforce
  note c1 = cont_executable [OF x]
  have c2: "\<forall>q. cont h2 q = cont (a_host st) q" using cont_sha256File [OF y] c1 by simp
  note early1 = early [of "st\<lparr>a_host := h1\<rparr>"] and early2 = early [of "st\<lparr>a_host := h2\<rparr>"]
  note defs = handleAgentUpdate_def on_host_def
  consider (known) "fst (GetUpdateID (eBolt E) (a_db st)) = up_UpdateID p"
    | (no_path) e where "fst (GetUpdateID (eBolt E) (a_db st)) \<noteq> up_UpdateID p" "r1 = Inl e"
    | (no_hash) exe e where "fst (GetUpdateID (eBolt E) (a_db st)) \<noteq> up_UpdateID p" "r1 = Inr exe" "r2 = Inl e"
    | (hash) exe hash where "fst (GetUpdateID (eBolt E) (a_db st)) \<noteq> up_UpdateID p" "r1 = Inr exe" "r2 = Inr hash"
    by (cases r1; cases r2) auto
  then show thesis
  proof cases
    case known
    with assms show thesis by (intro early [of st]) (simp_all add: defs)
  next
    case no_path
    with assms x c1 show thesis by (intro early1) (simp_all add: defs)
  next
    case no_hash
    with assms x y c2 show thesis by (intro early2) (simp_all add: defs)
  next
    case hash
    note pre = assms hash x y z c2
    show thesis
    proof (cases "hash = up_SHA256 p")
      case True
      with pre show thesis by (intro early2) (simp_all add: defs)
    next
      case new: False
      show thesis
      proof (cases "?ver = []")
        case True
        with pre new show thesis by (intro early2) (simp_all add: defs)
      next
        case False
        with pre new show thesis by (cases r3) (auto simp: defs intro: failed [OF c2] applied [OF c2])
      qed
    qed
  qed
qed

text \<open>An update without an id, on a store that has none, is taken for one that was applied.\<close>

lemma update_without_id_skipped:
  assumes "unmarshal update_dec (m_Payload msg) = Some p" "up_UpdateID p = []"
    and "fst (GetUpdateID (eBolt E) (a_db st)) = []"
  shows "handleAgentUpdate E msg st = sendResponse E (m_ID msg) True ''already applied'' st"
  using assms by (simp add: handleAgentUpdate_def)

text \<open>
  C4: an update never leaves the agent with an executable that was not verified. Whatever the
  server sends and whichever system calls fail, afterwards the executable holds in full what it held
  before or a file that came over https, whose SHA-256 is the announced one and that is at most one byte
  over the size limit. The agent restarts only in the second case (for a stored version that names a
  file), and when it does not restart it has answered the center exactly once.
\<close>

theorem update_installs_only_verified:
  assumes "fresh_temp (eTempName E)" "unmarshal update_dec (m_Payload msg) = Some p"
    and "cont (a_host st) (eExecPath E) = Some c" "eExecPath E \<noteq> downloadPart" "eExecPath E \<noteq> downloadFinal"
    and "a_end st = None" "st' = handleAgentUpdate E msg st"
  shows "(cont (a_host st') (eExecPath E) = Some c \<or>
      (\<exists>d. cont (a_host st') (eExecPath E) = Some d \<and> verified (ePrims E) (up_URL p) (up_SHA256 p) d)) \<and>
    (a_end st' = None \<longrightarrow> answered E msg st st') \<and>
    (a_end st' \<noteq> None \<longrightarrow> plain_version (fst (GetVersion (eBolt E) (a_db st))) \<longrightarrow>
      (\<exists>d. cont (a_host st') (eExecPath E) = Some d \<and> verified (ePrims E) (up_URL p) (up_SHA256 p) d))"
  using assms(2)
proof (cases rule: update_cases [where E = E and st = st])
  case (early st1 b t)
  have "answered E msg st (sendResponse E (m_ID msg) b t st1)" using early(2) by blast
  then have "answered E msg st st'" using early(5) assms(7) by (simp add: answered_def answers_def)
  with early(1,4,6) assms(3,6,7) show ?thesis by simp
next
  case (failed h1 h2 e)
  have "cont h1 (eExecPath E) = Some c" using failed(1) assms(3) by simp
  note sp = apply_spec [OF assms(1) failed(2) this assms(4,5)]
  have "answered E msg st st'" unfolding assms(7) failed(3) by auto
  with sp(1) failed(3) assms(6,7) show ?thesis by simp
next
  case (applied h1 h2)
  have "cont h1 (eExecPath E) = Some c" using applied(1) assms(3) by simp
  note sp = apply_spec [OF assms(1) applied(2) this assms(4,5)]
  show ?thesis
    using sp(1) sp(2) [OF refl] applied(3) assms(7) finish_update_effect [of E msg p "st\<lparr>a_host := h2\<rparr>"]
      backup_path_parts(3) by auto
qed


text \<open>
  C19: an update that meets no error does all it should. The executable becomes the downloaded file with
  mode 0700, the old one is kept under the backup path of the old version with mode 0600, the
  two download files are gone and no other file changes; the database gets the new version and
  the id of the update; the center is told first that the agent updates and then that it restarts;
  and the process is replaced by the new executable.
\<close>

theorem update_applies:
  assumes "faultless (eOs E)" "fresh_temp (eTempName E)" "temp_named (eTempName E)"
    and "unmarshal update_dec (m_Payload msg) = Some p"
    and "ver = fst (GetVersion (eBolt E) (a_db st))" "ver \<noteq> []" "plain_version ver"
    and "update_ready E ver f (a_host st)" "\<not> already_applied E p (content f) st"
    and "serves E (up_URL p) (up_SHA256 p) body"
    and "st' = handleAgentUpdate E msg st"
  shows "fs_read (a_host st') = (fs_read (a_host st))(downloadPart := None, downloadFinal := None,
      BackupPath ver \<mapsto> \<lparr>content = content f, mode = privateFilePerm\<rparr>,
      eExecPath E \<mapsto> \<lparr>content = body, mode = privateExecPerm\<rparr>) \<and>
    a_db st' = snd (Close (eBolt E) (snd (PutUpdateID (eBolt E) (up_UpdateID p)
      (snd (PutVersion (eBolt E) (up_Version p) (a_db st)))))) \<and>
    a_ws st' = ws_Close (snd (Send (ePrims E) (response_msg (m_ID msg) True ''update applied, restarting'')
      (snd (Send (ePrims E) \<lparr>m_Type = ''agent.updating'', m_ID = [],
         m_Payload = Some (JObj [(''update_id'', JStr (up_UpdateID p))]), m_Success = None, m_Error = []\<rparr>
         (a_ws st))))) \<and>
    a_end st' = Some (Execed (eExecPath E))"
  using update_run [OF assms] by blast

section \<open>Rollback\<close>

lemma rollback_missing:
  assumes "ver = fst (GetVersion (eBolt E) (a_db st))" "ver \<noteq> []"
    and "fault (eOs E) (Stat (BackupPath ver)) (a_host st) = None"
    and "fs_read (a_host st) (BackupPath ver) = None" "BackupPath ver \<notin> set (dirs (a_host st))"
  shows "handleAgentRollback E msg st =
    sendResponse E (m_ID msg) False (''rollback failed: backup not found at '' @ BackupPath ver)
      (st\<lparr>a_host := tock (a_host st)\<rparr>)"
  using assms by (simp add: handleAgentRollback_def RollbackFrom_def andThen_def on_host_def os_stat_def Let_def)

text \<open>
  C21: a rollback after an update finds no backup. Once an update from one version to another
  has been applied and the restarted agent has the new version in its database, \<open>agent.rollback\<close> looks for a
  backup of the new version, while the update made one of the old: the command fails, the
  new executable stays in place, and the backup of the old version is not used.
\<close>

theorem rollback_after_update_fails:
  assumes "faultless (eOs E)" "fresh_temp (eTempName E)" "temp_named (eTempName E)"
    and "unmarshal update_dec (m_Payload msg) = Some p"
    and "ver = fst (GetVersion (eBolt E) (a_db st))" "ver \<noteq> []" "plain_version ver"
    and "update_ready E ver f (a_host st)" "\<not> already_applied E p (content f) st"
    and "serves E (up_URL p) (up_SHA256 p) body"
    and "plain_version (up_Version p)" "up_Version p \<noteq> ver" "up_Version p \<noteq> []"
    and "eExecPath E \<noteq> BackupPath (up_Version p)"
    and "fs_read (a_host st) (BackupPath (up_Version p)) = None"
    and "a_host st2 = a_host (handleAgentUpdate E msg st)"
    and "fst (GetVersion (eBolt E) (a_db st2)) = up_Version p"
    and "BackupPath (up_Version p) \<notin> set (dirs (a_host st))"
  shows "handleAgentRollback E msg2 st2 =
      sendResponse E (m_ID msg2) False (''rollback failed: backup not found at '' @ BackupPath (up_Version p))
        (st2\<lparr>a_host := tock (a_host st2)\<rparr>) \<and>
    cont (a_host (handleAgentRollback E msg2 st2)) (eExecPath E) = Some body \<and>
    cont (a_host st2) (BackupPath ver) = Some (content f)"
proof -
  note up = update_run [OF assms(1-10) refl]
  have "BackupPath (up_Version p) \<noteq> BackupPath ver"
    using assms(7,11,12) by (simp add: backup_path)
  then have none: "fs_read (a_host st2) (BackupPath (up_Version p)) = None"
    using up assms(14-16) backup_path_parts(3,4) [OF assms(11)] by simp
  have "BackupPath (up_Version p) \<notin> set (parents (length backupDir) backupDir)"
    unfolding parents_backup by (simp add: backup_path [OF assms(11)] backupDir_def)
  then have dirs: "BackupPath (up_Version p) \<notin> set (dirs (a_host st2))"
    using up assms(16,18) by simp
  have "eExecPath E \<noteq> BackupPath ver" using assms(8) by (simp add: update_ready_def)
  then have "cont (a_host st2) (eExecPath E) = Some body" "cont (a_host st2) (BackupPath ver) = Some (content f)"
    using up assms(16) by (simp_all add: cont_def)
  moreover note rollback_missing [where E = E and st = st2 and msg = msg2, OF refl]
  ultimately show ?thesis using none dirs assms(13,17) faultless_fault [OF assms(1)] by simp
qed

text \<open>
  C20: a rollback to a backup that exists restores it. The backup of the stored version becomes the
  executable with mode 0700, no other file changes, the center gets one answer, and the process is
  replaced by the restored executable. The backup is moved, so the same rollback cannot be done twice.
\<close>

theorem rollback_restores:
  assumes "faultless (eOs E)" "ver = fst (GetVersion (eBolt E) (a_db st))" "ver \<noteq> []"
    and "fs_read (a_host st) (BackupPath ver) = Some f" "BackupPath ver \<noteq> eExecPath E"
    and "path_dir (eExecPath E) \<in> set (dirs (a_host st))" "st' = handleAgentRollback E msg st"
  shows "fs_read (a_host st') = (fs_read (a_host st))(BackupPath ver := None,
      eExecPath E \<mapsto> f\<lparr>mode := privateExecPerm\<rparr>) \<and>
    answers E msg st st' (response_msg (m_ID msg) True ''rollback applied, restarting'') \<and>
    a_db st' = a_db st \<and> a_end st' = Some (Execed (eExecPath E))"
proof -
  let ?h = "tock (tock (a_host st))"
  have "fs_read ?h (BackupPath ver) = Some f" "path_dir (eExecPath E) \<in> set (dirs ?h)"
    using assms(4,6) by simp_all
  then obtain h' where h': "replaceFile (eOs E) (eTempName E) (BackupPath ver) (eExecPath E) privateExecPerm ?h = (Inr (), h')"
    "fs_read h' = (fs_read ?h)(BackupPath ver := None, eExecPath E \<mapsto> f\<lparr>mode := privateExecPerm\<rparr>)"
    by (rule replace_run [OF assms(1) _ assms(5)])
  have "RollbackFrom E (BackupPath ver) (a_host st) = (Inr (), h')"
    using h'(1) assms(4) faultless_fault [OF assms(1)]
    by (simp add: RollbackFrom_def andThen_def wrapErr_def os_stat_def executable_def)
  then have "st' = RestartSelf E (sendResponse E (m_ID msg) True ''rollback applied, restarting'' (st\<lparr>a_host := h'\<rparr>))"
    using assms(2,3,7) by (simp add: handleAgentRollback_def on_host_def Let_def)
  then show ?thesis using h'(2)
    by (simp add: RestartSelf_run [OF assms(1)] answers_def response_msg_def)
qed


section \<open>A concrete update\<close>

text \<open>A host with an executable, a server that sends a new one, and a version in the database.\<close>

definition fresh_name :: "string \<Rightarrow> host \<Rightarrow> string" where
  "fresh_name p h = p @ replicate (Suc (sum_list (map (length \<circ> fst) (files h)))) CHR ''0''"

definition demo_up_env :: "mem_db env" where
  "demo_up_env = (demo_env (\<lambda>_. False) (\<lambda>_. []))\<lparr>eTempName := fresh_name,
     eHttp := (\<lambda>u hs h. Inr \<lparr>ha_status = 200, ha_body = ''new'', ha_read_err = None\<rparr>)\<rparr>"

definition demo_up_host :: host where
  "demo_up_host = empty_host\<lparr>files := [(''/usr/local/bin/autopeer-agent'', \<lparr>content = ''old'', mode = perm_0755\<rparr>)],
     dirs := [''/usr/local/bin'']\<rparr>"

definition demo_up_agent :: "mem_db agent" where
  "demo_up_agent = demo_agent\<lparr>a_host := demo_up_host, a_db := [((bucketMeta, keyVersion), ''1.0'')]\<rparr>"

definition demo_up_msg :: Message where
  "demo_up_msg = \<lparr>m_Type = ''agent.update'', m_ID = ''u1'',
     m_Payload = Some (JObj [(''update_id'', JStr ''7''), (''version'', JStr ''1.1''),
       (''url'', JStr ''https://c/a''), (''sha256'', JStr ''6e6577'')]),
     m_Success = None, m_Error = []\<rparr>"

definition demo_up_payload :: update_payload where
  "demo_up_payload = \<lparr>up_UpdateID = ''7'', up_Version = ''1.1'', up_URL = ''https://c/a'', up_SHA256 = ''6e6577''\<rparr>"

lemma fresh_name_ok: "fresh_temp fresh_name" "temp_named fresh_name"
proof -
  have "fs_read h (fresh_name p h) = None" for p h
  proof (rule ccontr)
    assume "fs_read h (fresh_name p h) \<noteq> None"
    then have "fresh_name p h \<in> fst ` set (files h)" by (auto simp: fs_read_def map_of_eq_None_iff)
    then have "length (fresh_name p h) \<le> sum_list (map (length \<circ> fst) (files h))"
      by (intro member_le_sum_list) force+
    then show False by (simp add: fresh_name_def)
  qed
  then show "fresh_temp fresh_name" by (simp add: fresh_temp_def)
  show "temp_named fresh_name" by (simp add: temp_named_def fresh_name_def)
qed

lemma demo_up_facts:
  "faultless (eOs demo_up_env)" "eTempName demo_up_env = fresh_name"
  "eExecPath demo_up_env = ''/usr/local/bin/autopeer-agent''"
  "unmarshal update_dec (m_Payload demo_up_msg) = Some demo_up_payload"
  "fst (GetVersion (eBolt demo_up_env) (a_db demo_up_agent)) = ''1.0''"
  "fst (GetUpdateID (eBolt demo_up_env) (a_db demo_up_agent)) = []"
  "serves demo_up_env ''https://c/a'' ''6e6577'' ''new''"
  by (simp_all add: demo_up_env_def demo_env_def faultless_def sim_os_def demo_up_msg_def demo_up_payload_def
      unmarshal_def update_dec_def get_field_def jfield_def upper_char_def GetVersion_def GetUpdateID_def get_meta_def
      mem_bolt_def demo_up_agent_def keyVersion_def keyUpdateID_def serves_def has_prefix_def toy_prims_def
      hex_encode_def hex_char_def maxDownloadSize_def char_of_eq_iff)

lemma demo_ready: "update_ready demo_up_env ''1.0'' \<lparr>content = ''old'', mode = perm_0755\<rparr> demo_up_host"
proof -
  let ?exe = "''/usr/local/bin/autopeer-agent''"
  have "path_dir ?exe = ''/usr/local/bin''" by code_simp
  moreover have "plain_version ''1.0''" by (simp add: plain_version_def)
  then have "?exe \<notin> {downloadPart, downloadFinal, BackupPath ''1.0''}"
    by (simp add: backup_path downloadPart_def downloadFinal_def backupDir_def)
  moreover have "\<forall>d \<in> set (parents (length backupDir) backupDir). d \<noteq> ?exe"
    unfolding parents_backup by (simp add: backupDir_def)
  then have "\<forall>d \<in> set (parents (length backupDir) backupDir). fs_read demo_up_host d = None"
    by (simp add: demo_up_host_def fs_read_def)
  ultimately show ?thesis
    unfolding update_ready_def demo_up_facts(3) by (simp add: demo_up_host_def fs_read_def)
qed


lemma demo_up_state:
  "a_host demo_up_agent = demo_up_host" "a_end demo_up_agent = None" "plain_version ''1.0''" "plain_version ''1.1''"
  "up_URL demo_up_payload = ''https://c/a''" "up_SHA256 demo_up_payload = ''6e6577''"
  "up_Version demo_up_payload = ''1.1''" "cont demo_up_host ''/usr/local/bin/autopeer-agent'' = Some ''old''"
  "\<not> already_applied demo_up_env demo_up_payload ''old'' demo_up_agent"
proof -
  have "ePrims demo_up_env = toy_prims" by (simp add: demo_up_env_def)
  then show "\<not> already_applied demo_up_env demo_up_payload ''old'' demo_up_agent"
    unfolding already_applied_def demo_up_facts(6)
    by (simp add: demo_up_payload_def toy_prims_def hex_encode_def hex_char_def char_of_eq_iff)
qed (simp_all add: demo_up_agent_def plain_version_def demo_up_payload_def cont_def fs_read_def demo_up_host_def)

lemma update_applies_witness:
  "cont (a_host (handleAgentUpdate demo_up_env demo_up_msg demo_up_agent)) ''/usr/local/bin/autopeer-agent'' = Some ''new''"
proof -
  have "update_ready demo_up_env ''1.0'' \<lparr>content = ''old'', mode = perm_0755\<rparr> (a_host demo_up_agent)"
    using demo_ready by (simp add: demo_up_state)
  from update_applies [where E = demo_up_env and st = demo_up_agent and msg = demo_up_msg and body = "''new''"
      and p = demo_up_payload, OF demo_up_facts(1) _ _ demo_up_facts(4) demo_up_facts(5) [symmetric] _ _ this _ _ refl]
  show ?thesis
    by (simp add: demo_up_facts demo_up_state fresh_name_ok cont_def)
qed

lemma update_installs_only_verified_witness:
  "\<exists>d. cont (a_host (handleAgentUpdate demo_up_env demo_up_msg demo_up_agent)) ''/usr/local/bin/autopeer-agent'' = Some d \<and>
     (d = ''old'' \<or> verified (ePrims demo_up_env) ''https://c/a'' ''6e6577'' d)"
  using update_installs_only_verified [where E = demo_up_env and st = demo_up_agent and msg = demo_up_msg
      and p = demo_up_payload and c = "''old''", OF _ demo_up_facts(4) _ _ _ _ refl]
  by (auto simp: demo_up_facts demo_up_state fresh_name_ok downloadPart_def downloadFinal_def)


lemma rollback_after_update_fails_witness:
  "let st2 = demo_up_agent\<lparr>a_host := a_host (handleAgentUpdate demo_up_env demo_up_msg demo_up_agent),
       a_db := [((bucketMeta, keyVersion), ''1.1'')]\<rparr>
   in cont (a_host (handleAgentRollback demo_up_env demo_up_msg st2)) ''/usr/local/bin/autopeer-agent'' = Some ''new''"
proof -
  let ?st2 = "demo_up_agent\<lparr>a_host := a_host (handleAgentUpdate demo_up_env demo_up_msg demo_up_agent),
     a_db := [((bucketMeta, keyVersion), ''1.1'')]\<rparr>"
  have ready: "update_ready demo_up_env ''1.0'' \<lparr>content = ''old'', mode = perm_0755\<rparr> (a_host demo_up_agent)"
    using demo_ready by (simp add: demo_up_state)
  have ver: "fst (GetVersion (eBolt demo_up_env) (a_db ?st2)) = up_Version demo_up_payload"
    by (simp add: demo_up_env_def GetVersion_def get_meta_def mem_bolt_def demo_up_payload_def)
  have bak: "BackupPath ''1.1'' = ''/var/lib/autopeer-agent/backup/autopeer-agent.1.1''"
    by (simp add: backup_path demo_up_state backupDir_def)
  then have "fs_read demo_up_host (BackupPath ''1.1'') = None" "BackupPath ''1.1'' \<notin> set (dirs demo_up_host)"
    by (simp_all add: demo_up_host_def fs_read_def)
  with rollback_after_update_fails [where E = demo_up_env and st = demo_up_agent and msg = demo_up_msg and body = "''new''"
      and p = demo_up_payload and ?st2.0 = ?st2 and ?msg2.0 = demo_up_msg,
      OF demo_up_facts(1) _ _ demo_up_facts(4) demo_up_facts(5) [symmetric] _ _ ready _ _ _ _ _ _ _ _ ver]
  show ?thesis by (auto simp: demo_up_facts demo_up_state fresh_name_ok Let_def bak)
qed

lemma rollback_restores_witness:
  "let st = demo_up_agent\<lparr>a_host := demo_up_host\<lparr>files := [(BackupPath ''1.0'', \<lparr>content = ''older'', mode = perm_0600\<rparr>)]\<rparr>\<rparr>
   in cont (a_host (handleAgentRollback demo_up_env demo_up_msg st)) ''/usr/local/bin/autopeer-agent'' = Some ''older''"
proof -
  let ?st = "demo_up_agent\<lparr>a_host := demo_up_host\<lparr>files := [(BackupPath ''1.0'', \<lparr>content = ''older'', mode = perm_0600\<rparr>)]\<rparr>\<rparr>"
  have ver: "''1.0'' = fst (GetVersion (eBolt demo_up_env) (a_db ?st))"
    using demo_up_facts(5) by simp
  have bak: "BackupPath ''1.0'' = ''/var/lib/autopeer-agent/backup/autopeer-agent.1.0''"
    by (simp add: backup_path demo_up_state backupDir_def)
  have dir: "path_dir ''/usr/local/bin/autopeer-agent'' = ''/usr/local/bin''" by code_simp
  have "fs_read (a_host ?st) (BackupPath ''1.0'') = Some \<lparr>content = ''older'', mode = perm_0600\<rparr>"
    by (simp add: fs_read_def)
  moreover have "BackupPath ''1.0'' \<noteq> eExecPath demo_up_env" by (simp add: bak demo_up_facts)
  moreover have "path_dir (eExecPath demo_up_env) \<in> set (dirs (a_host ?st))"
    by (simp add: demo_up_facts dir demo_up_host_def)
  ultimately show ?thesis
    using rollback_restores [where E = demo_up_env and st = ?st and msg = demo_up_msg
        and f = "\<lparr>content = ''older'', mode = perm_0600\<rparr>", OF demo_up_facts(1) ver _ _ _ _ refl]
    by (simp add: demo_up_facts cont_def Let_def)
qed

end
