(* ===== verification/Peers.thy ===== *)
theory Peers
  imports Agent
begin

text \<open>
  The peer commands of \<open>src/internal/handler/handler.go\<close>: adding and removing a peer, the full
  synchronisation with the center, the import of unmanaged peers, the status and detail queries, and
  enabling and disabling a protocol. Each handler is one function on the agent's state, with every
  call and every early return of the source.
\<close>

section \<open>peer.add\<close>

definition iface_of :: "string \<Rightarrow> int \<Rightarrow> string" where
  "iface_of wif asn = (if wif = [] then InterfaceName asn else wif)"

definition proto_of :: "int \<Rightarrow> string" where
  "proto_of asn = ''dn42_'' @ itoa asn"

definition added_info :: "PeerAddPayload \<Rightarrow> string \<Rightarrow> PeerInfo" where
  "added_info p iface =
     \<lparr>pi_ASN = pa_ASN p, pi_RemoteLLA = pa_RemoteLLA p, pi_WgInterface = iface,
      pi_BgpProtoName = proto_of (pa_ASN p), pi_BirdConfigFilename = bird_filename (pa_ASN p)\<rparr>"

text \<open>The part after the checks: WireGuard, then BIRD, then the store, each undone when a later one fails.\<close>

definition install_peer ::
    "'db env \<Rightarrow> string \<Rightarrow> PeerAddPayload \<Rightarrow> string \<Rightarrow> 'db agent \<Rightarrow> 'db agent" where
  "install_peer E msgID p iface st =
     (case on_host (AddPeerWithIface (eOs E) (eWg E) iface (pa_ASN p) (pa_ListenPort p)
             (pa_RemoteWgPubkey p) (pa_RemoteEndpoint p) (pa_MTU p) (pa_WgPreSharedKey p)) st of
        (Inl e, st) \<Rightarrow> sendResponse E msgID False (''wg add failed: '' @ e) st
      | (Inr _, st) \<Rightarrow>
          (case on_host (bird_AddPeer (eOs E) (eBird E) (pa_ASN p) (pa_RemoteLLA p) iface) st of
             (Inl e, st) \<Rightarrow>
               let st = snd (on_host (RemovePeerByIface (eOs E) (eWg E) iface) st) in
               sendResponse E msgID False (''bird add failed: '' @ e) st
           | (Inr _, st) \<Rightarrow>
               (case on_db (PutPeer (eBolt E) (pa_PeerID p) (added_info p iface)) st of
                  (Inl e, st) \<Rightarrow>
                    let st = snd (on_host (bird_RemovePeer (eOs E) (eBird E) (pa_ASN p)) st);
                        st = snd (on_host (RemovePeerByIface (eOs E) (eWg E) iface) st)
                    in sendResponse E msgID False (''store put failed: '' @ e) st
                | (Inr _, st) \<Rightarrow> sendResponse E msgID True ''peer added successfully'' st)))"

definition handlePeerAdd :: "'db env \<Rightarrow> Message \<Rightarrow> 'db agent \<Rightarrow> 'db agent" where
  "handlePeerAdd E msg st =
     (case unmarshal peer_add_dec (m_Payload msg) of
        None \<Rightarrow> sendResponse E (m_ID msg) False (invalid_payload E ''PeerAddPayload'' msg) st
      | Some p \<Rightarrow>
          let iface = iface_of (pa_WgInterface p) (pa_ASN p);
              known = (\<not> isl (GetPeer (eBolt E) (pa_PeerID p) (a_db st)));
              (up, st) = (if known then on_host (IsPeerUp (eOs E) iface) st else (False, st))
          in if known \<and> up then sendResponse E (m_ID msg) True ''already active'' st
             else
               let (up, st) = on_host (IsPeerUp (eOs E) iface) st;
                   st = (if up then snd (on_host (RemovePeerByIface (eOs E) (eWg E) iface) st) else st)
               in install_peer E (m_ID msg) p iface st)"

section \<open>peer.remove\<close>

definition remove_bird :: "'db env \<Rightarrow> PeerInfo option \<Rightarrow> int \<Rightarrow> 'db agent \<Rightarrow> 'db agent" where
  "remove_bird E stored asn st =
     (case stored of
        Some info \<Rightarrow>
          if pi_BirdConfigFilename info \<noteq> [] then
            snd (on_host (RemovePeerByFilename (eOs E) (eBird E) (pi_BirdConfigFilename info)) st)
          else snd (on_host (bird_RemovePeer (eOs E) (eBird E) asn) st)
      | None \<Rightarrow> snd (on_host (bird_RemovePeer (eOs E) (eBird E) asn) st))"

definition remove_wg :: "'db env \<Rightarrow> PeerInfo option \<Rightarrow> int \<Rightarrow> 'db agent \<Rightarrow> 'db agent" where
  "remove_wg E stored asn st =
     (let iface = (case stored of
            Some info \<Rightarrow> if pi_WgInterface info \<noteq> [] then pi_WgInterface info else []
          | None \<Rightarrow> [])
      in if iface \<noteq> [] then snd (on_host (RemovePeerByIface (eOs E) (eWg E) iface) st)
         else snd (on_host (wg_RemovePeer (eOs E) (eWg E) asn) st))"

definition stored_peer :: "'db env \<Rightarrow> string \<Rightarrow> 'db agent \<Rightarrow> PeerInfo option" where
  "stored_peer E peerID st =
     (case GetPeer (eBolt E) peerID (a_db st) of Inl _ \<Rightarrow> None | Inr info \<Rightarrow> Some info)"

definition handlePeerRemove :: "'db env \<Rightarrow> Message \<Rightarrow> 'db agent \<Rightarrow> 'db agent" where
  "handlePeerRemove E msg st =
     (case unmarshal peer_remove_dec (m_Payload msg) of
        None \<Rightarrow> sendResponse E (m_ID msg) False (invalid_payload E ''PeerRemovePayload'' msg) st
      | Some p \<Rightarrow>
          let asn = (if pr_ASN p = 0
                     then (case stored_peer E (pr_PeerID p) st of
                             Some info \<Rightarrow> pi_ASN info | None \<Rightarrow> 0)
                     else pr_ASN p)
          in if asn = 0 then sendResponse E (m_ID msg) False ''unknown peer'' st
             else
               let stored = stored_peer E (pr_PeerID p) st;
                   st = remove_bird E stored asn st;
                   st = remove_wg E stored asn st;
                   st = snd (on_db (DeletePeer (eBolt E) (pr_PeerID p)) st)
               in sendResponse E (m_ID msg) True ''peer removed successfully'' st)"

section \<open>status.request\<close>

definition stats_json :: "InterfaceStats \<Rightarrow> json" where
  "stats_json s = JObj
     [(''Name'', JStr (is_Name s)), (''RxBytes'', jint (is_RxBytes s)),
      (''TxBytes'', jint (is_TxBytes s)), (''LastHandshake'', JStr (is_LastHandshake s)),
      (''ActualEndpoint'', JStr (is_ActualEndpoint s))]"

definition state_json :: "PeerState \<Rightarrow> json" where
  "state_json s = JObj [(''Name'', JStr (ps_Name s)), (''State'', JStr (ps_State s))]"

definition handleStatusRequest :: "'db env \<Rightarrow> Message \<Rightarrow> 'db agent \<Rightarrow> 'db agent" where
  "handleStatusRequest E msg st =
     (case on_host (GetStats (eOs E)) st of
        (Inl e, st) \<Rightarrow> sendResponse E (m_ID msg) False (''wg stats error: '' @ e) st
      | (Inr wgStats, st) \<Rightarrow>
          (case on_host (GetPeerStates (eOs E) (eBird E)) st of
             (Inl e, st) \<Rightarrow> sendResponse E (m_ID msg) False (''bird states error: '' @ e) st
           | (Inr birdStates, st) \<Rightarrow>
               send_msg E
                 \<lparr>m_Type = ''status.response'', m_ID = m_ID msg,
                  m_Payload = Some (JObj [(''bird_states'', JArr (map state_json birdStates)),
                                          (''wg_stats'', JArr (map stats_json wgStats))]),
                  m_Success = None, m_Error = []\<rparr> st))"

section \<open>peers.sync\<close>

record SyncPeer =
  sy_PeerID :: string
  sy_ASN :: int
  sy_RemoteEndpoint :: string
  sy_RemoteWgPubkey :: string
  sy_RemoteLLA :: string
  sy_ListenPort :: int
  sy_WgInterface :: string
  sy_BgpProtoName :: string
  sy_BirdConfigFilename :: string
  sy_MTU :: "int option"
  sy_WgPreSharedKey :: "string option"

definition sync_peer_dec :: "json \<Rightarrow> SyncPeer option" where
  "sync_peer_dec j =
     Option.bind (members j) (\<lambda>ms.
     Option.bind (get_field dec_string [] ''peer_id'' ms) (\<lambda>pid.
     Option.bind (get_field dec_int64 0 ''asn'' ms) (\<lambda>asn.
     Option.bind (get_field dec_string [] ''remote_endpoint'' ms) (\<lambda>ep.
     Option.bind (get_field dec_string [] ''remote_wg_pubkey'' ms) (\<lambda>pub.
     Option.bind (get_field dec_string [] ''remote_lla'' ms) (\<lambda>lla.
     Option.bind (get_field dec_int64 0 ''listen_port'' ms) (\<lambda>port.
     Option.bind (get_field dec_string [] ''wg_interface'' ms) (\<lambda>wif.
     Option.bind (get_field dec_string [] ''bgp_proto_name'' ms) (\<lambda>proto.
     Option.bind (get_field dec_string [] ''bird_config_filename'' ms) (\<lambda>conf.
     Option.bind (get_field dec_int_ptr None ''mtu'' ms) (\<lambda>mtu.
     Option.bind (get_field dec_string_ptr None ''wg_preshared_key'' ms) (\<lambda>psk.
       Some \<lparr>sy_PeerID = pid, sy_ASN = asn, sy_RemoteEndpoint = ep, sy_RemoteWgPubkey = pub,
             sy_RemoteLLA = lla, sy_ListenPort = port, sy_WgInterface = wif,
             sy_BgpProtoName = proto, sy_BirdConfigFilename = conf, sy_MTU = mtu,
             sy_WgPreSharedKey = psk\<rparr>))))))))))))"

definition sync_dec :: "json \<Rightarrow> SyncPeer list option" where
  "sync_dec j = Option.bind (members j) (get_field (dec_slice sync_peer_dec) [] ''peers'')"

definition sync_info :: "SyncPeer \<Rightarrow> PeerInfo" where
  "sync_info p =
     \<lparr>pi_ASN = sy_ASN p, pi_RemoteLLA = sy_RemoteLLA p,
      pi_WgInterface = iface_of (sy_WgInterface p) (sy_ASN p),
      pi_BgpProtoName = (if sy_BgpProtoName p = [] then proto_of (sy_ASN p) else sy_BgpProtoName p),
      pi_BirdConfigFilename =
        (if sy_BirdConfigFilename p = [] then bird_filename (sy_ASN p) else sy_BirdConfigFilename p)\<rparr>"

text \<open>\<open>os.Stat\<close> followed by \<open>os.IsNotExist\<close>: any other error counts as existing.\<close>

definition path_exists :: "'db env \<Rightarrow> string \<Rightarrow> 'db agent \<Rightarrow> bool \<times> 'db agent" where
  "path_exists E p st =
     (case on_host (os_stat (eOs E) p) st of
        (Inl e, st) \<Rightarrow> (\<not> is_not_exist e, st)
      | (Inr _, st) \<Rightarrow> (True, st))"

text \<open>The WireGuard part of one round: \<open>None\<close> is the \<open>continue\<close>, else whether it failed.\<close>

definition sync_wg :: "'db env \<Rightarrow> SyncPeer \<Rightarrow> 'db agent \<Rightarrow> bool option \<times> 'db agent" where
  "sync_wg E p st =
     (let iface = iface_of (sy_WgInterface p) (sy_ASN p);
          (wgExists, st) = path_exists E (path_join (wgDir (eWg E)) (iface @ ''.conf'')) st
      in if sy_RemoteWgPubkey p \<noteq> [] then
           let (up, st) = (if wgExists then on_host (IsPeerUp (eOs E) iface) st else (False, st))
           in if \<not> wgExists \<or> \<not> up then
                (case on_host (AddPeerWithIface (eOs E) (eWg E) iface (sy_ASN p) (sy_ListenPort p)
                        (sy_RemoteWgPubkey p) (sy_RemoteEndpoint p) (sy_MTU p)
                        (sy_WgPreSharedKey p)) st of
                   (Inl _, st) \<Rightarrow> (Some True, st)
                 | (Inr _, st) \<Rightarrow> (Some False, st))
              else (Some False, st)
         else if \<not> wgExists then (None, st)
         else (Some False, st))"

definition sync_bird :: "'db env \<Rightarrow> SyncPeer \<Rightarrow> 'db agent \<Rightarrow> bool \<times> 'db agent" where
  "sync_bird E p st =
     (let iface = iface_of (sy_WgInterface p) (sy_ASN p);
          birdConf = (if sy_BirdConfigFilename p = [] then bird_filename (sy_ASN p)
                      else sy_BirdConfigFilename p);
          (exists, st) = path_exists E (path_join (peerDir (eBird E)) birdConf) st
      in if \<not> exists then
           (case on_host (bird_AddPeer (eOs E) (eBird E) (sy_ASN p) (sy_RemoteLLA p) iface) st of
              (Inl _, st) \<Rightarrow> (True, st)
            | (Inr _, st) \<Rightarrow> (False, st))
         else (False, st))"

record sync_acc =
  sa_map :: "(string \<times> PeerInfo) list"
  sa_applied :: "string list"
  sa_failed :: "string list"

definition sync_one ::
    "'db env \<Rightarrow> SyncPeer \<Rightarrow> sync_acc \<times> 'db agent \<Rightarrow> sync_acc \<times> 'db agent" where
  "sync_one E p s =
     (let (acc, st) = s in
      if sy_ASN p \<le> 0 \<or> sy_PeerID p = [] then (acc, st)
      else
        case sync_wg E p st of
          (None, st) \<Rightarrow> (acc, st)
        | (Some wgFailed, st) \<Rightarrow>
            (case sync_bird E p st of (birdFailed, st) \<Rightarrow>
               let acc = (if wgFailed \<or> birdFailed
                          then acc\<lparr>sa_failed := sa_failed acc @ [sy_PeerID p]\<rparr>
                          else acc\<lparr>sa_applied := sa_applied acc @ [sy_PeerID p]\<rparr>)
               in (acc\<lparr>sa_map := AList.update (sy_PeerID p) (sync_info p) (sa_map acc)\<rparr>, st)))"

definition remove_stale :: "'db env \<Rightarrow> PeerInfo \<Rightarrow> 'db agent \<Rightarrow> 'db agent" where
  "remove_stale E info st =
     (let iface = iface_of (pi_WgInterface info) (pi_ASN info);
          st = (if pi_BirdConfigFilename info \<noteq> []
                then snd (on_host (RemovePeerByFilename (eOs E) (eBird E) (pi_BirdConfigFilename info)) st)
                else snd (on_host (bird_RemovePeer (eOs E) (eBird E) (pi_ASN info)) st))
      in snd (on_host (RemovePeerByIface (eOs E) (eWg E) iface) st))"

text \<open>The callback of \<open>ForEachPeer\<close> that collects the peers the new map does not have.\<close>

definition collect_stale ::
    "(string \<times> PeerInfo) list \<Rightarrow> string \<Rightarrow> PeerInfo \<Rightarrow> PeerInfo list \<Rightarrow> string option \<times> PeerInfo list" where
  "collect_stale m peerID info acc =
     (None, if map_of m peerID = None then acc @ [info] else acc)"

definition handlePeersSync :: "'db env \<Rightarrow> Message \<Rightarrow> 'db agent \<Rightarrow> 'db agent" where
  "handlePeersSync E msg st =
     (case unmarshal sync_dec (m_Payload msg) of
        None \<Rightarrow> st
      | Some peers \<Rightarrow>
          (case fold (sync_one E) peers (\<lparr>sa_map = [], sa_applied = [], sa_failed = []\<rparr>, st) of
             (acc, st) \<Rightarrow>
               let stale = snd (ForEachPeer (eBolt E) (collect_stale (sa_map acc)) (a_db st) []);
                   st = snd (on_db (ReplaceAll (eBolt E) (eRange E (sa_map acc))) st);
                   st = fold (remove_stale E) stale st
               in send_msg E (payload_msg (m_ID msg) None
                    (JObj [(''applied'', JArr (map JStr (sa_applied acc))),
                           (''failed'', JArr (map JStr (sa_failed acc)))])) st))"

section \<open>peers.import\<close>

record ImportedPeer =
  im_ASN :: int
  im_RemotePubkey :: string
  im_RemoteEndpoint :: string
  im_RemoteLLA :: string
  im_WgListenPort :: int
  im_WgInterface :: string
  im_BgpProtoName :: string
  im_BirdConfigFilename :: string
  im_WgManaged :: bool

definition imported_json :: "ImportedPeer \<Rightarrow> json" where
  "imported_json p = JObj
     [(''asn'', jint (im_ASN p)), (''remote_pubkey'', JStr (im_RemotePubkey p)),
      (''remote_endpoint'', JStr (im_RemoteEndpoint p)), (''remote_lla'', JStr (im_RemoteLLA p)),
      (''wg_listen_port'', jint (im_WgListenPort p)), (''wg_interface_name'', JStr (im_WgInterface p)),
      (''bgp_proto_name'', JStr (im_BgpProtoName p)),
      (''bird_config_filename'', JStr (im_BirdConfigFilename p)),
      (''wg_managed'', JBool (im_WgManaged p))]"

text \<open>The maps \<open>bgpByIface\<close> and \<open>bgpByASN\<close>: a later session of the list wins.\<close>

definition bgp_by_iface :: "ScannedBGP list \<Rightarrow> (string \<times> ScannedBGP) list" where
  "bgp_by_iface bps = fold (\<lambda>bp. AList.update (sb_WgInterface bp) bp) bps []"

definition bgp_by_asn :: "ScannedBGP list \<Rightarrow> (int \<times> ScannedBGP) list" where
  "bgp_by_asn bps = fold (\<lambda>bp. AList.update (sb_ASN bp) bp) bps []"

definition tracked :: "'db env \<Rightarrow> 'db agent \<Rightarrow> int \<Rightarrow> bool" where
  "tracked E st asn = fst (IsASNTracked (eBolt E) asn (a_db st))"

text \<open>The session that belongs to a WireGuard peer: by interface, else by AS number.\<close>

definition match_bgp :: "ScannedBGP list \<Rightarrow> ScannedPeer \<Rightarrow> ScannedBGP option" where
  "match_bgp bps wp =
     (case map_of (bgp_by_iface bps) (sp_InterfaceName wp) of
        Some bp \<Rightarrow> Some bp
      | None \<Rightarrow> map_of (bgp_by_asn bps) (sp_ASN wp))"

definition import_wg ::
    "'db env \<Rightarrow> 'db agent \<Rightarrow> ScannedBGP list \<Rightarrow> ScannedPeer \<Rightarrow>
     ImportedPeer list \<times> string list \<Rightarrow> ImportedPeer list \<times> string list" where
  "import_wg E st bps wp acc =
     (let (imported, matchedBGP) = acc;
          mb = match_bgp bps wp;
          realASN = (case mb of Some bp \<Rightarrow> sb_ASN bp | None \<Rightarrow> sp_ASN wp);
          remoteLLA = (case mb of Some bp \<Rightarrow> sb_RemoteLLA bp | None \<Rightarrow> []);
          bgpProto = (case mb of Some bp \<Rightarrow> sb_ProtoName bp | None \<Rightarrow> []);
          birdFilename = (case mb of Some bp \<Rightarrow> sb_Filename bp | None \<Rightarrow> []);
          matchedBGP = (case mb of Some bp \<Rightarrow> sb_WgInterface bp # matchedBGP | None \<Rightarrow> matchedBGP)
      in if tracked E st realASN then (imported, matchedBGP)
         else (imported @
           [\<lparr>im_ASN = realASN, im_RemotePubkey = sp_RemotePubkey wp,
             im_RemoteEndpoint = sp_RemoteEndpoint wp, im_RemoteLLA = remoteLLA,
             im_WgListenPort = sp_ListenPort wp, im_WgInterface = sp_InterfaceName wp,
             im_BgpProtoName = bgpProto, im_BirdConfigFilename = birdFilename,
             im_WgManaged = True\<rparr>], matchedBGP))"

definition import_bgp ::
    "'db env \<Rightarrow> 'db agent \<Rightarrow> string list \<Rightarrow> ScannedBGP \<Rightarrow> ImportedPeer list \<Rightarrow> ImportedPeer list" where
  "import_bgp E st matchedBGP bp imported =
     (if tracked E st (sb_ASN bp) then imported
      else if sb_WgInterface bp \<in> set matchedBGP then imported
      else imported @
        [\<lparr>im_ASN = sb_ASN bp, im_RemotePubkey = [], im_RemoteEndpoint = [],
          im_RemoteLLA = sb_RemoteLLA bp, im_WgListenPort = 0, im_WgInterface = sb_WgInterface bp,
          im_BgpProtoName = sb_ProtoName bp, im_BirdConfigFilename = sb_Filename bp,
          im_WgManaged = False\<rparr>])"

definition import_peers ::
    "'db env \<Rightarrow> 'db agent \<Rightarrow> ScannedPeer list \<Rightarrow> ScannedBGP list \<Rightarrow> ImportedPeer list" where
  "import_peers E st wps bps =
     (let (imported, matchedBGP) = fold (import_wg E st bps) wps ([], [])
      in fold (import_bgp E st matchedBGP) bps imported)"

definition handlePeersImportCommand :: "'db env \<Rightarrow> Message \<Rightarrow> 'db agent \<Rightarrow> 'db agent" where
  "handlePeersImportCommand E msg st =
     (case on_host (wg_ScanPeers (eOs E) (eWg E)) st of
        (Inl e, st) \<Rightarrow> sendResponse E (m_ID msg) False (''wg scan error: '' @ e) st
      | (Inr wgPeers, st) \<Rightarrow>
          (case on_host (bird_ScanPeers (eOs E) (eBird E)) st of
             (Inl e, st) \<Rightarrow> sendResponse E (m_ID msg) False (''bird scan error: '' @ e) st
           | (Inr bgpPeers, st) \<Rightarrow>
               send_msg E (payload_msg (m_ID msg) None
                 (JObj [(''peers'', JArr (map imported_json (import_peers E st wgPeers bgpPeers)))])) st))"

section \<open>bird.details\<close>

definition detail_json :: "PeerDetail \<Rightarrow> json" where
  "detail_json d = JObj
     [(''name'', JStr (pd_Name d)), (''state'', JStr (pd_State d)),
      (''routes_imported'', jint (pd_RoutesImported d)),
      (''routes_exported'', jint (pd_RoutesExported d)),
      (''bgp_uptime_secs'', jint (pd_BGPUptimeSecs d))]"

definition get_details :: "'db env \<Rightarrow> 'db agent \<Rightarrow> PeerDetail list res \<times> 'db agent" where
  "get_details E st =
     on_host (GetPeerDetails (eOs E) (eClock E (a_host st)) (eBird E)) st"

definition handleBirdDetailsCommand :: "'db env \<Rightarrow> Message \<Rightarrow> 'db agent \<Rightarrow> 'db agent" where
  "handleBirdDetailsCommand E msg st =
     (case get_details E st of
        (Inl e, st) \<Rightarrow> sendResponse E (m_ID msg) False (''birdc error: '' @ e) st
      | (Inr details, st) \<Rightarrow>
          send_msg E (payload_msg (m_ID msg) None
            (JObj [(''details'', JArr (map detail_json details))])) st)"

section \<open>bird.disable and bird.enable\<close>

text \<open>The protocol a command is about; \<open>None\<close> when the peer is not known.\<close>

definition control_proto :: "'db env \<Rightarrow> BirdControlPayload \<Rightarrow> 'db agent \<Rightarrow> string option" where
  "control_proto E p st =
     (if bp_ProtoName p = [] then
        (case GetPeer (eBolt E) (bp_PeerID p) (a_db st) of
           Inl _ \<Rightarrow> None
         | Inr info \<Rightarrow>
             Some (if pi_BgpProtoName info = [] then proto_of (pi_ASN info)
                   else pi_BgpProtoName info))
      else Some (bp_ProtoName p))"

definition bird_control ::
    "(os \<Rightarrow> bird_Manager \<Rightarrow> string \<Rightarrow> host \<Rightarrow> unit res \<times> host) \<Rightarrow> string \<Rightarrow> 'db env \<Rightarrow> Message
      \<Rightarrow> 'db agent \<Rightarrow> 'db agent" where
  "bird_control op okmsg E msg st =
     (case unmarshal bird_control_dec (m_Payload msg) of
        None \<Rightarrow> sendResponse E (m_ID msg) False (invalid_payload E ''BirdControlPayload'' msg) st
      | Some p \<Rightarrow>
          (case control_proto E p st of
             None \<Rightarrow> sendResponse E (m_ID msg) False ''peer not found'' st
           | Some protoName \<Rightarrow>
               (case on_host (op (eOs E) (eBird E) protoName) st of
                  (Inl e, st) \<Rightarrow> sendResponse E (m_ID msg) False e st
                | (Inr _, st) \<Rightarrow> sendResponse E (m_ID msg) True okmsg st)))"

definition handleBirdDisable :: "'db env \<Rightarrow> Message \<Rightarrow> 'db agent \<Rightarrow> 'db agent" where
  "handleBirdDisable = bird_control DisableProtocol ''protocol disabled''"

definition handleBirdEnable :: "'db env \<Rightarrow> Message \<Rightarrow> 'db agent \<Rightarrow> 'db agent" where
  "handleBirdEnable = bird_control EnableProtocol ''protocol enabled''"

section \<open>What adding a peer does\<close>

text \<open>
  The hypotheses on the environment: the programs and the database behave as documented. Nothing is
  assumed about whether a program succeeds. \<open>RemovePeerByIface\<close> ignores a failure of
  \<open>wg-quick down\<close>; \<open>down_fails E i h\<close> says that the interface exists in \<open>h\<close> and that the command, run there, fails.
\<close>

definition env_ok :: "'db env \<Rightarrow> bool" where
  "env_ok E \<longleftrightarrow>
     wg_tools (eOs E) \<and> birdc_tools (eOs E) (birdcPath (eBird E)) \<and> bolt_laws (eBolt E)"

definition down_fails :: "'db env \<Rightarrow> string \<Rightarrow> host \<Rightarrow> bool" where
  "down_fails E i h \<longleftrightarrow>
     i \<in> set (ifaces h) \<and> cmd_err (fst (exec (eOs E) [''wg-quick'', ''down'', i] h)) \<noteq> None"

text \<open>A peer that is in place: interface up, both files written, BIRD reloaded, record stored.\<close>

definition wg_text :: "'db env \<Rightarrow> PeerAddPayload \<Rightarrow> string" where
  "wg_text E p = wg_render \<lparr>wc_ASN = pa_ASN p, wc_PrivateKey = privateKey (eWg E),
     wc_ListenPort = pa_ListenPort p, wc_OurLLA = ourLLA (eWg E),
     wc_RemotePubkey = pa_RemoteWgPubkey p, wc_RemoteEndpoint = pa_RemoteEndpoint p,
     wc_MTU = pa_MTU p, wc_PresharedKey = pa_WgPreSharedKey p\<rparr>"

definition bird_text :: "PeerAddPayload \<Rightarrow> string \<Rightarrow> string" where
  "bird_text p iface = bird_render \<lparr>bc_ASN = pa_ASN p, bc_ASNSuffix = itoa (pa_ASN p),
     bc_RemoteLLA = pa_RemoteLLA p, bc_WgInterface = iface\<rparr>"

definition peer_in_place :: "'db env \<Rightarrow> PeerAddPayload \<Rightarrow> string \<Rightarrow> 'db agent \<Rightarrow> bool" where
  "peer_in_place E p iface st \<longleftrightarrow>
     iface \<in> set (ifaces (a_host st)) \<and>
     map_option content (fs_read (a_host st) (wg_conf (eWg E) iface)) = Some (wg_text E p) \<and>
     map_option content (fs_read (a_host st) (bird_conf (eBird E) (pa_ASN p))) =
       Some (bird_text p iface) \<and>
     loaded (a_host st) = files (a_host st) \<and>
     peer_of (eBolt E) (a_db st) (pa_PeerID p) = Some (added_info p iface)"

definition peer_paths :: "'db env \<Rightarrow> int \<Rightarrow> string \<Rightarrow> string set" where
  "peer_paths E asn iface = {wg_conf (eWg E) iface, bird_conf (eBird E) asn}"

text \<open>
  A peer that was not added: the store is as it was, and the interface is down, unless a
  \<open>wg-quick down\<close> failed: the one before the installation, which runs after one \<open>wg show\<close>, or two for a stored peer, or the one
  that undoes the installation and is the last thing done to the machine.
\<close>

definition cleanup_fails :: "'db env \<Rightarrow> PeerAddPayload \<Rightarrow> string \<Rightarrow> 'db agent \<Rightarrow> bool" where
  "cleanup_fails E p iface st \<longleftrightarrow>
     down_fails E iface (((\<lambda>h. snd (IsPeerUp (eOs E) iface h)) ^^
       (if stored_peer E (pa_PeerID p) st = None then 1 else 2)) (a_host st))"

definition undo_fails :: "'db env \<Rightarrow> string \<Rightarrow> host \<Rightarrow> bool" where
  "undo_fails E iface h' \<longleftrightarrow>
     (\<exists>h. down_fails E iface h \<and> h' = snd (RemovePeerByIface (eOs E) (eWg E) iface h))"

definition peer_gone :: "'db env \<Rightarrow> bool \<Rightarrow> string \<Rightarrow> 'db agent \<Rightarrow> 'db agent \<Rightarrow> bool" where
  "peer_gone E unclean iface st st' \<longleftrightarrow>
     a_db st' = a_db st \<and>
     (iface \<in> set (ifaces (a_host st')) \<longrightarrow> unclean \<or> undo_fails E iface (a_host st'))"

lemma on_host_split: "on_host f st = (r, st') \<Longrightarrow> f (a_host st) = (r, a_host st') \<and> st' = st\<lparr>a_host := a_host st'\<rparr>"
  by (auto simp: on_host_def split: prod.splits)

lemma on_db_split: "on_db f st = (r, st') \<Longrightarrow> f (a_db st) = (r, a_db st') \<and> st' = st\<lparr>a_db := a_db st'\<rparr>"
  by (auto simp: on_db_def split: prod.splits)

lemma remove_iface_run:
  assumes "env_ok E" "wg_iface i"
  shows "i \<in> set (ifaces (snd (RemovePeerByIface (eOs E) m i h))) \<longleftrightarrow> down_fails E i h"
    "outside {wg_conf m i} h (snd (RemovePeerByIface (eOs E) m i h))"
    "set (ifaces (snd (RemovePeerByIface (eOs E) m i h))) =
       (if cmd_err (fst (exec (eOs E) [''wg-quick'', ''down'', i] h)) = None then set (ifaces h) - {i}
        else set (ifaces h))"
    "loaded (snd (RemovePeerByIface (eOs E) m i h)) = loaded h"
proof -
  obtain r h' where run: "RemovePeerByIface (eOs E) m i h = (r, h')" by fastforce
  have tools: "wg_tools (eOs E)" using assms(1) by (simp add: env_ok_def)
  note x = RemovePeerByIface_run [OF tools assms(2) run]
  show "outside {wg_conf m i} h (snd (RemovePeerByIface (eOs E) m i h))"
    "loaded (snd (RemovePeerByIface (eOs E) m i h)) = loaded h"
    using x(2,3) run by simp_all
  show ifs: "set (ifaces (snd (RemovePeerByIface (eOs E) m i h))) =
     (if cmd_err (fst (exec (eOs E) [''wg-quick'', ''down'', i] h)) = None then set (ifaces h) - {i} else set (ifaces h))"
    using x(4) run by simp
  show "i \<in> set (ifaces (snd (RemovePeerByIface (eOs E) m i h))) \<longleftrightarrow> down_fails E i h"
    unfolding ifs by (simp add: down_fails_def)
qed

abbreviation wg_step :: "'db env \<Rightarrow> PeerAddPayload \<Rightarrow> string \<Rightarrow> 'db agent \<Rightarrow> unit res \<times> 'db agent" where
  "wg_step E p iface \<equiv> on_host (AddPeerWithIface (eOs E) (eWg E) iface (pa_ASN p) (pa_ListenPort p)
     (pa_RemoteWgPubkey p) (pa_RemoteEndpoint p) (pa_MTU p) (pa_WgPreSharedKey p))"

abbreviation bird_step :: "'db env \<Rightarrow> PeerAddPayload \<Rightarrow> string \<Rightarrow> 'db agent \<Rightarrow> unit res \<times> 'db agent" where
  "bird_step E p iface \<equiv> on_host (bird_AddPeer (eOs E) (eBird E) (pa_ASN p) (pa_RemoteLLA p) iface)"

abbreviation store_step :: "'db env \<Rightarrow> PeerAddPayload \<Rightarrow> string \<Rightarrow> 'db agent \<Rightarrow> unit res \<times> 'db agent" where
  "store_step E p iface \<equiv> on_db (PutPeer (eBolt E) (pa_PeerID p) (added_info p iface))"

abbreviation undo_wg :: "'db env \<Rightarrow> string \<Rightarrow> 'db agent \<Rightarrow> 'db agent" where
  "undo_wg E iface st \<equiv> snd (on_host (RemovePeerByIface (eOs E) (eWg E) iface) st)"

abbreviation undo_bird :: "'db env \<Rightarrow> int \<Rightarrow> 'db agent \<Rightarrow> 'db agent" where
  "undo_bird E asn st \<equiv> snd (on_host (bird_RemovePeer (eOs E) (eBird E) asn) st)"

text \<open>The four ways through \<open>install_peer\<close>.\<close>

lemma install_peer_cases:
  obtains
    (wg_failed) e st1 where "wg_step E p iface st = (Inl e, st1)"
      "install_peer E i p iface st = sendResponse E i False (''wg add failed: '' @ e) st1"
  | (bird_failed) u e st1 st2 where "wg_step E p iface st = (Inr u, st1)"
      "bird_step E p iface st1 = (Inl e, st2)"
      "install_peer E i p iface st =
         sendResponse E i False (''bird add failed: '' @ e) (undo_wg E iface st2)"
  | (store_failed) u v e st1 st2 st3 where "wg_step E p iface st = (Inr u, st1)"
      "bird_step E p iface st1 = (Inr v, st2)" "store_step E p iface st2 = (Inl e, st3)"
      "install_peer E i p iface st = sendResponse E i False (''store put failed: '' @ e)
         (undo_wg E iface (undo_bird E (pa_ASN p) st3))"
  | (added) u v w st1 st2 st3 where "wg_step E p iface st = (Inr u, st1)"
      "bird_step E p iface st1 = (Inr v, st2)" "store_step E p iface st2 = (Inr w, st3)"
      "install_peer E i p iface st = sendResponse E i True ''peer added successfully'' st3"
proof -
  obtain r1 st1 where r1: "wg_step E p iface st = (r1, st1)" by fastforce
  obtain r2 st2 where r2: "bird_step E p iface st1 = (r2, st2)" by fastforce
  obtain r3 st3 where r3: "store_step E p iface st2 = (r3, st3)" by fastforce
  show ?thesis
    using r1 r2 r3 wg_failed bird_failed store_failed added
    by (cases r1; cases r2; cases r3) (simp_all add: install_peer_def Let_def)
qed

lemma wg_step_run:
  assumes "env_ok E" "wg_iface iface" "wg_step E p iface st = (r, st1)"
  shows "outside {wg_conf (eWg E) iface} (a_host st) (a_host st1)" "a_db st1 = a_db st" "a_ws st1 = a_ws st"
    "set (ifaces (a_host st1)) =
       (if is_ok r then insert iface (set (ifaces (a_host st))) else set (ifaces (a_host st)))"
    "is_ok r \<Longrightarrow> map_option content (fs_read (a_host st1) (wg_conf (eWg E) iface)) = Some (wg_text E p)"
proof -
  have tools: "wg_tools (eOs E)" using assms(1) by (simp add: env_ok_def)
  note h = on_host_split [OF assms(3)]
  note w = AddPeerWithIface_run [OF tools assms(2) conjunct1 [OF h]]
  show "outside {wg_conf (eWg E) iface} (a_host st) (a_host st1)"
    "set (ifaces (a_host st1)) =
       (if is_ok r then insert iface (set (ifaces (a_host st))) else set (ifaces (a_host st)))"
    using w(1,3) by simp_all
  show "is_ok r \<Longrightarrow> map_option content (fs_read (a_host st1) (wg_conf (eWg E) iface)) = Some (wg_text E p)"
    using w(5) by (auto simp: wg_text_def)
  show "a_db st1 = a_db st" "a_ws st1 = a_ws st"
    using arg_cong [OF conjunct2 [OF h], of a_db] arg_cong [OF conjunct2 [OF h], of a_ws] by simp_all
qed

lemma bird_step_run:
  assumes "env_ok E" "bird_step E p iface st = (r, st1)"
  shows "outside {bird_conf (eBird E) (pa_ASN p)} (a_host st) (a_host st1)" "a_db st1 = a_db st"
    "a_ws st1 = a_ws st" "ifaces (a_host st1) = ifaces (a_host st)"
    "is_ok r \<Longrightarrow> loaded (a_host st1) = files (a_host st1) \<and>
      map_option content (fs_read (a_host st1) (bird_conf (eBird E) (pa_ASN p))) = Some (bird_text p iface)"
proof -
  have tools: "birdc_tools (eOs E) (birdcPath (eBird E))" using assms(1) by (simp add: env_ok_def)
  note h = on_host_split [OF assms(2)]
  note b = bird_AddPeer_run [OF tools conjunct1 [OF h]]
  show "outside {bird_conf (eBird E) (pa_ASN p)} (a_host st) (a_host st1)"
    "ifaces (a_host st1) = ifaces (a_host st)"
    "is_ok r \<Longrightarrow> loaded (a_host st1) = files (a_host st1) \<and>
      map_option content (fs_read (a_host st1) (bird_conf (eBird E) (pa_ASN p))) = Some (bird_text p iface)"
    using b by (simp_all add: bird_text_def)
  show "a_db st1 = a_db st" "a_ws st1 = a_ws st"
    using arg_cong [OF conjunct2 [OF h], of a_db] arg_cong [OF conjunct2 [OF h], of a_ws] by simp_all
qed

lemma undo_bird_run:
  assumes "env_ok E"
  shows "outside {bird_conf (eBird E) asn} (a_host st) (a_host (undo_bird E asn st))"
    "ifaces (a_host (undo_bird E asn st)) = ifaces (a_host st)"
proof -
  have tools: "birdc_tools (eOs E) (birdcPath (eBird E))" using assms(1) by (simp add: env_ok_def)
  obtain r h where run: "bird_RemovePeer (eOs E) (eBird E) asn (a_host st) = (r, h)" by fastforce
  from bird_remove_run(1,2) [OF tools run [unfolded bird_RemovePeer_def]] run
  show "outside {bird_conf (eBird E) asn} (a_host st) (a_host (undo_bird E asn st))"
    "ifaces (a_host (undo_bird E asn st)) = ifaces (a_host st)"
    by simp_all
qed

lemma undo_wg_run:
  assumes "env_ok E" "wg_iface iface"
  shows "outside {wg_conf (eWg E) iface} (a_host st) (a_host (undo_wg E iface st))"
    "iface \<in> set (ifaces (a_host (undo_wg E iface st))) \<longleftrightarrow> down_fails E iface (a_host st)"
    "iface \<in> set (ifaces (a_host (undo_wg E iface st))) \<Longrightarrow> undo_fails E iface (a_host (undo_wg E iface st))"
  using remove_iface_run [OF assms, of "eWg E" "a_host st"] by (auto simp: undo_fails_def)

lemma store_step_run:
  assumes "store_step E p iface st = (r, st1)"
  shows "a_host st1 = a_host st" "a_ws st1 = a_ws st"
    "r = Inl e \<Longrightarrow> a_db st1 = a_db st"
    "env_ok E \<Longrightarrow> info_ok (added_info p iface) \<Longrightarrow> r = Inr u \<Longrightarrow>
       peer_of (eBolt E) (a_db st1) = (peer_of (eBolt E) (a_db st))(pa_PeerID p \<mapsto> added_info p iface)"
proof -
  note s = on_db_split [OF assms]
  show "a_host st1 = a_host st" "a_ws st1 = a_ws st"
    using s by (metis agent.select_convs agent.update_convs(2) agent.surjective)+
  show "r = Inl e \<Longrightarrow> a_db st1 = a_db st" using s by (auto dest: peer_table.put_err)
  assume "env_ok E" "info_ok (added_info p iface)" "r = Inr u"
  then show "peer_of (eBolt E) (a_db st1) = (peer_of (eBolt E) (a_db st))(pa_PeerID p \<mapsto> added_info p iface)"
    using s by (intro peer_table.put_ok [where u = u]) (simp_all add: env_ok_def)
qed

lemma outside_peer:
  "outside {wg_conf (eWg E) iface} h h' \<Longrightarrow> outside (peer_paths E asn iface) h h'"
  "outside {bird_conf (eBird E) asn} h h' \<Longrightarrow> outside (peer_paths E asn iface) h h'"
  by (erule outside_mono, simp add: peer_paths_def)+

lemma install_peer_run:
  assumes env: "env_ok E" "wg_iface iface" "info_ok (added_info p iface)"
    and apart: "wg_conf (eWg E) iface \<noteq> bird_conf (eBird E) (pa_ASN p)"
    and down: "iface \<in> set (ifaces (a_host st)) \<Longrightarrow> unclean"
  shows "\<exists>st1 ok tx. install_peer E i p iface st = sendResponse E i ok tx st1 \<and>
    (ok \<longrightarrow> tx = ''peer added successfully'') \<and>
    a_ws st1 = a_ws st \<and> outside (peer_paths E (pa_ASN p) iface) (a_host st) (a_host st1) \<and>
    (if ok then peer_in_place E p iface st1 else peer_gone E unclean iface st st1)"
proof (cases rule: install_peer_cases [where E = E and p = p and iface = iface and st = st and i = i])
  case (wg_failed e st1)
  note w = wg_step_run [OF env(1,2) wg_failed(1)]
  have "peer_gone E unclean iface st st1" using w(2,4) down by (simp add: peer_gone_def)
  with wg_failed(2) w(3) outside_peer(1) [OF w(1)] show ?thesis by (metis (full_types))
next
  case (bird_failed u e st1 st2)
  note w = wg_step_run [OF env(1,2) bird_failed(1)] and b = bird_step_run [OF env(1) bird_failed(2)]
    and d = undo_wg_run [OF env(1,2), of st2]
  have "outside (peer_paths E (pa_ASN p) iface) (a_host st) (a_host (undo_wg E iface st2))"
    using outside_peer(1) [OF w(1)] outside_peer(2) [OF b(1)] outside_peer(1) [OF d(1)] by (metis outside_trans)
  moreover have "peer_gone E unclean iface st (undo_wg E iface st2)"
    using w(2) b(2) d(3) by (simp add: peer_gone_def)
  ultimately show ?thesis using bird_failed(3) w(3) b(3) by (metis (full_types) on_host_simps(2))
next
  case (store_failed u v e st1 st2 st3)
  note w = wg_step_run [OF env(1,2) store_failed(1)] and b = bird_step_run [OF env(1) store_failed(2)]
    and s = store_step_run(1,2,3) [OF store_failed(3)] and c = undo_bird_run [OF env(1), of "pa_ASN p" st3]
    and d = undo_wg_run [OF env(1,2), of "undo_bird E (pa_ASN p) st3"]
  let ?st = "undo_wg E iface (undo_bird E (pa_ASN p) st3)"
  have "outside (peer_paths E (pa_ASN p) iface) (a_host st) (a_host ?st)"
    using outside_peer(1) [OF w(1)] outside_peer(2) [OF b(1)] outside_peer(2) [OF c(1)] outside_peer(1) [OF d(1)] s(1)
    by (metis outside_trans)
  moreover have "peer_gone E unclean iface st ?st"
    using s(3) [OF refl] w(2) b(2) d(3) by (simp add: peer_gone_def)
  ultimately show ?thesis using store_failed(4) s(2) w(3) b(3) by (metis (full_types) on_host_simps(2))
next
  case (added u v x st1 st2 st3)
  note w = wg_step_run [OF env(1,2) added(1)] and b = bird_step_run [OF env(1) added(2)]
    and s = store_step_run(1,2) [OF added(3)] store_step_run(4) [OF added(3) env(1,3) refl]
  have "fs_read (a_host st2) (wg_conf (eWg E) iface) = fs_read (a_host st1) (wg_conf (eWg E) iface)"
    using outsideD [OF b(1)] apart by simp
  then have "peer_in_place E p iface st3"
    using w(4,5) b(4,5) s by (simp add: peer_in_place_def)
  moreover have "outside (peer_paths E (pa_ASN p) iface) (a_host st) (a_host st3)"
    using outside_peer(1) [OF w(1)] outside_peer(2) [OF b(1)] s(1) by (metis outside_trans)
  ultimately show ?thesis using added(4) w(3) b(3) s(2) by (metis (full_types))
qed

lemma peer_up_run:
  assumes "env_ok E" "wg_iface i" "on_host (IsPeerUp (eOs E) i) st = (b, st1)"
  shows "b \<longleftrightarrow> i \<in> set (ifaces (a_host st))" "outside A (a_host st) (a_host st1)"
    "ifaces (a_host st1) = ifaces (a_host st)" "a_db st1 = a_db st" "a_ws st1 = a_ws st"
proof -
  have tools: "wg_tools (eOs E)" using assms(1) by (simp add: env_ok_def)
  note h = on_host_split [OF assms(3)]
  note u = IsPeerUp_run [OF tools assms(2) conjunct1 [OF h]]
  show "b \<longleftrightarrow> i \<in> set (ifaces (a_host st))" "outside A (a_host st) (a_host st1)"
    "ifaces (a_host st1) = ifaces (a_host st)"
    using u by simp_all
  show "a_db st1 = a_db st" "a_ws st1 = a_ws st"
    using arg_cong [OF conjunct2 [OF h], of a_db] arg_cong [OF conjunct2 [OF h], of a_ws] by simp_all
qed

text \<open>Before the installation: either the peer is already active, or its interface is down or could not be stopped.\<close>

lemma handlePeerAdd_cases:
  assumes env: "env_ok E" "wg_iface iface"
    and p: "unmarshal peer_add_dec (m_Payload msg) = Some p" "iface = iface_of (pa_WgInterface p) (pa_ASN p)"
  obtains
    (active) st1 where "handlePeerAdd E msg st = sendResponse E (m_ID msg) True ''already active'' st1"
      "stored_peer E (pa_PeerID p) st \<noteq> None" "iface \<in> set (ifaces (a_host st))"
      "a_db st1 = a_db st" "a_ws st1 = a_ws st" "outside {} (a_host st) (a_host st1)"
      "ifaces (a_host st1) = ifaces (a_host st)"
  | (install) st1 where "handlePeerAdd E msg st = install_peer E (m_ID msg) p iface st1"
      "iface \<in> set (ifaces (a_host st1)) \<Longrightarrow> cleanup_fails E p iface st" "a_db st1 = a_db st" "a_ws st1 = a_ws st"
      "outside {wg_conf (eWg E) iface} (a_host st) (a_host st1)"
proof -
  define known where "known = (\<not> isl (GetPeer (eBolt E) (pa_PeerID p) (a_db st)))"
  obtain b1 st1 where s1: "(if known then on_host (IsPeerUp (eOs E) iface) st else (False, st)) = (b1, st1)"
    by fastforce
  have one: "a_db st1 = a_db st \<and> a_ws st1 = a_ws st \<and> outside A (a_host st) (a_host st1) \<and>
      ifaces (a_host st1) = ifaces (a_host st) \<and> (known \<longrightarrow> b1 = (iface \<in> set (ifaces (a_host st))))" for A
  proof (cases known)
    case True
    with s1 have "on_host (IsPeerUp (eOs E) iface) st = (b1, st1)" by simp
    from peer_up_run [OF env(1,2) this] show ?thesis by blast
  next
    case False
    with s1 show ?thesis by simp
  qed
  obtain b2 st2 where s2: "on_host (IsPeerUp (eOs E) iface) st1 = (b2, st2)" by fastforce
  note two = peer_up_run [OF env(1,2) s2]
  let ?st3 = "if b2 then undo_wg E iface st2 else st2"
  have run: "handlePeerAdd E msg st =
    (if known \<and> b1 then sendResponse E (m_ID msg) True ''already active'' st1
     else install_peer E (m_ID msg) p iface ?st3)"
    unfolding handlePeerAdd_def Let_def p(1)
    by (simp only: option.case p(2) [symmetric] known_def [symmetric] s1 s2 prod.case)
  have stored: "known \<longleftrightarrow> stored_peer E (pa_PeerID p) st \<noteq> None"
    by (auto simp: stored_peer_def known_def isl_def split: sum.splits)
  show ?thesis
  proof (cases "known \<and> b1")
    case True
    with stored run one [of "{}"] show ?thesis by (intro active [of st1]) simp_all
  next
    case False
    have "outside {wg_conf (eWg E) iface} (a_host st) (a_host ?st3)"
      using outside_trans [OF conjunct1 [OF conjunct2 [OF conjunct2 [OF one]]] two(2)]
        undo_wg_run(1) [OF env, of st2] by (auto intro: outside_trans)
    moreover have "a_host st2 = ((\<lambda>h. snd (IsPeerUp (eOs E) iface h)) ^^ (if known then 2 else 1)) (a_host st)"
      using s1 s2 by (cases known) (auto simp: on_host_def numeral_2_eq_2 split: prod.splits)
    then have "cleanup_fails E p iface st" if "iface \<in> set (ifaces (a_host ?st3))"
      using that two(1,3) undo_wg_run(2) [OF env, of st2] stored by (auto simp: cleanup_fails_def split: if_splits)
    ultimately show ?thesis
      using False run one [of "{}"] two(4,5) by (intro install [of ?st3]) auto
  qed
qed

text \<open>The two files of a peer that the agent names itself are different files.\<close>

lemma plain_iface_conf: "plain_name (InterfaceName asn @ ''.conf'')"
  by (auto simp: plain_name_def InterfaceName_def is_digit_def dest: itoa_chars)

lemma plain_bird_filename: "plain_name (bird_filename asn)"
  by (auto simp: plain_name_def bird_filename_def is_digit_def dest: itoa_chars)

lemma own_files_apart:
  assumes "wgDir m \<noteq> []" "peerDir m' \<noteq> []"
  shows "wg_conf m (InterfaceName a) \<noteq> bird_conf m' b"
proof
  assume "wg_conf m (InterfaceName a) = bird_conf m' b"
  then have "InterfaceName a @ ''.conf'' = bird_filename b"
    using path_join_inj [OF assms(1) plain_iface_conf plain_bird_filename _ assms(2)]
    by (simp add: wg_conf_def bird_conf_def)
  then have "hd (itoa a @ ''.conf'') = CHR ''_''" by (simp add: InterfaceName_def bird_filename_def)
  moreover have "hd (itoa a @ ''.conf'') \<in> set (itoa a)" by simp
  ultimately show False by (auto simp: is_digit_def dest: itoa_chars)
qed

section \<open>Properties\<close>

text \<open>
  C1: \<open>peer.add\<close> is all or nothing towards the center. The handler sends exactly one answer with the
  request's id and touches no file but the two of this peer. There are three outcomes. It answers
  \<open>peer added successfully\<close>: the interface is up, both configurations are written as rendered,
  BIRD has read them, and the store has the record. It answers \<open>already active\<close>: the peer was stored and its interface up,
  and neither a file nor the store changed. It answers a failure: the store is as it was and the interface
  is down, unless a \<open>wg-quick down\<close> that the handler ran on it failed, which the code ignores.
\<close>

theorem peer_add_all_or_nothing:
  assumes "env_ok E" "unmarshal peer_add_dec (m_Payload msg) = Some p"
    and "iface = iface_of (pa_WgInterface p) (pa_ASN p)" "wg_iface iface"
    and "info_ok (added_info p iface)"
    and "wg_conf (eWg E) iface \<noteq> bird_conf (eBird E) (pa_ASN p)"
    and "st' = handlePeerAdd E msg st"
  shows "\<exists>m. answers E msg st st' m \<and>
    outside (peer_paths E (pa_ASN p) iface) (a_host st) (a_host st') \<and>
    (m = response_msg (m_ID msg) True ''peer added successfully'' \<and> peer_in_place E p iface st' \<or>
     m = response_msg (m_ID msg) True ''already active'' \<and> stored_peer E (pa_PeerID p) st \<noteq> None \<and>
       iface \<in> set (ifaces (a_host st)) \<and> ifaces (a_host st') = ifaces (a_host st) \<and>
       a_db st' = a_db st \<and> outside {} (a_host st) (a_host st') \<or>
     (\<exists>e. m = response_msg (m_ID msg) False e) \<and> peer_gone E (cleanup_fails E p iface st) iface st st')"
proof (rule handlePeerAdd_cases [OF assms(1,4,2,3), where st = st], goal_cases)
  case (1 st1)
  note active = 1
  let ?m = "response_msg (m_ID msg) True ''already active''"
  have "answers E msg st st' ?m" using active(1,5) assms(7) by auto
  moreover have "outside (peer_paths E (pa_ASN p) iface) (a_host st) (a_host st')"
    using outside_mono [OF active(6)] active(1) assms(7) by simp
  ultimately show ?thesis
    using active assms(7) by (intro exI [of _ ?m]) simp
next
  case (2 st1)
  note install = 2
  obtain st2 ok tx where run: "install_peer E (m_ID msg) p iface st1 = sendResponse E (m_ID msg) ok tx st2"
    and tx: "ok \<Longrightarrow> tx = ''peer added successfully''" and ws: "a_ws st2 = a_ws st1"
    and out: "outside (peer_paths E (pa_ASN p) iface) (a_host st1) (a_host st2)"
    and res: "if ok then peer_in_place E p iface st2 else peer_gone E (cleanup_fails E p iface st) iface st1 st2"
    using install_peer_run [OF assms(1,4-6) install(2), where i = "m_ID msg"] by blast
  let ?m = "response_msg (m_ID msg) ok tx"
  have "answers E msg st st' ?m" using run install(1,4) ws assms(7) by auto
  moreover have "outside (peer_paths E (pa_ASN p) iface) (a_host st) (a_host st2)"
    using outside_trans [OF outside_mono [OF install(5)] out] by (simp add: peer_paths_def)
  ultimately show ?thesis
    using run res tx install(1,3) assms(7)
    by (intro exI [of _ ?m]) (auto simp: peer_in_place_def peer_gone_def split: if_splits)
qed

definition demo_add_payload :: json where
  "demo_add_payload = JObj
     [(''peer_id'', JStr ''p1''), (''asn'', JNum ''4242420001''), (''remote_wg_pubkey'', JStr ''PUB''),
      (''remote_endpoint'', JStr ''host:51820''), (''remote_lla'', JStr ''fe80::2''),
      (''listen_port'', JNum ''51820''), (''wg_interface'', JStr [])]"

definition demo_add_msg :: Message where
  "demo_add_msg = \<lparr>m_Type = ''peer.add'', m_ID = ''r1'', m_Payload = Some demo_add_payload,
     m_Success = None, m_Error = []\<rparr>"

definition demo_peer :: PeerAddPayload where
  "demo_peer = \<lparr>pa_PeerID = ''p1'', pa_ASN = 4242420001, pa_RemoteWgPubkey = ''PUB'',
     pa_RemoteEndpoint = ''host:51820'', pa_RemoteLLA = ''fe80::2'', pa_ListenPort = 51820,
     pa_WgInterface = [], pa_MTU = None, pa_WgPreSharedKey = None\<rparr>"

lemma demo_add_dec: "unmarshal peer_add_dec (m_Payload demo_add_msg) = Some demo_peer"
  by (simp add: unmarshal_def demo_add_msg_def demo_add_payload_def peer_add_dec_def get_field_def
      jfield_def upper_char_def demo_peer_def int64_read_def parse_int64_def parse_uint64_def Let_def
      is_digit_def digit_val_def)

lemma demo_env_ok: "env_ok (demo_env bad out)"
  by (simp add: env_ok_def sim_wg_tools sim_birdc_tools mem_bolt_laws)

lemma demo_info_stored: "info_ok (added_info demo_peer (InterfaceName 4242420001))"
  using itoa_ascii [of _ 4242420001]
  by (auto simp: info_ok_def added_info_def demo_peer_def int64_range_def InterfaceName_def proto_of_def
      bird_filename_def intro!: utf8_valid_ascii)

lemma demo_add_stores:
  "a_db (handlePeerAdd (demo_env (\<lambda>_. False) (\<lambda>_. [])) demo_add_msg demo_agent) \<noteq> []"
  by (simp add: handlePeerAdd_def demo_add_dec install_peer_def Let_def GetPeer_def db_view_def mem_bolt_def
      IsPeerUp_def run_cmd_def sim_os_def sim_exec_def cmd_result_def AddPeerWithIface_def os_open_trunc_def
      os_write_def bird_AddPeer_def reloadLocked_def demo_peer_def iface_of_def PutPeer_def db_update_def on_host_def
      on_db_def empty_host_def split: option.splits)

lemma peer_add_all_or_nothing_witness:
  "peer_in_place (demo_env (\<lambda>_. False) (\<lambda>_. [])) demo_peer (InterfaceName 4242420001)
     (handlePeerAdd (demo_env (\<lambda>_. False) (\<lambda>_. [])) demo_add_msg demo_agent)"
proof -
  let ?E = "demo_env (\<lambda>_. False) (\<lambda>_. [])"
  have "InterfaceName 4242420001 = iface_of (pa_WgInterface demo_peer) (pa_ASN demo_peer)"
    by (simp add: iface_of_def demo_peer_def)
  moreover have "wg_conf (eWg ?E) (InterfaceName 4242420001) \<noteq> bird_conf (eBird ?E) (pa_ASN demo_peer)"
    by (simp add: own_files_apart)
  ultimately show ?thesis
    using peer_add_all_or_nothing [OF demo_env_ok demo_add_dec _ wg_iface_InterfaceName
        demo_info_stored _ refl, where st = demo_agent] demo_add_stores
    by (auto simp: peer_gone_def)
qed

section \<open>What removing a peer does\<close>

abbreviation undo_bird_file :: "'db env \<Rightarrow> string \<Rightarrow> 'db agent \<Rightarrow> 'db agent" where
  "undo_bird_file E f st \<equiv> snd (on_host (RemovePeerByFilename (eOs E) (eBird E) f) st)"

definition bird_path :: "'db env \<Rightarrow> string \<Rightarrow> string" where
  "bird_path E f = path_join (peerDir (eBird E)) f"

text \<open>\<open>no_remove_fault E p\<close>: the file system lets the agent remove the file \<open>p\<close>.\<close>

definition no_remove_fault :: "'db env \<Rightarrow> string \<Rightarrow> bool" where
  "no_remove_fault E p \<longleftrightarrow> (\<forall>h. fault (eOs E) (Remove p) h = None)"

lemma undo_bird_file_run:
  assumes "env_ok E"
  shows "outside {bird_path E f} (a_host st) (a_host (undo_bird_file E f st))"
    "ifaces (a_host (undo_bird_file E f st)) = ifaces (a_host st)"
    "no_remove_fault E (bird_path E f) \<Longrightarrow> fs_read (a_host (undo_bird_file E f st)) (bird_path E f) = None"
    "loaded (a_host (undo_bird_file E f st)) =
       (if reload_works (eOs E) (eBird E) (bird_path E f) (a_host st)
        then files (a_host (undo_bird_file E f st)) else loaded (a_host st))"
proof -
  have tools: "birdc_tools (eOs E) (birdcPath (eBird E))" using assms(1) by (simp add: env_ok_def)
  obtain r h where run: "RemovePeerByFilename (eOs E) (eBird E) f (a_host st) = (r, h)" by fastforce
  note x = bird_remove_run [OF tools run [unfolded RemovePeerByFilename_def]]
    and l = bird_remove_loaded(1) [OF tools run [unfolded RemovePeerByFilename_def]]
  show "outside {bird_path E f} (a_host st) (a_host (undo_bird_file E f st))"
    "ifaces (a_host (undo_bird_file E f st)) = ifaces (a_host st)"
    "no_remove_fault E (bird_path E f) \<Longrightarrow> fs_read (a_host (undo_bird_file E f st)) (bird_path E f) = None"
    "loaded (a_host (undo_bird_file E f st)) =
       (if reload_works (eOs E) (eBird E) (bird_path E f) (a_host st)
        then files (a_host (undo_bird_file E f st)) else loaded (a_host st))"
    using x(1,2,3,5) l run by (simp_all add: bird_path_def no_remove_fault_def)
qed

lemma undo_wg_file:
  assumes "env_ok E" "wg_iface iface" "no_remove_fault E (wg_conf (eWg E) iface)"
  shows "fs_read (a_host (undo_wg E iface st)) (wg_conf (eWg E) iface) = None"
proof -
  have tools: "wg_tools (eOs E)" using assms(1) by (simp add: env_ok_def)
  obtain r h where run: "RemovePeerByIface (eOs E) (eWg E) iface (a_host st) = (r, h)" by fastforce
  from RemovePeerByIface_run(6) [OF tools assms(2) run] assms(3) run show ?thesis
    by (simp add: no_remove_fault_def)
qed

definition peer_files :: "'db env \<Rightarrow> PeerInfo \<Rightarrow> string set" where
  "peer_files E info = {wg_conf (eWg E) (pi_WgInterface info), bird_path E (pi_BirdConfigFilename info)}"

lemma remove_recorded_run:
  assumes env: "env_ok E" "wg_iface (pi_WgInterface info)"
    and rm: "\<forall>p \<in> peer_files E info. no_remove_fault E p"
    and some: "pi_BirdConfigFilename info \<noteq> []"
    and hb: "hb = snd (RemovePeerByFilename (eOs E) (eBird E) (pi_BirdConfigFilename info) (a_host st))"
    and st1: "st1 = remove_wg E (Some info) asn (remove_bird E (Some info) asn st)"
  shows "a_db st1 = a_db st" "a_ws st1 = a_ws st"
    "set (ifaces (a_host st1)) =
       (if cmd_err (fst (exec (eOs E) [''wg-quick'', ''down'', pi_WgInterface info] hb)) = None
        then set (ifaces (a_host st)) - {pi_WgInterface info} else set (ifaces (a_host st)))"
    "loaded (a_host st1) =
       (if reload_works (eOs E) (eBird E) (bird_path E (pi_BirdConfigFilename info)) (a_host st)
        then files hb else loaded (a_host st))"
    "fs_read hb (bird_path E (pi_BirdConfigFilename info)) = None"
    "outside (peer_files E info) (a_host st) (a_host st1)"
    "\<forall>p \<in> peer_files E info. fs_read (a_host st1) p = None"
proof -
  let ?st = "undo_bird_file E (pi_BirdConfigFilename info) st"
  have "pi_WgInterface info \<noteq> []" using env(2) by (simp add: wg_iface_def)
  then have eq: "st1 = undo_wg E (pi_WgInterface info) ?st"
    using some st1 by (simp add: remove_wg_def remove_bird_def Let_def)
  have host: "a_host ?st = hb" by (simp add: hb)
  note b = undo_bird_file_run [OF env(1), of "pi_BirdConfigFilename info" st, unfolded host]
    and w = undo_wg_run(1) [OF env, of ?st, unfolded host] and r = remove_iface_run(3,4) [OF env, of "eWg E" hb]
  have a1: "a_host st1 = snd (RemovePeerByIface (eOs E) (eWg E) (pi_WgInterface info) hb)"
    unfolding eq using host by simp
  show "a_db st1 = a_db st" "a_ws st1 = a_ws st" using eq by simp_all
  show "set (ifaces (a_host st1)) =
       (if cmd_err (fst (exec (eOs E) [''wg-quick'', ''down'', pi_WgInterface info] hb)) = None
        then set (ifaces (a_host st)) - {pi_WgInterface info} else set (ifaces (a_host st)))"
    "loaded (a_host st1) =
       (if reload_works (eOs E) (eBird E) (bird_path E (pi_BirdConfigFilename info)) (a_host st)
        then files hb else loaded (a_host st))"
    unfolding a1 r using b(2,4) by simp_all
  show gone: "fs_read hb (bird_path E (pi_BirdConfigFilename info)) = None"
    using b(3) rm by (simp add: peer_files_def)
  show "outside (peer_files E info) (a_host st) (a_host st1)"
    unfolding eq using outside_mono [OF b(1)] outside_mono [OF w]
    by (rule outside_trans) (simp_all add: peer_files_def)
  have "fs_read (a_host st1) (wg_conf (eWg E) (pi_WgInterface info)) = None"
    unfolding eq using rm by (intro undo_wg_file [OF env(1,2)]) (simp add: peer_files_def)
  then show "\<forall>p \<in> peer_files E info. fs_read (a_host st1) p = None"
    using outsideD [OF w] gone unfolding peer_files_def eq by (metis empty_iff insert_iff)
qed

text \<open>
  C7: \<open>peer.remove\<close> of a stored peer answers success once and leaves nothing of it. Both configuration
  files of the record are gone and no other file has changed. BIRD was told to reload without the file: when that works,
  it runs the files without it, else what it ran. \<open>wg-quick down\<close> was run: when it succeeds, the interface and no other is
  removed, else the interfaces are as they were. The record is deleted when BoltDB accepts the deletion, and every other record is
  untouched.
\<close>

theorem peer_remove_tears_down:
  assumes "env_ok E" "unmarshal peer_remove_dec (m_Payload msg) = Some p"
    and "stored_peer E (pr_PeerID p) st = Some info" "pr_ASN p \<noteq> 0 \<or> pi_ASN info \<noteq> 0"
    and "wg_iface (pi_WgInterface info)" "pi_BirdConfigFilename info \<noteq> []"
    and "\<forall>q \<in> peer_files E info. no_remove_fault E q"
    and "hb = snd (RemovePeerByFilename (eOs E) (eBird E) (pi_BirdConfigFilename info) (a_host st))"
    and "st' = handlePeerRemove E msg st"
  shows "answers E msg st st' (response_msg (m_ID msg) True ''peer removed successfully'') \<and>
    (\<forall>q \<in> peer_files E info. fs_read (a_host st') q = None) \<and>
    outside (peer_files E info) (a_host st) (a_host st') \<and>
    fs_read hb (bird_path E (pi_BirdConfigFilename info)) = None \<and>
    loaded (a_host st') =
      (if reload_works (eOs E) (eBird E) (bird_path E (pi_BirdConfigFilename info)) (a_host st)
       then files hb else loaded (a_host st)) \<and>
    set (ifaces (a_host st')) =
      (if cmd_err (fst (exec (eOs E) [''wg-quick'', ''down'', pi_WgInterface info] hb)) = None
       then set (ifaces (a_host st)) - {pi_WgInterface info} else set (ifaces (a_host st))) \<and>
    peer_of (eBolt E) (a_db st') =
      (if is_ok (fst (DeletePeer (eBolt E) (pr_PeerID p) (a_db st)))
       then (peer_of (eBolt E) (a_db st))(pr_PeerID p := None) else peer_of (eBolt E) (a_db st))"
proof -
  have laws: "bolt_laws (eBolt E)" using assms(1) by (simp add: env_ok_def)
  define asn where "asn = (if pr_ASN p = 0 then pi_ASN info else pr_ASN p)"
  define st1 where "st1 = remove_wg E (Some info) asn (remove_bird E (Some info) asn st)"
  note r = remove_recorded_run [OF assms(1,5,7,6,8) st1_def]
  obtain d db where del: "DeletePeer (eBolt E) (pr_PeerID p) (a_db st) = (d, db)" by fastforce
  have "asn \<noteq> 0" using assms(4) by (auto simp: asn_def)
  then have run: "st' = sendResponse E (m_ID msg) True ''peer removed successfully''
      (snd (on_db (DeletePeer (eBolt E) (pr_PeerID p)) st1))"
    using assms(2,3,9)
    by (cases "pr_ASN p = 0") (simp_all add: handlePeerRemove_def Let_def asn_def st1_def)
  have "a_db st' = db" using run del r(1) by simp
  then have "peer_of (eBolt E) (a_db st') =
      (if is_ok (fst (DeletePeer (eBolt E) (pr_PeerID p) (a_db st)))
       then (peer_of (eBolt E) (a_db st))(pr_PeerID p := None) else peer_of (eBolt E) (a_db st))"
    using peer_table.del_look [OF laws del] del by simp
  moreover have "answers E msg st st' (response_msg (m_ID msg) True ''peer removed successfully'')"
    unfolding run using r(2) by (intro answers_response) simp
  ultimately show ?thesis using r(3-7) run by simp
qed

definition demo_stored :: "mem_db agent" where
  "demo_stored = demo_agent\<lparr>a_db := [((bucketPeers, ''p1''), peer_marshal demo_info)]\<rparr>"

definition demo_remove_msg :: Message where
  "demo_remove_msg = \<lparr>m_Type = ''peer.remove'', m_ID = ''r2'',
     m_Payload = Some (JObj [(''peer_id'', JStr ''p1'')]), m_Success = None, m_Error = []\<rparr>"

lemma demo_remove_dec:
  "unmarshal peer_remove_dec (m_Payload demo_remove_msg) = Some \<lparr>pr_PeerID = ''p1'', pr_ASN = 0\<rparr>"
  by (simp add: unmarshal_def demo_remove_msg_def peer_remove_dec_def get_field_def jfield_def upper_char_def)

lemma demo_stored_peer: "stored_peer (demo_env bad out) ''p1'' demo_stored = Some demo_info"
  by (simp add: stored_peer_def demo_stored_def GetPeer_def db_view_def mem_bolt_def
      peer_record.dec_enc demo_info_ok)

lemma peer_remove_tears_down_witness:
  "peer_of mem_bolt (a_db (handlePeerRemove (demo_env (\<lambda>_. False) (\<lambda>_. [])) demo_remove_msg demo_stored)) ''p1''
     = None \<and>
   bird_path (demo_env (\<lambda>_. False) (\<lambda>_. [])) (pi_BirdConfigFilename demo_info) \<notin>
     fst ` set (loaded (a_host (handlePeerRemove (demo_env (\<lambda>_. False) (\<lambda>_. [])) demo_remove_msg demo_stored)))"
proof -
  let ?E = "demo_env (\<lambda>_. False) (\<lambda>_. [])"
  define hb where "hb = snd (RemovePeerByFilename (eOs ?E) (eBird ?E) (pi_BirdConfigFilename demo_info) (a_host demo_stored))"
  have "wg_iface (pi_WgInterface demo_info)" "pi_BirdConfigFilename demo_info \<noteq> []" "pi_ASN demo_info \<noteq> 0"
    by (simp_all add: wg_iface_def demo_info_def has_prefix_def)
  moreover have "\<forall>q \<in> peer_files ?E demo_info. no_remove_fault ?E q"
    by (simp add: no_remove_fault_def sim_os_def)
  moreover have "is_ok (fst (DeletePeer (eBolt ?E) ''p1'' db))" for db
    by (simp add: DeletePeer_def db_update_def mem_bolt_def)
  moreover have "reload_works (eOs ?E) (eBird ?E) q h" for q h
    by (simp add: reload_works_def sim_os_def sim_exec_def cmd_result_def)
  ultimately show ?thesis
    using peer_remove_tears_down [OF demo_env_ok demo_remove_dec, of _ _ demo_stored demo_info, OF _ _ _ _ _ hb_def refl]
      demo_stored_peer by (auto simp: fs_read_def map_of_eq_None_iff)
qed

end
