(* ===== verification/Metrics.thy ===== *)
theory Metrics
  imports Peers
begin

text \<open>
  The collector of \<open>src/internal/metrics/metrics.go\<close>, which sends a heartbeat to the center on every
  tick, and the accessors of the handler it uses. The values of the Go runtime are a parameter, and so is the order in
  which the concurrent pings finish.
\<close>

section \<open>State\<close>

record NodeMetrics =
  nm_MemAllocMB :: "64 word"
  nm_MemSysMB :: "64 word"
  nm_NumGoroutine :: int
  nm_UptimeSecs :: int

record PeerMetric =
  pm_PeerID :: string
  pm_ASN :: int
  pm_WgInterface :: string
  pm_RxBytes :: int
  pm_TxBytes :: int
  pm_LastHandshake :: string
  pm_BGPState :: string
  pm_RttMs :: "gofloat option"
  pm_Details :: "PeerDetail option"
  pm_WgActualEndpoint :: string

record Collector =
  co_interval :: int
  co_birdDetailEvery :: "64 word"
  co_version :: string
  co_tickCount :: "64 word"
  co_done :: bool

text \<open>\<open>runtime.MemStats\<close>, \<open>runtime.NumGoroutine\<close> and the seconds since the process started.\<close>

record go_runtime =
  rt_HeapAlloc :: "64 word"
  rt_Sys :: "64 word"
  rt_NumGoroutine :: int
  rt_Uptime :: int

definition NewCollector :: "int \<Rightarrow> int \<Rightarrow> Collector" where
  "NewCollector intervalSec birdDetailEvery =
     \<lparr>co_interval = wrap64 (intervalSec * second_ns),
      co_birdDetailEvery = word_of_int (if birdDetailEvery < 1 then 2 else birdDetailEvery),
      co_version = [], co_tickCount = 0, co_done = False\<rparr>"

definition SetVersion :: "string \<Rightarrow> Collector \<Rightarrow> Collector" where
  "SetVersion v c = c\<lparr>co_version := v\<rparr>"

definition versionStr :: "Collector \<Rightarrow> string" where
  "versionStr c = co_version c"

definition Stop :: "Collector \<Rightarrow> Collector" where
  "Stop c = c\<lparr>co_done := True\<rparr>"

section \<open>Accessors of the handler\<close>

definition GetBirdStates :: "'db env \<Rightarrow> 'db agent \<Rightarrow> PeerState list \<times> 'db agent" where
  "GetBirdStates E st =
     (case on_host (GetPeerStates (eOs E) (eBird E)) st of
        (Inl _, st) \<Rightarrow> ([], st)
      | (Inr states, st) \<Rightarrow> (states, st))"

definition GetBirdDetails :: "'db env \<Rightarrow> 'db agent \<Rightarrow> PeerDetail list res \<times> 'db agent" where
  "GetBirdDetails E st = get_details E st"

section \<open>Collecting\<close>

text \<open>The maps from interfaces to peers that the callback of \<open>ForEachPeer\<close> fills.\<close>

definition index_peer ::
    "string \<Rightarrow> PeerInfo \<Rightarrow> (string \<times> string \<times> PeerInfo) list \<Rightarrow> string option \<times> (string \<times> string \<times> PeerInfo) list" where
  "index_peer peerID info m =
     (None, AList.update (iface_of (pi_WgInterface info) (pi_ASN info)) (peerID, info) m)"

definition iface_index :: "'db env \<Rightarrow> 'db agent \<Rightarrow> (string \<times> string \<times> PeerInfo) list" where
  "iface_index E st = snd (ForEachPeer (eBolt E) index_peer (a_db st) [])"

definition ping_jobs :: "(string \<times> string \<times> PeerInfo) list \<Rightarrow> InterfaceStats list \<Rightarrow> (string \<times> string) list" where
  "ping_jobs idx stats =
     List.map_filter (\<lambda>s. case map_of idx (is_Name s) of
         None \<Rightarrow> None
       | Some (_, info) \<Rightarrow> if pi_RemoteLLA info = [] then None else Some (is_Name s, pi_RemoteLLA info)) stats"

text \<open>The pings, in the order in which they finish; a result below zero is dropped.\<close>

definition ping_one ::
    "'db env \<Rightarrow> string \<times> string \<Rightarrow> (string \<times> gofloat) list \<times> 'db agent \<Rightarrow> (string \<times> gofloat) list \<times> 'db agent" where
  "ping_one E job acc =
     (case on_host (PingPeer (eOs E) (snd job) (fst job)) (snd acc) of
        (rtt, st) \<Rightarrow> (if rtt = FMinusOne then fst acc else AList.update (fst job) rtt (fst acc), st))"

definition by_proto :: "('a \<Rightarrow> string) \<Rightarrow> 'a list \<Rightarrow> string \<Rightarrow> 'a option" where
  "by_proto name xs p = map_of (fold (\<lambda>x. AList.update (name x) x) xs []) p"

definition peer_metric ::
    "(string \<times> string \<times> PeerInfo) list \<Rightarrow> PeerState list \<Rightarrow> PeerDetail list \<Rightarrow> (string \<times> gofloat) list
      \<Rightarrow> InterfaceStats \<Rightarrow> PeerMetric option" where
  "peer_metric idx states details rtts s =
     (case map_of idx (is_Name s) of
        None \<Rightarrow> None
      | Some (peerID, info) \<Rightarrow>
          let proto = (if pi_BgpProtoName info = [] then proto_of (pi_ASN info) else pi_BgpProtoName info) in
          Some \<lparr>pm_PeerID = peerID, pm_ASN = pi_ASN info, pm_WgInterface = is_Name s,
                pm_RxBytes = is_RxBytes s, pm_TxBytes = is_TxBytes s, pm_LastHandshake = is_LastHandshake s,
                pm_BGPState = (case by_proto ps_Name states proto of None \<Rightarrow> [] | Some b \<Rightarrow> ps_State b),
                pm_RttMs = map_of rtts (is_Name s), pm_Details = by_proto pd_Name details proto,
                pm_WgActualEndpoint = is_ActualEndpoint s\<rparr>)"

definition word_json :: "string \<Rightarrow> 64 word \<Rightarrow> (string \<times> json) list" where
  "word_json k w = (if w = 0 then [] else [(k, JNum (nat_str (unat w)))])"

definition int_json :: "string \<Rightarrow> int \<Rightarrow> (string \<times> json) list" where
  "int_json k n = (if n = 0 then [] else [(k, jint n)])"

definition node_json :: "NodeMetrics \<Rightarrow> json" where
  "node_json n = JObj (word_json ''mem_alloc_mb'' (nm_MemAllocMB n) @ word_json ''mem_sys_mb'' (nm_MemSysMB n) @
     int_json ''num_goroutine'' (nm_NumGoroutine n) @ int_json ''uptime_secs'' (nm_UptimeSecs n))"

definition rtt_json :: "gofloat option \<Rightarrow> json option" where
  "rtt_json r = (case r of None \<Rightarrow> Some JNull | Some f \<Rightarrow> jfloat f)"

definition metric_json :: "PeerMetric \<Rightarrow> json option" where
  "metric_json m =
     map_option (\<lambda>rtt. JObj
       ([(''peer_id'', JStr (pm_PeerID m)), (''asn'', jint (pm_ASN m)), (''wg_interface'', JStr (pm_WgInterface m)),
         (''wg_rx_bytes'', jint (pm_RxBytes m)), (''wg_tx_bytes'', jint (pm_TxBytes m)),
         (''wg_last_handshake'', JStr (pm_LastHandshake m)), (''bgp_state'', JStr (pm_BGPState m)),
         (''rtt_ms'', rtt)] @
        (case pm_Details m of
           None \<Rightarrow> []
         | Some d \<Rightarrow>
             [(''routes_imported'', jint (pd_RoutesImported d)), (''routes_exported'', jint (pd_RoutesExported d)),
              (''routes_preferred'', jint (pd_RoutesPreferred d)), (''bgp_uptime_secs'', jint (pd_BGPUptimeSecs d))]) @
        (if pm_WgActualEndpoint m = [] then [] else [(''wg_actual_endpoint'', JStr (pm_WgActualEndpoint m))])))
       (rtt_json (pm_RttMs m))"

fun metrics_json :: "PeerMetric list \<Rightarrow> json list option" where
  "metrics_json [] = Some []"
| "metrics_json (m # ms) = Option.bind (metric_json m) (\<lambda>j. map_option ((#) j) (metrics_json ms))"

definition heartbeat :: "string \<Rightarrow> NodeMetrics \<Rightarrow> json list \<Rightarrow> Message" where
  "heartbeat version node peers =
     \<lparr>m_Type = ''heartbeat'', m_ID = [],
      m_Payload = Some (JObj [(''node_metrics'', node_json node), (''peers'', JArr peers), (''version'', JStr version)]),
      m_Success = None, m_Error = []\<rparr>"

definition node_metrics :: "go_runtime \<Rightarrow> NodeMetrics" where
  "node_metrics R =
     \<lparr>nm_MemAllocMB = rt_HeapAlloc R div 1024 div 1024, nm_MemSysMB = rt_Sys R div 1024 div 1024,
      nm_NumGoroutine = rt_NumGoroutine R, nm_UptimeSecs = rt_Uptime R\<rparr>"

text \<open>The details of BIRD, which are asked for on every \<open>birdDetailEvery\<close>-th tick.\<close>

definition tick_details :: "'db env \<Rightarrow> Collector \<Rightarrow> 'db agent \<Rightarrow> PeerDetail list \<times> 'db agent" where
  "tick_details E c st =
     (if co_tickCount c mod co_birdDetailEvery c = 0 then
        (case GetBirdDetails E st of (Inl _, st) \<Rightarrow> ([], st) | (Inr ds, st) \<Rightarrow> (ds, st))
      else ([], st))"

definition collect ::
    "'db env \<Rightarrow> go_runtime \<Rightarrow> ((string \<times> string) list \<Rightarrow> (string \<times> string) list) \<Rightarrow> Collector \<Rightarrow> 'db agent \<Rightarrow>
     Collector \<times> 'db agent" where
  "collect E R sched c st =
     (case on_host (GetStats (eOs E)) st of
        (Inl _, st) \<Rightarrow> (c, st)
      | (Inr stats, st) \<Rightarrow>
          (let idx = iface_index E st; (states, st) = GetBirdStates E st;
               c = c\<lparr>co_tickCount := co_tickCount c + 1\<rparr>;
               (details, st) = tick_details E c st;
               (rtts, st) = fold (ping_one E) (sched (ping_jobs idx stats)) ([], st)
           in case metrics_json (List.map_filter (peer_metric idx states details rtts) stats) of
                None \<Rightarrow> (c, st)
              | Some js \<Rightarrow> (c, send_msg E (heartbeat (versionStr c) (node_metrics R) js) st)))"


text \<open>
  \<open>Run\<close>: \<open>time.NewTicker\<close> panics on an interval that is not positive; then every tick collects, until
  the collector is stopped. The events are given, each tick with what the runtime reports.
\<close>

datatype collector_event = Tick go_runtime | Stopped

fun metrics_loop ::
    "'db env \<Rightarrow> ((string \<times> string) list \<Rightarrow> (string \<times> string) list) \<Rightarrow> collector_event list \<Rightarrow> Collector \<Rightarrow> 'db agent \<Rightarrow>
     Collector \<times> 'db agent" where
  "metrics_loop E sched [] c st = (c, st)"
| "metrics_loop E sched (Stopped # evs) c st = (c, st)"
| "metrics_loop E sched (Tick R # evs) c st =
     (case collect E R sched c st of (c, st) \<Rightarrow> metrics_loop E sched evs c st)"

definition metrics_Run ::
    "'db env \<Rightarrow> ((string \<times> string) list \<Rightarrow> (string \<times> string) list) \<Rightarrow> collector_event list \<Rightarrow> Collector \<Rightarrow> 'db agent \<Rightarrow>
     (Collector \<times> 'db agent) res" where
  "metrics_Run E sched evs c st =
     (if co_interval c \<le> 0 then Inl ''non-positive interval for NewTicker''
      else Inr (metrics_loop E sched evs c st))"

section \<open>The index of the peers\<close>

definition peer_iface :: "PeerInfo \<Rightarrow> string" where
  "peer_iface i = iface_of (pi_WgInterface i) (pi_ASN i)"

lemma iface_index_fold:
  "bBegin (eBolt E) (a_db st) False = None \<Longrightarrow>
   iface_index E st = fold (\<lambda>x. AList.update (peer_iface (snd x)) x)
     (peer_list (bCursor (eBolt E) (a_db st) bucketPeers)) []"
  by (simp add: iface_index_def ForEachPeer_def for_each_fold index_peer_def peer_iface_def case_prod_beta')

lemma find_SomeD: "find P xs = Some x \<Longrightarrow> x \<in> set xs \<and> P x"
  by (induction xs) (auto split: if_splits)

lemma iface_index_sound:
  assumes "bolt_laws (eBolt E)" "bBegin (eBolt E) (a_db st) False = None" "map_of (iface_index E st) n = Some (k, i)"
  shows "peer_of (eBolt E) (a_db st) k = Some i" "peer_iface i = n"
proof -
  let ?ps = "peer_list (bCursor (eBolt E) (a_db st) bucketPeers)"
  have "find (\<lambda>x. peer_iface (snd x) = n) (rev ?ps) = Some (k, i)"
    using assms(3) gomap.look_puts [of "\<lambda>x. peer_iface (snd x)" "\<lambda>x. x" ?ps "[]" n]
    by (simp add: iface_index_fold [OF assms(2)] split: option.splits)
  then have "(k, i) \<in> set (rev ?ps) \<and> peer_iface i = n" by (auto dest: find_SomeD)
  then show "peer_of (eBolt E) (a_db st) k = Some i" "peer_iface i = n"
    using set_peer_list_cursor [OF assms(1)] by simp_all
qed

lemma iface_index_complete:
  assumes "bolt_laws (eBolt E)" "bBegin (eBolt E) (a_db st) False = None"
  shows "map_of (iface_index E st) n \<noteq> None \<longleftrightarrow> (\<exists>k i. peer_of (eBolt E) (a_db st) k = Some i \<and> peer_iface i = n)"
proof -
  let ?ps = "peer_list (bCursor (eBolt E) (a_db st) bucketPeers)"
  have "dom (map_of (iface_index E st)) = (\<lambda>x. peer_iface (snd x)) ` set ?ps"
    using gomap.dom_puts [of "\<lambda>x. peer_iface (snd x)" "\<lambda>x. x" ?ps "[]"]
    by (simp add: iface_index_fold [OF assms(2)])
  then have "map_of (iface_index E st) n \<noteq> None \<longleftrightarrow> (\<exists>k i. (k, i) \<in> set ?ps \<and> peer_iface i = n)" by force
  then show ?thesis using set_peer_list_cursor [OF assms(1)] by simp
qed

section \<open>Round-trip times have a JSON form\<close>

lemma PingPeer_rtt: "PingPeer Os l i h = (f, h') \<Longrightarrow> jfloat f \<noteq> None"
  by (auto simp: PingPeer_def parse_float_def split: if_splits option.splits prod.splits)

lemma ping_one_frame:
  assumes "ping_one E job acc = acc'"
  shows "a_db (snd acc') = a_db (snd acc)" "a_ws (snd acc') = a_ws (snd acc)"
    "\<forall>f \<in> ran (map_of (fst acc)). jfloat f \<noteq> None \<Longrightarrow> \<forall>f \<in> ran (map_of (fst acc')). jfloat f \<noteq> None"
proof -
  obtain f h where p: "PingPeer (eOs E) (snd job) (fst job) (a_host (snd acc)) = (f, h)" by fastforce
  then have acc': "acc' = (if f = FMinusOne then fst acc else AList.update (fst job) f (fst acc), (snd acc)\<lparr>a_host := h\<rparr>)"
    using assms by (simp add: ping_one_def on_host_def)
  then show "a_db (snd acc') = a_db (snd acc)" "a_ws (snd acc') = a_ws (snd acc)" by simp_all
  assume "\<forall>f \<in> ran (map_of (fst acc)). jfloat f \<noteq> None"
  then show "\<forall>f \<in> ran (map_of (fst acc')). jfloat f \<noteq> None"
    using acc' PingPeer_rtt [OF p] by (auto simp: gomap.look_put ran_def split: if_splits)
qed

lemma pings_frame:
  assumes "fold (ping_one E) jobs acc = acc'"
  shows "a_db (snd acc') = a_db (snd acc)" "a_ws (snd acc') = a_ws (snd acc)"
    "\<forall>f \<in> ran (map_of (fst acc)). jfloat f \<noteq> None \<Longrightarrow> \<forall>f \<in> ran (map_of (fst acc')). jfloat f \<noteq> None"
proof -
  have "a_db (snd acc') = a_db (snd acc) \<and> a_ws (snd acc') = a_ws (snd acc) \<and>
    ((\<forall>f \<in> ran (map_of (fst acc)). jfloat f \<noteq> None) \<longrightarrow> (\<forall>f \<in> ran (map_of (fst acc')). jfloat f \<noteq> None))"
    using assms
  proof (induction jobs arbitrary: acc)
    case (Cons j jobs)
    from Cons.IH [of "ping_one E j acc"] Cons.prems ping_one_frame [where acc = acc and E = E and job = j, OF refl] show ?case by simp
  qed simp
  then show "a_db (snd acc') = a_db (snd acc)" "a_ws (snd acc') = a_ws (snd acc)"
    "\<forall>f \<in> ran (map_of (fst acc)). jfloat f \<noteq> None \<Longrightarrow> \<forall>f \<in> ran (map_of (fst acc')). jfloat f \<noteq> None"
    by simp_all
qed

lemma metrics_json_ok: "\<forall>m \<in> set ms. rtt_json (pm_RttMs m) \<noteq> None \<Longrightarrow> \<exists>js. metrics_json ms = Some js \<and> length js = length ms"
  by (induction ms) (auto simp: metric_json_def)


section \<open>The heartbeat\<close>

definition tracked_iface :: "'db env \<Rightarrow> 'db agent \<Rightarrow> string \<Rightarrow> bool" where
  "tracked_iface E st n \<longleftrightarrow> (\<exists>k i. peer_of (eBolt E) (a_db st) k = Some i \<and> peer_iface i = n)"

text \<open>What a heartbeat says about a row of the WireGuard statistics.\<close>

definition reports :: "'db env \<Rightarrow> 'db agent \<Rightarrow> InterfaceStats \<Rightarrow> PeerMetric \<Rightarrow> bool" where
  "reports E st s m \<longleftrightarrow>
     pm_WgInterface m = is_Name s \<and> pm_RxBytes m = is_RxBytes s \<and> pm_TxBytes m = is_TxBytes s \<and>
     pm_LastHandshake m = is_LastHandshake s \<and> pm_WgActualEndpoint m = is_ActualEndpoint s \<and>
     (\<exists>i. peer_of (eBolt E) (a_db st) (pm_PeerID m) = Some i \<and> peer_iface i = is_Name s \<and> pm_ASN m = pi_ASN i)"

lemma metrics_rows:
  assumes "bolt_laws (eBolt E)" "bBegin (eBolt E) (a_db st) False = None" "idx = iface_index E st"
  shows "list_all2 (reports E st) (filter (\<lambda>s. tracked_iface E st (is_Name s)) stats)
    (List.map_filter (peer_metric idx states details rtts) stats)"
proof (induction stats)
  case (Cons s stats)
  show ?case
  proof (cases "map_of idx (is_Name s)")
    case None
    then have "\<not> tracked_iface E st (is_Name s)"
      using iface_index_complete [OF assms(1,2), of "is_Name s"] assms(3) by (simp add: tracked_iface_def)
    with None Cons show ?thesis by (simp add: List.map_filter_simps peer_metric_def)
  next
    case (Some x)
    obtain k i where x: "x = (k, i)" by fastforce
    note s = iface_index_sound [OF assms(1,2), of "is_Name s" k i] 
    have "tracked_iface E st (is_Name s)" "peer_of (eBolt E) (a_db st) k = Some i" "peer_iface i = is_Name s"
      using s Some x assms(3) by (auto simp: tracked_iface_def)
    with Some x Cons show ?thesis by (simp add: List.map_filter_simps peer_metric_def reports_def Let_def)
  qed
qed (simp add: List.map_filter_simps)

lemma metric_details_none:
  "m \<in> set (List.map_filter (peer_metric idx states [] rtts) stats) \<Longrightarrow> pm_Details m = None"
  by (auto simp: List.map_filter_def peer_metric_def by_proto_def Let_def split: option.splits)

lemma metric_rtt:
  assumes "m \<in> set (List.map_filter (peer_metric idx states details rtts) stats)" "\<forall>f \<in> ran (map_of rtts). jfloat f \<noteq> None"
  shows "rtt_json (pm_RttMs m) \<noteq> None"
proof -
  obtain n where "pm_RttMs m = map_of rtts n"
    using assms(1) by (auto simp: List.map_filter_def peer_metric_def Let_def split: option.splits)
  with assms(2) show ?thesis by (auto simp: rtt_json_def ran_def split: option.splits)
qed

lemma tick_count:
  assumes "unat t + 1 < 2 ^ 64"
  shows "(t + 1) mod e = (0 :: 64 word) \<longleftrightarrow> (unat t + 1) mod unat e = 0"
proof -
  have "unat (t + 1) = unat t + 1" using assms by (simp add: unat_word_ariths)
  moreover have "(t + 1) mod e = 0 \<longleftrightarrow> unat ((t + 1) mod e) = 0" by (simp add: unat_eq_0)
  ultimately show ?thesis by (simp add: unat_mod_distrib)
qed


text \<open>
  C22: a heartbeat reports every tracked tunnel that is up. When the WireGuard statistics can be read, one
  message of type \<open>heartbeat\<close> goes to the client. Its payload has the fields \<open>node_metrics\<close>,
  \<open>peers\<close> and \<open>version\<close> and no other: neither the node's id nor a timestamp, which the protocol document lists. The
  peers are one entry for each row of the statistics whose interface belongs to a stored peer, in the order of the rows, with
  that row's counters, the id of such a peer and its AS number; a stored peer whose interface
  has no row gets no entry. The pings and their order cannot make it fail. The database is not
  changed, the tick counter grows by one, and the entries carry no BGP details unless the number of the tick is a
  multiple of the configured interval.
\<close>

theorem heartbeat_reports_tracked:
  assumes "bolt_laws (eBolt E)" "bBegin (eBolt E) (a_db st) False = None"
    and "GetStats (eOs E) (a_host st) = (Inr stats, h)" "unat (co_tickCount c) + 1 < 2 ^ 64"
    and "collect E R sched c st = (c', st')"
  shows "\<exists>ms js. list_all2 (reports E st) (filter (\<lambda>s. tracked_iface E st (is_Name s)) stats) ms \<and>
    metrics_json ms = Some js \<and> length js = length ms \<and>
    a_ws st' = snd (Send (ePrims E) (heartbeat (versionStr c) (node_metrics R) js) (a_ws st)) \<and>
    m_Payload (heartbeat (versionStr c) (node_metrics R) js) = Some (JObj
      [(''node_metrics'', node_json (node_metrics R)), (''peers'', JArr js), (''version'', JStr (versionStr c))]) \<and>
    a_db st' = a_db st \<and> unat (co_tickCount c') = unat (co_tickCount c) + 1 \<and>
    ((unat (co_tickCount c) + 1) mod unat (co_birdDetailEvery c) \<noteq> 0 \<longrightarrow> (\<forall>m \<in> set ms. pm_Details m = None))"
proof -
  let ?st1 = "st\<lparr>a_host := h\<rparr>" and ?c = "c\<lparr>co_tickCount := co_tickCount c + 1\<rparr>"
  define idx where "idx = iface_index E ?st1"
  obtain states st2 where b: "GetBirdStates E ?st1 = (states, st2)" by fastforce
  have st2: "a_db st2 = a_db st" "a_ws st2 = a_ws st"
    using b by (auto simp: GetBirdStates_def on_host_def split: prod.splits sum.splits)
  obtain details st3 where d: "tick_details E ?c st2 = (details, st3)" by fastforce
  have st3: "a_db st3 = a_db st" "a_ws st3 = a_ws st"
    using d st2 by (auto simp: tick_details_def GetBirdDetails_def get_details_def on_host_def
        split: prod.splits sum.splits if_splits)
  have nodet: "details = []" if "(unat (co_tickCount c) + 1) mod unat (co_birdDetailEvery c) \<noteq> 0"
    using d that tick_count [OF assms(4), of "co_birdDetailEvery c"] by (simp add: tick_details_def)
  obtain rtts st4 where p: "fold (ping_one E) (sched (ping_jobs idx stats)) ([], st3) = (rtts, st4)" by fastforce
  have st4: "a_db st4 = a_db st" "a_ws st4 = a_ws st" "\<forall>f \<in> ran (map_of rtts). jfloat f \<noteq> None"
    using pings_frame [OF p] st3 by auto
  define ms where "ms = List.map_filter (peer_metric idx states details rtts) stats"
  have "\<forall>m \<in> set ms. rtt_json (pm_RttMs m) \<noteq> None" using metric_rtt st4(3) unfolding ms_def by blast
  then obtain js where js: "metrics_json ms = Some js" "length js = length ms" using metrics_json_ok by blast
  have "(c', st') = (?c, send_msg E (heartbeat (versionStr c) (node_metrics R) js) st4)"
    using assms(3,5) b d p js(1)
    by (simp add: collect_def on_host_def Let_def versionStr_def idx_def [symmetric] ms_def [symmetric])
  then have "c' = ?c" "st' = send_msg E (heartbeat (versionStr c) (node_metrics R) js) st4" by simp_all
  moreover have "list_all2 (reports E st) (filter (\<lambda>s. tracked_iface E st (is_Name s)) stats) ms"
    using metrics_rows [OF assms(1,2), of idx stats states details rtts]
    by (simp add: idx_def ms_def iface_index_def)
  moreover have "unat (co_tickCount c + 1) = unat (co_tickCount c) + 1"
    using assms(4) by (simp add: unat_word_ariths)
  moreover have "\<forall>m \<in> set ms. pm_Details m = None" if "(unat (co_tickCount c) + 1) mod unat (co_birdDetailEvery c) \<noteq> 0"
    using metric_details_none nodet [OF that] unfolding ms_def by blast
  ultimately show ?thesis using js st4 by (intro exI [of _ ms] exI [of _ js]) (simp add: heartbeat_def)
qed

text \<open>A stored peer whose interface has a row with counters, and a row of an interface the agent does not track.\<close>

definition demo_rows :: "dump_iface list" where
  "demo_rows = map (\<lambda>n. (n, [''k'', ''p'', ''51820'', ''off''],
     [\<lparr>dp_head = (''pub'', ''(none)''), dp_endpoint = ''[2001:db8::1]:51820'', dp_ips = ''fe80::/10'',
       dp_handshake = ''1700000000'', dp_rx = 1234, dp_tx = 5678, dp_keepalive = ''25''\<rparr>])) [''wg0'', ''dn42x'']"

definition demo_rows_env :: "mem_db env" where
  "demo_rows_env = demo_env (\<lambda>_. False) (\<lambda>_. dump_text demo_rows)"

lemma demo_rows_stats:
  "GetStats (eOs demo_rows_env) (a_host demo_stored) = (Inr (dump_stats demo_rows), tock (a_host demo_stored))"
proof -
  have "list_all dump_ok demo_rows"
    by (simp add: demo_rows_def dump_ok_def dump_peer_ok_def no_tab_def int64_range_def)
  moreover have "list_all clean_line (dump_lines demo_rows)"
    by (simp add: demo_rows_def dump_lines_def iface_line_def peer_line_def clean_line_def
        max_scan_token_def itoa_def nat_str.simps digit_char_def char_of_def)
  ultimately have "parse_stats (dump_text demo_rows) = dump_stats demo_rows" by (rule parse_dump_text)
  then show ?thesis
    by (simp add: demo_rows_env_def GetStats_def run_cmd_def sim_os_def sim_exec_def cmd_result_def)
qed

lemma demo_rows_tracked:
  "filter (\<lambda>s. tracked_iface demo_rows_env demo_stored (is_Name s)) (dump_stats demo_rows) =
     [\<lparr>is_Name = ''dn42x'', is_RxBytes = 1234, is_TxBytes = 5678, is_LastHandshake = ''1700000000'',
       is_ActualEndpoint = ''[2001:db8::1]:51820''\<rparr>]"
proof -
  have "peer_of (eBolt demo_rows_env) (a_db demo_stored) k = (if k = ''p1'' then Some demo_info else None)" for k
    by (simp add: demo_rows_env_def demo_stored_def peer_of_def mem_bolt_def peer_record.dec_enc demo_info_ok)
  moreover have "peer_iface demo_info = ''dn42x''" by (simp add: peer_iface_def iface_of_def demo_info_def)
  ultimately have "tracked_iface demo_rows_env demo_stored n \<longleftrightarrow> n = ''dn42x''" for n
    by (auto simp: tracked_iface_def)
  then show ?thesis by (simp add: dump_stats_def demo_rows_def)
qed

lemma heartbeat_reports_tracked_witness:
  "\<exists>c' st' m j. collect demo_rows_env \<lparr>rt_HeapAlloc = 0, rt_Sys = 0, rt_NumGoroutine = 9, rt_Uptime = 1\<rparr>
       id (NewCollector 60 2) demo_stored = (c', st') \<and>
     pm_WgInterface m = ''dn42x'' \<and> pm_RxBytes m = 1234 \<and> pm_TxBytes m = 5678 \<and> metrics_json [m] = Some [j] \<and>
     a_ws st' = snd (Send toy_prims (heartbeat [] \<lparr>nm_MemAllocMB = 0, nm_MemSysMB = 0, nm_NumGoroutine = 9, nm_UptimeSecs = 1\<rparr> [j])
       (a_ws demo_stored))"
proof -
  let ?R = "\<lparr>rt_HeapAlloc = 0, rt_Sys = 0, rt_NumGoroutine = 9, rt_Uptime = 1\<rparr>"
  obtain c' st' where run: "collect demo_rows_env ?R id (NewCollector 60 2) demo_stored = (c', st')" by fastforce
  have "bolt_laws (eBolt demo_rows_env)" "bBegin (eBolt demo_rows_env) (a_db demo_stored) False = None"
    using mem_bolt_laws by (simp_all add: demo_rows_env_def mem_bolt_def)
  then obtain m j where m: "reports demo_rows_env demo_stored \<lparr>is_Name = ''dn42x'', is_RxBytes = 1234, is_TxBytes = 5678,
        is_LastHandshake = ''1700000000'', is_ActualEndpoint = ''[2001:db8::1]:51820''\<rparr> m" "metrics_json [m] = Some [j]"
    "a_ws st' = snd (Send (ePrims demo_rows_env) (heartbeat (versionStr (NewCollector 60 2)) (node_metrics ?R) [j]) (a_ws demo_stored))"
    using heartbeat_reports_tracked [OF _ _ demo_rows_stats _ run] unfolding demo_rows_tracked
    by (auto simp: list_all2_Cons1 length_Suc_conv NewCollector_def simp del: metrics_json.simps)
  have "ePrims demo_rows_env = toy_prims" "versionStr (NewCollector 60 2) = []"
    "node_metrics ?R = \<lparr>nm_MemAllocMB = 0, nm_MemSysMB = 0, nm_NumGoroutine = 9, nm_UptimeSecs = 1\<rparr>"
    by (simp_all add: demo_rows_env_def NewCollector_def node_metrics_def versionStr_def)
  moreover have "pm_WgInterface m = ''dn42x''" "pm_RxBytes m = 1234" "pm_TxBytes m = 5678"
    using m(1) by (simp_all add: reports_def)
  ultimately show ?thesis using run m(2,3) by metis
qed

end
