(* ===== verification/Go_Base64.thy ===== *)
theory Go_Base64
  imports Go_Json
begin

text \<open>
  Package \<open>encoding/base64\<close> as \<open>encoding/json\<close> uses it for byte slices: the standard alphabet with
  padding. Decoding skips line breaks and does not check the bits that padding leaves over.
\<close>

definition b64_alphabet :: string where
  "b64_alphabet = ''ABCDEFGHIJKLMNOPQRSTUVWXYZabcdefghijklmnopqrstuvwxyz0123456789+/''"

definition b64_char :: "nat \<Rightarrow> char" where
  "b64_char n = b64_alphabet ! n"

definition b64_val :: "char \<Rightarrow> nat option" where
  "b64_val c =
     (let b = byte_of c in
      if 65 \<le> b \<and> b \<le> 90 then Some (b - 65)
      else if 97 \<le> b \<and> b \<le> 122 then Some (b - 71)
      else if 48 \<le> b \<and> b \<le> 57 then Some (b + 4)
      else if b = 43 then Some 62
      else if b = 47 then Some 63
      else None)"

fun b64_encode :: "string \<Rightarrow> string" where
  "b64_encode [] = []"
| "b64_encode [a] =
     [b64_char (byte_of a div 4), b64_char (byte_of a mod 4 * 16), CHR ''='', CHR ''='']"
| "b64_encode [a, b] =
     [b64_char (byte_of a div 4), b64_char (byte_of a mod 4 * 16 + byte_of b div 16),
      b64_char (byte_of b mod 16 * 4), CHR ''='']"
| "b64_encode (a # b # c # s) =
     b64_char (byte_of a div 4) # b64_char (byte_of a mod 4 * 16 + byte_of b div 16) #
     b64_char (byte_of b mod 16 * 4 + byte_of c div 64) # b64_char (byte_of c mod 64) # b64_encode s"

fun b64_quanta :: "string \<Rightarrow> string option" where
  "b64_quanta [] = Some []"
| "b64_quanta (a # b # c # d # s) =
     (case (b64_val a, b64_val b) of
        (Some va, Some vb) \<Rightarrow>
          (if c = CHR ''='' then
             (if d = CHR ''='' \<and> s = [] then Some [char_of (va * 4 + vb div 16)] else None)
           else
             case b64_val c of
               None \<Rightarrow> None
             | Some vc \<Rightarrow>
                 (if d = CHR ''='' then
                    (if s = [] then Some [char_of (va * 4 + vb div 16), char_of (vb mod 16 * 16 + vc div 4)]
                     else None)
                  else
                    case b64_val d of
                      None \<Rightarrow> None
                    | Some vd \<Rightarrow>
                        map_option (\<lambda>t. char_of (va * 4 + vb div 16) # char_of (vb mod 16 * 16 + vc div 4) #
                          char_of (vc mod 4 * 64 + vd) # t) (b64_quanta s)))
      | _ \<Rightarrow> None)"
| "b64_quanta _ = None"

definition b64_decode :: "string \<Rightarrow> string option" where
  "b64_decode s = b64_quanta (filter (\<lambda>c. c \<noteq> lf \<and> c \<noteq> cr) s)"

text \<open>\<open>json.Unmarshal\<close> into a byte slice: \<open>null\<close> gives the nil slice.\<close>

fun dec_bytes :: "string \<Rightarrow> json \<Rightarrow> string option" where
  "dec_bytes old JNull = Some []"
| "dec_bytes old (JStr s) = b64_decode s"
| "dec_bytes old _ = None"

section \<open>Decoding undoes encoding\<close>

lemma b64_char_props:
  assumes "n < 64"
  shows "b64_val (b64_char n) = Some n" "b64_char n \<noteq> CHR ''=''" "b64_char n \<noteq> lf" "b64_char n \<noteq> cr"
    "byte_of (b64_char n) < (128 :: nat)"
proof -
  have len: "length b64_alphabet = 64" by (simp add: b64_alphabet_def)
  have "map b64_val b64_alphabet = map Some [0..<64]"
    by (simp add: b64_alphabet_def b64_val_def upt_rec [of _ 64])
  then have "map b64_val b64_alphabet ! n = map Some [0..<64] ! n" by simp
  then show "b64_val (b64_char n) = Some n" using assms len by (simp add: b64_char_def)
  have "\<forall>c \<in> set b64_alphabet. c \<noteq> CHR ''='' \<and> c \<noteq> lf \<and> c \<noteq> cr \<and> byte_of c < (128 :: nat)"
    by (simp add: b64_alphabet_def)
  moreover have "b64_char n \<in> set b64_alphabet" using assms len by (simp add: b64_char_def)
  ultimately show "b64_char n \<noteq> CHR ''=''" "b64_char n \<noteq> lf" "b64_char n \<noteq> cr"
    "byte_of (b64_char n) < (128 :: nat)"
    by blast+
qed

lemma byte_bound: "byte_of c < (256 :: nat)"
  using of_char_mod_256 [where ?'a = nat, of c] by (metis mod_less_divisor zero_less_numeral)

lemma byte_digits:
  fixes c :: char
  shows "byte_of c div 4 < (64 :: nat)" "byte_of c div 16 < (16 :: nat)" "byte_of c div 64 < (4 :: nat)"
    "byte_of c mod 4 < (4 :: nat)" "byte_of c mod 16 < (16 :: nat)" "byte_of c mod 64 < (64 :: nat)"
  using byte_bound [of c] by (simp_all add: less_mult_imp_div_less)

lemma b64_bounds:
  "byte_of a div 4 < (64 :: nat)" "byte_of a mod 4 * 16 + byte_of b div 16 < (64 :: nat)"
  "byte_of b mod 16 * 4 + byte_of c div 64 < (64 :: nat)" "byte_of c mod 64 < (64 :: nat)"
  "byte_of a mod 4 * 16 < (64 :: nat)" "byte_of b mod 16 * 4 < (64 :: nat)"
  using byte_digits [of a] byte_digits [of b] byte_digits [of c] by linarith+

text \<open>The digits of two neighbours put together and taken apart again.\<close>

lemma digits_apart:
  fixes q r :: nat
  shows "r < 16 \<Longrightarrow> (q * 16 + r) div 16 = q" "r < 16 \<Longrightarrow> (q * 16 + r) mod 16 = r"
    "r < 4 \<Longrightarrow> (q * 4 + r) div 4 = q" "r < 4 \<Longrightarrow> (q * 4 + r) mod 4 = r"
  by simp_all

lemma b64_quanta_encode: "b64_quanta (b64_encode s) = Some s"
proof (induction s rule: b64_encode.induct)
  case (4 a b c s)
  then show ?case by (simp add: b64_char_props b64_bounds byte_digits digits_apart)
qed (simp_all add: b64_char_props b64_bounds byte_digits digits_apart)

definition b64_out :: "char \<Rightarrow> bool" where
  "b64_out c \<longleftrightarrow> c \<noteq> lf \<and> c \<noteq> cr \<and> byte_of c < (128 :: nat)"

lemma b64_encode_out: "\<forall>c \<in> set (b64_encode s). b64_out c"
proof -
  have "n < 64 \<Longrightarrow> b64_out (b64_char n)" for n by (simp add: b64_out_def b64_char_props)
  moreover have "b64_out CHR ''=''" by (simp add: b64_out_def)
  ultimately show ?thesis by (induction s rule: b64_encode.induct) (simp_all add: b64_bounds)
qed

lemma b64_no_breaks: "filter (\<lambda>c. c \<noteq> lf \<and> c \<noteq> cr) (b64_encode s) = b64_encode s"
  using b64_encode_out [of s] by (simp add: filter_id_conv b64_out_def)

interpretation base64: codec b64_encode b64_decode "\<lambda>s. True"
  by unfold_locales (simp add: b64_decode_def b64_no_breaks b64_quanta_encode)

lemma b64_ascii: "utf8_valid (b64_encode s)"
  using b64_encode_out [of s] by (intro utf8_valid_ascii) (simp add: b64_out_def)

end
