(* ===== verification/Key_Exchange.thy ===== *)
theory Key_Exchange
  imports Agent Go_Base64
begin

text \<open>
  The key exchange of \<open>src/internal/handler/handler.go\<close>: \<open>MakeKeyExchangeHandler\<close> with \<open>doKeyInit\<close> and
  \<open>doKeyAuth\<close>, the handlers of the two acknowledgements, and the evaluation of what the center sent.
  The handler runs beside the reader of messages and waits on a channel that the reader fills, so
  it is split where it waits: a first part that sends the request, and a second that takes either a message from the
  channel or the timeout of 15 seconds.
\<close>

section \<open>Sending the request\<close>

text \<open>What the handler waits for: nothing, \<open>key.init_ack\<close>, or \<open>key.auth_ack\<close> with the nonce it sent.\<close>

datatype key_wait = NoExchange | WaitInit | WaitAuth bytes

definition GetServerPubKeyCached :: "'db env \<Rightarrow> 'db agent \<Rightarrow> string" where
  "GetServerPubKeyCached E st =
     (case GetServerPubKey (eBolt E) (a_db st) of Inl _ \<Rightarrow> [] | Inr pub \<Rightarrow> pub)"

definition key_request :: "string \<Rightarrow> json \<Rightarrow> Message" where
  "key_request ty j = \<lparr>m_Type = ty, m_ID = [], m_Payload = Some j, m_Success = None, m_Error = []\<rparr>"

definition init_payload :: "KeyPair \<Rightarrow> json" where
  "init_payload kp = JObj [(''pubkey'', JStr (PubKeyHex (kp_Public kp)))]"

definition auth_payload :: "string \<Rightarrow> KeyPair \<Rightarrow> bytes \<Rightarrow> bytes \<Rightarrow> json" where
  "auth_payload nodeID kp nonce proof =
     JObj [(''node_id'', JStr nodeID), (''nonce'', JStr (b64_encode nonce)),
       (''proof'', JStr (b64_encode proof)), (''pubkey'', JStr (PubKeyHex (kp_Public kp)))]"

definition doKeyInit :: "'db env \<Rightarrow> KeyPair \<Rightarrow> 'db agent \<Rightarrow> key_wait res \<times> 'db agent" where
  "doKeyInit E kp st =
     (case on_ws (Send (ePrims E) (key_request ''key.init'' (init_payload kp))) st of
        (Inl e, st) \<Rightarrow> (Inl (''send key.init: '' @ e), st)
      | (Inr _, st) \<Rightarrow> (Inr WaitInit, st))"

text \<open>The nonce is drawn from the random source of the process, whose position the client keeps.\<close>

definition draw_nonce :: "'db env \<Rightarrow> 'db agent \<Rightarrow> bytes res \<times> 'db agent" where
  "draw_nonce E st =
     (NewNonce (ePrims E) (c_rng (a_ws st)), st\<lparr>a_ws := (a_ws st)\<lparr>c_rng := Suc (c_rng (a_ws st))\<rparr>\<rparr>)"

definition doKeyAuth :: "'db env \<Rightarrow> KeyPair \<Rightarrow> 'db agent \<Rightarrow> key_wait res \<times> 'db agent" where
  "doKeyAuth E kp st =
     (case draw_nonce E st of
        (Inl e, st) \<Rightarrow> (Inl (''generate nonce: '' @ e), st)
      | (Inr nonce, st) \<Rightarrow>
          (case PublicKeyFromHex (GetServerPubKeyCached E st) of
             Inl e \<Rightarrow> (Inl (''parse server pubkey: '' @ e), st)
           | Inr serverPub \<Rightarrow>
               (case DeriveSharedSecret (ePrims E) (kp_Private kp) serverPub of
                  Inl e \<Rightarrow> (Inl (''ECDH: '' @ e), st)
                | Inr shared \<Rightarrow>
                    (case on_ws (Send (ePrims E) (key_request ''key.auth''
                            (auth_payload (c_nodeID (a_ws st)) kp nonce
                              (ComputeAuthProof (ePrims E) shared nonce)))) st of
                       (Inl e, st) \<Rightarrow> (Inl (''send key.auth: '' @ e), st)
                     | (Inr _, st) \<Rightarrow> (Inr (WaitAuth nonce), st)))))"

definition MakeKeyExchangeHandler :: "'db env \<Rightarrow> 'db agent \<Rightarrow> key_wait res \<times> 'db agent" where
  "MakeKeyExchangeHandler E st =
     (case eKey E of
        None \<Rightarrow> (Inr NoExchange, st)
      | Some kp \<Rightarrow>
          (let st = st\<lparr>a_pending := Some []\<rparr> in
           if HasServerPubKey (a_ws st) then doKeyAuth E kp st else doKeyInit E kp st))"

section \<open>The acknowledgements\<close>

text \<open>
  A send on the channel of capacity one: it blocks the reader when a message already waits in it.
\<close>

definition pass_on :: "Message \<Rightarrow> 'db agent \<Rightarrow> 'db agent" where
  "pass_on msg st =
     (case a_pending st of
        None \<Rightarrow> st
      | Some [] \<Rightarrow> st\<lparr>a_pending := Some [msg]\<rparr>
      | Some _ \<Rightarrow> st\<lparr>a_blocked := True\<rparr>)"

definition handleKeyInitAck :: "Message \<Rightarrow> 'db agent \<Rightarrow> 'db agent" where
  "handleKeyInitAck msg st = pass_on msg st"

definition handleKeyAuthAck :: "Message \<Rightarrow> 'db agent \<Rightarrow> 'db agent" where
  "handleKeyAuthAck msg st = pass_on msg st"

record init_ack =
  ia_Pubkey :: string
  ia_Nonce :: bytes

definition init_ack_dec :: "json \<Rightarrow> init_ack option" where
  "init_ack_dec j =
     Option.bind (members j) (\<lambda>ms.
     Option.bind (get_field dec_string [] ''pubkey'' ms) (\<lambda>pub.
     Option.bind (get_field dec_bytes [] ''nonce'' ms) (\<lambda>n.
       Some \<lparr>ia_Pubkey = pub, ia_Nonce = n\<rparr>)))"

record auth_ack =
  aa_Pubkey :: string
  aa_AuthNonce :: bytes
  aa_CenterNonce :: bytes

definition auth_ack_dec :: "json \<Rightarrow> auth_ack option" where
  "auth_ack_dec j =
     Option.bind (members j) (\<lambda>ms.
     Option.bind (get_field dec_string [] ''pubkey'' ms) (\<lambda>pub.
     Option.bind (get_field dec_bytes [] ''auth_nonce'' ms) (\<lambda>a.
     Option.bind (get_field dec_bytes [] ''center_nonce'' ms) (\<lambda>c.
       Some \<lparr>aa_Pubkey = pub, aa_AuthNonce = a, aa_CenterNonce = c\<rparr>))))"

definition handleKeyInitAckPayload :: "'db env \<Rightarrow> KeyPair \<Rightarrow> Message \<Rightarrow> 'db agent \<Rightarrow> unit res \<times> 'db agent" where
  "handleKeyInitAckPayload E kp msg st =
     (if m_Error msg \<noteq> [] then (Inl (''key.init rejected by center: '' @ m_Error msg), st)
      else
        case unmarshal init_ack_dec (m_Payload msg) of
          None \<Rightarrow> (Inl (''parse key.init_ack: '' @ eJsonErr E ''init_ack'' (m_Payload msg)), st)
        | Some p \<Rightarrow>
            if ia_Pubkey p = [] then (Inl ''key.init_ack missing pubkey'', st)
            else
              (case PublicKeyFromHex (ia_Pubkey p) of
                 Inl e \<Rightarrow> (Inl (''invalid server pubkey: '' @ e), st)
               | Inr serverPub \<Rightarrow>
                   (case DeriveSharedSecret (ePrims E) (kp_Private kp) serverPub of
                      Inl e \<Rightarrow> (Inl (''ECDH: '' @ e), st)
                    | Inr shared \<Rightarrow>
                        (case DeriveEncKey (ePrims E) shared (ia_Nonce p) of
                           Inl e \<Rightarrow> (Inl (''derive enc key: '' @ e), st)
                         | Inr encKey \<Rightarrow>
                             (let st = snd (on_db (PutServerPubKey (eBolt E) (ia_Pubkey p)) st)
                              in (Inr (), st\<lparr>a_ws := EnableEncryption (ePrims E) encKey
                                    (SetServerPubKey (Some (ia_Pubkey p)) (a_ws st))\<rparr>))))))"

definition handleKeyAuthAckPayload ::
    "'db env \<Rightarrow> KeyPair \<Rightarrow> Message \<Rightarrow> bytes \<Rightarrow> 'db agent \<Rightarrow> unit res \<times> 'db agent" where
  "handleKeyAuthAckPayload E kp msg authNonce st =
     (case unmarshal auth_ack_dec (m_Payload msg) of
        None \<Rightarrow> (Inl (''parse key.auth_ack: '' @ eJsonErr E ''auth_ack'' (m_Payload msg)), st)
      | Some p \<Rightarrow>
          if aa_Pubkey p = [] then (Inl ''key.auth_ack missing pubkey'', st)
          else
            (case PublicKeyFromHex (aa_Pubkey p) of
               Inl e \<Rightarrow> (Inl (''invalid ephemeral pubkey: '' @ e), st)
             | Inr ephemeralPub \<Rightarrow>
                 (case DeriveSharedSecret (ePrims E) (kp_Private kp) ephemeralPub of
                    Inl e \<Rightarrow> (Inl (''session ECDH: '' @ e), st)
                  | Inr sessionShared \<Rightarrow>
                      (case DeriveEncKey (ePrims E) sessionShared (authNonce @ aa_CenterNonce p) of
                         Inl e \<Rightarrow> (Inl (''derive session key: '' @ e), st)
                       | Inr sessionKey \<Rightarrow>
                           (Inr (), st\<lparr>a_ws := EnableEncryption (ePrims E) sessionKey (a_ws st)\<rparr>)))))"

text \<open>
  The end of the wait: \<open>Some msg\<close> is a message taken from the channel, \<open>None\<close> the timeout.
\<close>

definition key_exchange_ends ::
    "'db env \<Rightarrow> KeyPair \<Rightarrow> key_wait \<Rightarrow> Message option \<Rightarrow> 'db agent \<Rightarrow> unit res \<times> 'db agent" where
  "key_exchange_ends E kp w ev st =
     (case (w, ev) of
        (NoExchange, _) \<Rightarrow> (Inr (), st)
      | (WaitInit, None) \<Rightarrow> (Inl ''timeout waiting for key.init_ack'', st)
      | (WaitAuth _, None) \<Rightarrow> (Inl ''timeout waiting for key.auth_ack'', st)
      | (WaitInit, Some msg) \<Rightarrow> handleKeyInitAckPayload E kp msg (st\<lparr>a_pending := Some []\<rparr>)
      | (WaitAuth nonce, Some msg) \<Rightarrow>
          handleKeyAuthAckPayload E kp msg nonce (st\<lparr>a_pending := Some []\<rparr>))"


text \<open>
  The answer to \<open>key.auth\<close> is used for its public key and nonce alone: neither the error in it nor the nonce of the
  agent that it returns makes a difference.
\<close>

lemma auth_ack_unchecked:
  assumes "unmarshal auth_ack_dec (m_Payload msg) = Some p"
    and "unmarshal auth_ack_dec (m_Payload msg') = Some (p\<lparr>aa_AuthNonce := n\<rparr>)"
  shows "handleKeyAuthAckPayload E kp msg' nonce st = handleKeyAuthAckPayload E kp msg nonce st"
  using assms by (simp add: handleKeyAuthAckPayload_def split: sum.split)

section \<open>All or nothing\<close>

text \<open>
  What the agent relies on of the primitives: HKDF gives as many bytes as asked for, and
  XChaCha20-Poly1305 takes every key of 32 bytes.
\<close>

definition key_laws :: "prims \<Rightarrow> bool" where
  "key_laws P \<longleftrightarrow>
     (\<forall>s n i l k. hkdf P s n i l = Inr k \<longrightarrow> length k = l) \<and>
     (\<forall>k. length k = 32 \<longrightarrow> (\<exists>a. NewX P k = Inr a))"

lemma enc_key_accepted:
  assumes "key_laws P" "DeriveEncKey P s n = Inr k"
  obtains a where "NewX P k = Inr a"
proof -
  have "length k = 32" using assms by (auto simp: key_laws_def DeriveEncKey_def split: sum.splits)
  then show thesis using assms(1) that unfolding key_laws_def by blast
qed

lemma EnableEncryption_secure:
  "NewX P k = Inr a \<Longrightarrow> secure (EnableEncryption P k c) \<and> c_aead (EnableEncryption P k c) = Some a"
  by (simp add: EnableEncryption_def NewAEAD_def secure_def)

text \<open>
  The key the two nonces and keys determine, written out over the primitives. Of an accepted answer
  only a public key and a nonce matter: the center's nonce after \<open>key.init\<close>, the agent's own nonce
  followed by the center's after \<open>key.auth\<close>. The AEAD \<open>a\<close> is the one whose key HKDF gives for the shared
  secret of the agent's private key and that public key, with that nonce as the salt.
\<close>

definition ack_values :: "key_wait \<Rightarrow> Message \<Rightarrow> (string \<times> bytes) option" where
  "ack_values w msg =
     (case w of
        NoExchange \<Rightarrow> None
      | WaitInit \<Rightarrow>
          if m_Error msg \<noteq> [] then None
          else map_option (\<lambda>p. (ia_Pubkey p, ia_Nonce p)) (unmarshal init_ack_dec (m_Payload msg))
      | WaitAuth nonce \<Rightarrow>
          map_option (\<lambda>p. (aa_Pubkey p, nonce @ aa_CenterNonce p)) (unmarshal auth_ack_dec (m_Payload msg)))"

definition derived_key :: "prims \<Rightarrow> KeyPair \<Rightarrow> key_wait \<Rightarrow> Message \<Rightarrow> string \<Rightarrow> bytes \<Rightarrow> bool" where
  "derived_key P kp w msg pub a \<longleftrightarrow>
     (\<exists>n q s k. ack_values w msg = Some (pub, n) \<and> hex_decode pub = Inr q \<and> length q = 32 \<and>
        s = x25519 P (kp_Private kp) q \<and> (\<exists>c \<in> set s. byte_of c \<noteq> (0 :: nat)) \<and>
        hkdf P s n ''autopeer-encryption-key'' 32 = Inr k \<and> NewX P k = Inr a)"

lemma derived_key_steps:
  "derived_key P kp w msg pub a \<longleftrightarrow>
     (\<exists>n q s k. ack_values w msg = Some (pub, n) \<and> PublicKeyFromHex pub = Inr q \<and>
        DeriveSharedSecret P (kp_Private kp) q = Inr s \<and> DeriveEncKey P s n = Inr k \<and> NewX P k = Inr a)"
  by (fastforce simp: derived_key_def PublicKeyFromHex_def DeriveSharedSecret_def DeriveEncKey_def Let_def
      split: option.splits if_splits sum.splits)

lemma no_blank_pubkey: "PublicKeyFromHex [] \<noteq> Inr q"
  by (simp add: PublicKeyFromHex_def)

text \<open>Each acknowledgement either ends in its key or leaves everything as it was.\<close>

definition keyed :: "bytes \<Rightarrow> Client \<Rightarrow> Client" where
  "keyed a c = c\<lparr>c_aead := Some a, c_encrypted := True\<rparr>"

lemma EnableEncryption_keyed: "NewX P k = Inr a \<Longrightarrow> EnableEncryption P k c = keyed a c"
  by (simp add: EnableEncryption_def NewAEAD_def keyed_def)

lemma keyed_sel [simp]: "secure (keyed a c)" "c_aead (keyed a c) = Some a" "c_serverPub (keyed a c) = c_serverPub c"
  by (simp_all add: keyed_def secure_def)

lemma init_ack_result:
  assumes "key_laws (ePrims E)" "handleKeyInitAckPayload E kp msg st = (r, st')"
  shows "case r of
      Inl _ \<Rightarrow> st' = st \<and> (\<forall>pub a. \<not> derived_key (ePrims E) kp WaitInit msg pub a)
    | Inr _ \<Rightarrow> \<exists>pub a. derived_key (ePrims E) kp WaitInit msg pub a \<and>
        st' = st\<lparr>a_db := snd (PutServerPubKey (eBolt E) pub (a_db st)),
          a_ws := keyed a ((a_ws st)\<lparr>c_serverPub := pub\<rparr>)\<rparr>"
proof (cases r)
  case (Inl e)
  with assms(2) show ?thesis
    by (auto simp: handleKeyInitAckPayload_def derived_key_steps ack_values_def no_blank_pubkey Let_def
        split: if_splits option.splits sum.splits)
next
  case (Inr u)
  with assms(2) obtain p q s k where ok: "m_Error msg = []" "unmarshal init_ack_dec (m_Payload msg) = Some p"
    "PublicKeyFromHex (ia_Pubkey p) = Inr q" "DeriveSharedSecret (ePrims E) (kp_Private kp) q = Inr s"
    "DeriveEncKey (ePrims E) s (ia_Nonce p) = Inr k"
    "st' = (let st = snd (on_db (PutServerPubKey (eBolt E) (ia_Pubkey p)) st)
            in st\<lparr>a_ws := EnableEncryption (ePrims E) k (SetServerPubKey (Some (ia_Pubkey p)) (a_ws st))\<rparr>)"
    by (auto simp: handleKeyInitAckPayload_def Let_def split: if_splits option.splits sum.splits)
  obtain a where a: "NewX (ePrims E) k = Inr a" using assms(1) ok(5) by (rule enc_key_accepted)
  have "derived_key (ePrims E) kp WaitInit msg (ia_Pubkey p) a"
    using ok(1-5) a by (auto simp: derived_key_steps ack_values_def)
  moreover have "st' = st\<lparr>a_db := snd (PutServerPubKey (eBolt E) (ia_Pubkey p) (a_db st)),
      a_ws := keyed a ((a_ws st)\<lparr>c_serverPub := ia_Pubkey p\<rparr>)\<rparr>"
    using ok(6) EnableEncryption_keyed [OF a] by (simp add: SetServerPubKey_def on_db_def Let_def split_beta)
  ultimately show ?thesis using Inr by auto
qed

lemma auth_ack_result:
  assumes "key_laws (ePrims E)" "handleKeyAuthAckPayload E kp msg nonce st = (r, st')"
  shows "case r of
      Inl _ \<Rightarrow> st' = st \<and> (\<forall>pub a. \<not> derived_key (ePrims E) kp (WaitAuth nonce) msg pub a)
    | Inr _ \<Rightarrow> \<exists>pub a. derived_key (ePrims E) kp (WaitAuth nonce) msg pub a \<and> st' = st\<lparr>a_ws := keyed a (a_ws st)\<rparr>"
proof (cases r)
  case (Inl e)
  with assms(2) show ?thesis
    by (auto simp: handleKeyAuthAckPayload_def derived_key_steps ack_values_def no_blank_pubkey
        split: if_splits option.splits sum.splits)
next
  case (Inr u)
  with assms(2) obtain p q s k where ok: "unmarshal auth_ack_dec (m_Payload msg) = Some p"
    "PublicKeyFromHex (aa_Pubkey p) = Inr q" "DeriveSharedSecret (ePrims E) (kp_Private kp) q = Inr s"
    "DeriveEncKey (ePrims E) s (nonce @ aa_CenterNonce p) = Inr k"
    "st' = st\<lparr>a_ws := EnableEncryption (ePrims E) k (a_ws st)\<rparr>"
    by (auto simp: handleKeyAuthAckPayload_def split: if_splits option.splits sum.splits)
  obtain a where a: "NewX (ePrims E) k = Inr a" using assms(1) ok(4) by (rule enc_key_accepted)
  have "derived_key (ePrims E) kp (WaitAuth nonce) msg (aa_Pubkey p) a"
    using ok(1-4) a by (auto simp: derived_key_steps ack_values_def)
  with ok(5) Inr EnableEncryption_keyed [OF a] show ?thesis by auto
qed

text \<open>
  C13: the key exchange is all or nothing. It ends without error exactly when the center answered
  with values that determine a key: then encryption is on under the key HKDF gives for the X25519
  secret of the agent's private key and the answer's public key, with the nonces as the salt, the host is
  untouched, and after \<open>key.init\<close> (and only then) the center's public key is remembered by the client and put
  into the database. When it ends with an error (a refusal, a malformed or missing answer, a bad key, the timeout), the
  connection, the database and the host are as they were, so nothing is sent under a half-made key.
\<close>

theorem key_exchange_all_or_nothing:
  assumes "key_laws (ePrims E)" "w \<noteq> NoExchange" "key_exchange_ends E kp w ev st = (r, st')"
  shows "case r of
      Inl _ \<Rightarrow> a_ws st' = a_ws st \<and> a_db st' = a_db st \<and> a_host st' = a_host st \<and>
        (\<nexists>msg pub a. ev = Some msg \<and> derived_key (ePrims E) kp w msg pub a)
    | Inr _ \<Rightarrow> a_host st' = a_host st \<and>
        (\<exists>msg pub a. ev = Some msg \<and> derived_key (ePrims E) kp w msg pub a \<and>
           secure (a_ws st') \<and> c_aead (a_ws st') = Some a \<and>
           c_serverPub (a_ws st') = (if w = WaitInit then pub else c_serverPub (a_ws st)) \<and>
           a_db st' = (if w = WaitInit then snd (PutServerPubKey (eBolt E) pub (a_db st)) else a_db st))"
proof (cases ev)
  case None
  with assms(2,3) show ?thesis by (auto simp: key_exchange_ends_def split: key_wait.splits)
next
  case (Some msg)
  show ?thesis
  proof (cases w)
    case NoExchange
    with assms(2) show ?thesis by simp
  next
    case WaitInit
    with Some assms(3) have "handleKeyInitAckPayload E kp msg (st\<lparr>a_pending := Some []\<rparr>) = (r, st')"
      by (simp add: key_exchange_ends_def)
    from init_ack_result [OF assms(1) this] Some WaitInit show ?thesis by (cases r) auto
  next
    case (WaitAuth nonce)
    with Some assms(3) have "handleKeyAuthAckPayload E kp msg nonce (st\<lparr>a_pending := Some []\<rparr>) = (r, st')"
      by (simp add: key_exchange_ends_def)
    from auth_ack_result [OF assms(1) this] Some WaitAuth show ?thesis by (cases r) auto
  qed
qed


section \<open>Agreement with the center\<close>

text \<open>
  What the center does with the same primitives: it has a private key \<open>b\<close>, answers with its public
  key and a nonce, and derives the key of the session from the agent's public key.
\<close>

definition agent_pair :: "prims \<Rightarrow> KeyPair \<Rightarrow> bool" where
  "agent_pair P kp \<longleftrightarrow> length (kp_Private kp) = 32 \<and> kp_Public kp = x25519_base P (kp_Private kp)"

definition center_key :: "prims \<Rightarrow> bytes \<Rightarrow> bytes \<Rightarrow> bytes \<Rightarrow> bytes \<Rightarrow> bool" where
  "center_key P b agentPub nonce a \<longleftrightarrow>
     length b = 32 \<and>
     (\<exists>s k. DeriveSharedSecret P b agentPub = Inr s \<and> DeriveEncKey P s nonce = Inr k \<and> NewAEAD P k = Inr a)"

lemma pub_hex: "dh_laws P \<Longrightarrow> length b = 32 \<Longrightarrow>
    PublicKeyFromHex (PubKeyHex (x25519_base P b)) = Inr (x25519_base P b) \<and> PubKeyHex (x25519_base P b) \<noteq> []"
proof -
  assume "dh_laws P" "length b = 32"
  then have "length (x25519_base P b) = 32" by (simp add: dh_laws_def)
  moreover from this have "hex_encode (x25519_base P b) \<noteq> []" by (cases "x25519_base P b") (auto simp: hex_encode_def)
  ultimately show ?thesis by (simp add: PublicKeyFromHex_def PubKeyHex_def hex_decode_encode)
qed

lemma shared_agrees:
  assumes "dh_laws P" "agent_pair P kp" "length b = 32"
  shows "DeriveSharedSecret P (kp_Private kp) (x25519_base P b) = DeriveSharedSecret P b (kp_Public kp)"
proof -
  have "x25519 P (kp_Private kp) (x25519_base P b) = x25519 P b (kp_Public kp)"
    using assms by (simp add: dh_laws_def agent_pair_def)
  then show ?thesis by (simp add: DeriveSharedSecret_def)
qed

lemma init_ack_reads:
  "unmarshal init_ack_dec (Some (JObj [(''pubkey'', JStr pub), (''nonce'', JStr (b64_encode n))])) =
     Some \<lparr>ia_Pubkey = pub, ia_Nonce = n\<rparr>"
  by (simp add: unmarshal_def init_ack_dec_def get_field_def jfield_def upper_char_def base64.dec_enc)

text \<open>
  C12: a first key exchange gives both sides the same key. When the center answers \<open>key.init\<close> with its
  public key and a nonce, the agent ends with encryption on under exactly the key the center
  derives from its private key, the agent's public key and that nonce, and it remembers the center's key.
\<close>

theorem key_init_agrees:
  assumes "dh_laws (ePrims E)" "agent_pair (ePrims E) kp" "center_key (ePrims E) b (kp_Public kp) n a"
    and "m_Error ack = []"
    and "m_Payload ack = Some (JObj [(''pubkey'', JStr (PubKeyHex (x25519_base (ePrims E) b))), (''nonce'', JStr (b64_encode n))])"
  shows "\<exists>st'. key_exchange_ends E kp WaitInit (Some ack) st = (Inr (), st') \<and>
    secure (a_ws st') \<and> c_aead (a_ws st') = Some a \<and>
    c_serverPub (a_ws st') = PubKeyHex (x25519_base (ePrims E) b) \<and>
    a_db st' = snd (PutServerPubKey (eBolt E) (PubKeyHex (x25519_base (ePrims E) b)) (a_db st))"
proof -
  let ?P = "ePrims E"
  obtain s k where c: "length b = 32" "DeriveSharedSecret ?P b (kp_Public kp) = Inr s"
    "DeriveEncKey ?P s n = Inr k" "NewAEAD ?P k = Inr a"
    using assms(3) by (auto simp: center_key_def)
  have dec: "unmarshal init_ack_dec (m_Payload ack) =
      Some \<lparr>ia_Pubkey = PubKeyHex (x25519_base ?P b), ia_Nonce = n\<rparr>"
    by (simp add: assms(5) init_ack_reads)
  show ?thesis
    using c pub_hex [OF assms(1) c(1)] shared_agrees [OF assms(1,2) c(1)] dec assms(4)
    by (simp add: key_exchange_ends_def handleKeyInitAckPayload_def EnableEncryption_def SetServerPubKey_def
        secure_def Let_def)
qed


lemma hex_ascii: "utf8_valid (PubKeyHex x)"
proof (rule utf8_valid_ascii, rule ballI)
  fix c assume "c \<in> set (PubKeyHex x)"
  then obtain d where d: "c = hex_char (byte_of d div 16) \<or> c = hex_char (byte_of d mod 16)"
    by (auto simp: PubKeyHex_def hex_encode_def)
  have "byte_of (hex_char n) < (128 :: nat)" if "n < 16" for n
    using that by (auto simp: hex_char_def)
  with d byte_bound [of d] show "byte_of c < (128 :: nat)" by (auto simp: less_mult_imp_div_less)
qed

lemma auth_request_ok:
  "utf8_valid nodeID \<Longrightarrow> message_ok (key_request ''key.auth'' (auth_payload nodeID kp nonce proof))"
  by (simp add: message_ok_def key_request_def auth_payload_def b64_ascii hex_ascii)

text \<open>
  C11: a later key exchange authenticates the agent and gives both sides the same new key. The
  agent sends one plain frame with a proof that is exactly what the center computes from its static private
  key, the agent's public key and the nonce; and when the center answers with an ephemeral public key and
  its own nonce, the agent ends with encryption on under the key the center derives from its ephemeral
  private key and the two nonces. The answer's own copy of the agent's nonce and its error field are not
  looked at.
\<close>

theorem key_auth_agrees:
  assumes "dh_laws (ePrims E)" "agent_pair (ePrims E) kp" "eKey E = Some kp"
    and "HasServerPubKey (a_ws st)" "GetServerPubKeyCached E st = PubKeyHex (x25519_base (ePrims E) sb)"
    and "length sb = 32" "DeriveSharedSecret (ePrims E) sb (kp_Public kp) = Inr s0"
    and "NewNonce (ePrims E) (c_rng (a_ws st)) = Inr nonce"
    and "c_conn (a_ws st) \<noteq> None" "\<not> secure (a_ws st)" "length (c_sendCh (a_ws st)) < send_capacity"
    and "utf8_valid (c_nodeID (a_ws st))"
    and "center_key (ePrims E) eb (kp_Public kp) (nonce @ cn) a"
    and "m_Payload ack = Some (JObj [(''pubkey'', JStr (PubKeyHex (x25519_base (ePrims E) eb))),
           (''auth_nonce'', JStr (b64_encode an)), (''center_nonce'', JStr (b64_encode cn))])"
  shows "\<exists>st1 it st2. MakeKeyExchangeHandler E st = (Inr (WaitAuth nonce), st1) \<and>
    c_sendCh (a_ws st1) = c_sendCh (a_ws st) @ [it] \<and> \<not> si_binary it \<and>
    message_unmarshal (si_data it) = Some (key_request ''key.auth''
      (auth_payload (c_nodeID (a_ws st)) kp nonce (ComputeAuthProof (ePrims E) s0 nonce))) \<and>
    key_exchange_ends E kp (WaitAuth nonce) (Some ack) st1 = (Inr (), st2) \<and>
    secure (a_ws st2) \<and> c_aead (a_ws st2) = Some a"
proof -
  let ?P = "ePrims E" and ?c = "(a_ws st)\<lparr>c_rng := Suc (c_rng (a_ws st))\<rparr>"
  let ?m = "key_request ''key.auth'' (auth_payload (c_nodeID (a_ws st)) kp nonce (ComputeAuthProof ?P s0 nonce))"
  let ?it = "\<lparr>si_binary = False, si_data = message_marshal ?m\<rparr>"
  have static: "DeriveSharedSecret ?P (kp_Private kp) (x25519_base ?P sb) = Inr s0"
    using shared_agrees [OF assms(1,2,6)] assms(7) by simp
  have plain: "\<not> secure ?c" using assms(10) by (simp add: secure_def)
  obtain c1 where send: "Send ?P ?m ?c = (Inr (), c1)" "c_sendCh c1 = c_sendCh (a_ws st) @ [?it]"
    using assms(9,11) wire_item_cases(1) [OF plain] by (auto simp: Send_def prepare_def enqueue_def)
  define st1 where "st1 = st\<lparr>a_pending := Some [], a_ws := c1\<rparr>"
  have cached: "GetServerPubKeyCached E (st\<lparr>a_pending := q, a_ws := x\<rparr>) = GetServerPubKeyCached E st" for q x
    by (simp add: GetServerPubKeyCached_def)
  have start: "MakeKeyExchangeHandler E st = (Inr (WaitAuth nonce), st1)"
    using assms(3,4,5,8) send(1) static pub_hex [OF assms(1,6)] cached
    by (simp add: MakeKeyExchangeHandler_def doKeyAuth_def draw_nonce_def on_ws_def st1_def Let_def)
  have "message_unmarshal (si_data ?it) = Some ?m"
    using message_text.dec_enc [OF auth_request_ok [OF assms(12)]] by simp
  moreover obtain s k where c: "length eb = 32" "DeriveSharedSecret ?P eb (kp_Public kp) = Inr s"
    "DeriveEncKey ?P s (nonce @ cn) = Inr k" "NewAEAD ?P k = Inr a"
    using assms(13) by (auto simp: center_key_def)
  have dec: "unmarshal auth_ack_dec (m_Payload ack) =
      Some \<lparr>aa_Pubkey = PubKeyHex (x25519_base ?P eb), aa_AuthNonce = an, aa_CenterNonce = cn\<rparr>"
    by (simp add: assms(14) unmarshal_def auth_ack_dec_def get_field_def jfield_def upper_char_def base64.dec_enc)
  have "\<exists>st2. key_exchange_ends E kp (WaitAuth nonce) (Some ack) st1 = (Inr (), st2) \<and>
      secure (a_ws st2) \<and> c_aead (a_ws st2) = Some a"
    using c pub_hex [OF assms(1) c(1)] shared_agrees [OF assms(1,2) c(1)] dec
    by (simp add: key_exchange_ends_def handleKeyAuthAckPayload_def EnableEncryption_def secure_def)
  ultimately show ?thesis using start send(2) by (auto simp: st1_def)
qed

text \<open>A pair of keys for each side over the simple primitives.\<close>

definition demo_pair :: KeyPair where
  "demo_pair = \<lparr>kp_Private = replicate 32 CHR ''a'', kp_Public = replicate 32 CHR ''a''\<rparr>"

abbreviation demo_center :: bytes where
  "demo_center \<equiv> replicate 32 CHR ''b''"

lemma demo_pair_ok: "agent_pair toy_prims demo_pair"
  by (simp add: agent_pair_def demo_pair_def toy_prims_def)

lemma toy_key_laws: "key_laws toy_prims"
  by (auto simp: key_laws_def toy_prims_def)

lemma toy_shared: "\<exists>s. DeriveSharedSecret toy_prims demo_center (kp_Public demo_pair) = Inr s"
proof -
  have "toy_xor demo_center (replicate 32 CHR ''a'') = replicate 32 (char_of ((98 + 97) mod 256 :: nat))"
    by (simp add: toy_xor_def zip_replicate)
  moreover have "\<exists>c \<in> set (replicate 32 (char_of ((98 + 97) mod 256 :: nat))). byte_of c \<noteq> (0 :: nat)" by simp
  ultimately have "\<not> (\<forall>c \<in> set (toy_xor demo_center (replicate 32 CHR ''a'')). byte_of c = (0 :: nat))" by simp
  then show ?thesis
    by (simp add: DeriveSharedSecret_def Let_def demo_pair_def toy_prims_def)
qed

lemma demo_center_key: "\<exists>a. center_key toy_prims demo_center (kp_Public demo_pair) n a"
  using toy_shared
  by (auto simp: center_key_def DeriveEncKey_def NewAEAD_def) (auto simp: toy_prims_def)

definition demo_init_ack :: Message where
  "demo_init_ack = \<lparr>m_Type = ''key.init_ack'', m_ID = [],
     m_Payload = Some (JObj [(''pubkey'', JStr (PubKeyHex demo_center)), (''nonce'', JStr (b64_encode ''n''))]),
     m_Success = None, m_Error = []\<rparr>"

lemma key_init_agrees_witness:
  "\<exists>a st'. center_key toy_prims demo_center (kp_Public demo_pair) ''n'' a \<and>
     key_exchange_ends (demo_env (\<lambda>_. False) (\<lambda>_. [])) demo_pair WaitInit (Some demo_init_ack) demo_agent = (Inr (), st') \<and>
     c_aead (a_ws st') = Some a"
proof -
  let ?E = "demo_env (\<lambda>_. False) (\<lambda>_. [])"
  obtain a where a: "center_key toy_prims demo_center (kp_Public demo_pair) ''n'' a" using demo_center_key by blast
  have "x25519_base toy_prims demo_center = demo_center" by (simp add: toy_prims_def)
  then have "\<exists>st'. key_exchange_ends ?E demo_pair WaitInit (Some demo_init_ack) demo_agent = (Inr (), st') \<and>
      c_aead (a_ws st') = Some a"
    using key_init_agrees [where E = ?E and kp = demo_pair and b = demo_center and n = "''n''" and a = a
        and ack = demo_init_ack and st = demo_agent] a toy_dh_laws demo_pair_ok
    by (auto simp: demo_init_ack_def)
  with a show ?thesis by blast
qed

lemma demo_init_ends:
  "\<exists>st'. key_exchange_ends (demo_env (\<lambda>_. False) (\<lambda>_. [])) demo_pair WaitInit (Some demo_init_ack) demo_agent = (Inr (), st')"
proof -
  have hex: "PublicKeyFromHex (PubKeyHex demo_center) = Inr demo_center" "PubKeyHex demo_center \<noteq> []"
    using pub_hex [OF toy_dh_laws, of demo_center] by (simp_all add: toy_prims_def)
  have dec: "unmarshal init_ack_dec (m_Payload demo_init_ack) = Some \<lparr>ia_Pubkey = PubKeyHex demo_center, ia_Nonce = ''n''\<rparr>"
    unfolding demo_init_ack_def by (simp only: Message.simps init_ack_reads)
  obtain s where s: "DeriveSharedSecret toy_prims (kp_Private demo_pair) demo_center = Inr s"
    using toy_shared shared_agrees [OF toy_dh_laws demo_pair_ok, of demo_center] by (auto simp: toy_prims_def)
  have "\<exists>k. DeriveEncKey toy_prims s ''n'' = Inr k" by (simp add: DeriveEncKey_def toy_prims_def)
  with hex dec s show ?thesis
    by (auto simp: key_exchange_ends_def handleKeyInitAckPayload_def Let_def demo_init_ack_def)
qed

lemma key_exchange_all_or_nothing_witness:
  "\<exists>st' a. key_exchange_ends (demo_env (\<lambda>_. False) (\<lambda>_. [])) demo_pair WaitInit (Some demo_init_ack) demo_agent = (Inr (), st') \<and>
     derived_key toy_prims demo_pair WaitInit demo_init_ack (c_serverPub (a_ws st')) a \<and>
     secure (a_ws st') \<and> c_aead (a_ws st') = Some a"
proof -
  let ?E = "demo_env (\<lambda>_. False) (\<lambda>_. [])"
  obtain st' where run: "key_exchange_ends ?E demo_pair WaitInit (Some demo_init_ack) demo_agent = (Inr (), st')"
    using demo_init_ends by blast
  with key_exchange_all_or_nothing [where E = ?E, OF _ _ run] toy_key_laws show ?thesis by auto
qed


definition demo_key_env :: "mem_db env" where
  "demo_key_env = (demo_env (\<lambda>_. False) (\<lambda>_. []))\<lparr>eKey := Some demo_pair\<rparr>"

definition demo_key_agent :: "mem_db agent" where
  "demo_key_agent = demo_agent\<lparr>
     a_ws := demo_client\<lparr>c_conn := Some 0, c_serverPub := PubKeyHex demo_center\<rparr>,
     a_db := [((bucketKeys, keyServerPub), PubKeyHex demo_center)]\<rparr>"

definition demo_auth_ack :: Message where
  "demo_auth_ack = \<lparr>m_Type = ''key.auth_ack'', m_ID = [],
     m_Payload = Some (JObj [(''pubkey'', JStr (PubKeyHex demo_center)), (''auth_nonce'', JStr (b64_encode ''x'')),
       (''center_nonce'', JStr (b64_encode ''c''))]),
     m_Success = None, m_Error = []\<rparr>"

lemma key_auth_agrees_witness:
  "\<exists>st1 st2 a. MakeKeyExchangeHandler demo_key_env demo_key_agent = (Inr (WaitAuth (replicate 32 (char_of (0 :: nat)))), st1) \<and>
     key_exchange_ends demo_key_env demo_pair (WaitAuth (replicate 32 (char_of (0 :: nat)))) (Some demo_auth_ack) st1 = (Inr (), st2) \<and>
     c_aead (a_ws st2) = Some a"
proof -
  let ?E = demo_key_env and ?st = demo_key_agent and ?n = "replicate 32 (char_of (0 :: nat))"
  have E: "ePrims ?E = toy_prims" "eBolt ?E = mem_bolt" "eKey ?E = Some demo_pair"
    by (simp_all add: demo_key_env_def)
  have base: "x25519_base toy_prims demo_center = demo_center" by (simp add: toy_prims_def)
  obtain a where a: "center_key toy_prims demo_center (kp_Public demo_pair) (?n @ ''c'') a" using demo_center_key by blast
  obtain s0 where s0: "DeriveSharedSecret toy_prims demo_center (kp_Public demo_pair) = Inr s0" using toy_shared by blast
  have hex: "PubKeyHex demo_center \<noteq> []" using pub_hex [OF toy_dh_laws, of demo_center] base by simp
  have "HasServerPubKey (a_ws ?st)" "c_conn (a_ws ?st) \<noteq> None" "\<not> secure (a_ws ?st)"
    "length (c_sendCh (a_ws ?st)) < send_capacity" "utf8_valid (c_nodeID (a_ws ?st))" "c_rng (a_ws ?st) = 0"
    "GetServerPubKeyCached ?E ?st = PubKeyHex demo_center"
    using hex by (simp_all add: demo_key_agent_def HasServerPubKey_def secure_def demo_client_def NewClient_def
        send_capacity_def GetServerPubKeyCached_def E GetServerPubKey_def db_view_def mem_bolt_def)
  moreover have "NewNonce toy_prims 0 = Inr ?n" by (simp add: NewNonce_def toy_prims_def)
  ultimately show ?thesis
    using key_auth_agrees [where E = ?E and st = ?st and kp = demo_pair and sb = demo_center and eb = demo_center
        and cn = "''c''" and an = "''x''" and a = a and ack = demo_auth_ack and ?s0.0 = s0 and nonce = ?n]
      E base a s0 toy_dh_laws demo_pair_ok
    by (auto simp: demo_auth_ack_def)
qed

end
