(* ===== verification/Startup.thy ===== *)
theory Startup
  imports Config Update Metrics Key_Exchange
begin

text \<open>
  \<open>src/cmd/agent/main.go\<close>: how the agent starts, with the directory of its store, its key pair and the
  composition of its parts, and how it stops. What is not under \<open>src/\<close> and needed here only is the
  record \<open>boot\<close>: the YAML decoder, \<open>bolt.Open\<close>, and the version the linker puts into the program.
\<close>

section \<open>Directories\<close>

definition defaultStateDir :: string where
  "defaultStateDir = ''/var/lib/autopeer-agent''"

text \<open>
  \<open>filepath.Rel\<close> for an absolute base: what the two paths have in common is dropped, and each
  remaining component of the base is a step up.
\<close>

fun drop_common :: "string list \<Rightarrow> string list \<Rightarrow> string list \<times> string list" where
  "drop_common (b # bs') (t # ts) = (if b = t then drop_common bs' ts else (b # bs', t # ts))"
| "drop_common bs' ts = (bs', ts)"

definition path_rel :: "string \<Rightarrow> string \<Rightarrow> string res" where
  "path_rel base targ =
     (if path_clean base = path_clean targ then Inr ''.''
      else if is_rooted base \<noteq> is_rooted targ then
        Inl (''Rel: can'' @ [CHR 0x27] @ ''t make '' @ targ @ '' relative to '' @ base)
      else
        (case drop_common (path_comps base) (path_comps targ) of
           (up, down) \<Rightarrow> Inr (join_with ''/'' (replicate (length up) ''..'' @ down))))"

definition isWithinDefaultStateDirectory :: "string \<Rightarrow> bool" where
  "isWithinDefaultStateDirectory path =
     (let root = path_clean defaultStateDir; cleanPath = path_clean path in
      cleanPath = root \<or>
      (case path_rel root cleanPath of
         Inl _ \<Rightarrow> False
       | Inr rel \<Rightarrow> rel \<noteq> ''..'' \<and> \<not> has_prefix ''../'' rel))"

definition ensurePrivateStateDirectory :: "os \<Rightarrow> string \<Rightarrow> (os_err, unit) hprog" where
  "ensurePrivateStateDirectory Os path =
     andThen (os_mkdir_all Os path) (\<lambda>_. os_chmod Os path perm_0700)"

definition ensureStoreDirectory :: "os \<Rightarrow> string \<Rightarrow> (os_err, unit) hprog" where
  "ensureStoreDirectory Os storePath h =
     (let storeDir = path_dir storePath in
      if storeDir = ''.'' then (Inr (), h)
      else if isWithinDefaultStateDirectory storeDir then ensurePrivateStateDirectory Os storeDir h
      else
        (case os_stat Os storeDir h of
           (Inr isDir, h) \<Rightarrow>
             (if isDir then (Inr (), h)
              else (Inl (EOTHER (''store parent is not a directory: '' @ storeDir)), h))
         | (Inl e, h) \<Rightarrow>
             (if is_not_exist e then os_mkdir_all Os storeDir h else (Inl e, h))))"

section \<open>The key pair\<close>

text \<open>The pair in the store, when it can be read; the public key is computed from the private one.\<close>

definition load_key_pair :: "'db bolt \<Rightarrow> prims \<Rightarrow> 'db \<Rightarrow> KeyPair option" where
  "load_key_pair B P db =
     (if HasKeyPair B db then
        (case GetKeyPair B db of
           Inl _ \<Rightarrow> None
         | Inr (privBytes, _) \<Rightarrow>
             (case PrivateKeyFromHex privBytes of
                Inl _ \<Rightarrow> None
              | Inr priv \<Rightarrow> Some \<lparr>kp_Private = priv, kp_Public = x25519_base P priv\<rparr>))
      else None)"

type_synonym fatal = "string \<times> string"

definition own_key_pair :: "'db bolt \<Rightarrow> prims \<Rightarrow> nat \<Rightarrow> 'db \<Rightarrow> (fatal + KeyPair) \<times> 'db" where
  "own_key_pair B P pos db =
     (case load_key_pair B P db of
        Some kp \<Rightarrow> (Inr kp, db)
      | None \<Rightarrow>
          (case GenerateKeyPair P pos of
             Inl e \<Rightarrow> (Inl (''failed to generate key pair'', e), db)
           | Inr kp \<Rightarrow>
               (case PutKeyPair B (PrivKeyHex (kp_Private kp)) (PubKeyHex (kp_Public kp)) db of
                  (Inl e, db) \<Rightarrow> (Inl (''failed to store key pair'', e), db)
                | (Inr _, db) \<Rightarrow> (Inr kp, db))))"

section \<open>Start and stop\<close>

record 'db boot =
  bt_yaml :: yaml
  bt_open :: "string \<Rightarrow> 'db \<Rightarrow> 'db res"
  bt_version :: string

text \<open>
  The running agent: its configuration, the environment its handlers run in, their state, and the
  collector of metrics.
\<close>

record 'db running =
  ru_cfg :: Config
  ru_env :: "'db env"
  ru_agent :: "'db agent"
  ru_collector :: Collector

definition NewHandler ::
    "wg_Manager \<Rightarrow> bird_Manager \<Rightarrow> string \<Rightarrow> KeyPair option \<Rightarrow> 'db env \<Rightarrow> 'db env" where
  "NewHandler wgMgr birdMgr agentToken kp E = E\<lparr>eWg := wgMgr, eBird := birdMgr, eToken := agentToken, eKey := kp\<rparr>"

definition SetWSClient :: "Client \<Rightarrow> 'db agent \<Rightarrow> 'db agent" where
  "SetWSClient c st = st\<lparr>a_ws := c\<rparr>"

text \<open>The part of \<open>main\<close> up to the open store, in which the version has been recorded.\<close>

definition store_path :: "Config \<Rightarrow> Config" where
  "store_path cfg =
     (if cf_StorePath cfg = [] then cfg\<lparr>cf_StorePath := path_join defaultStateDir ''peers.db''\<rparr> else cfg)"

definition open_store ::
    "'db boot \<Rightarrow> 'db env \<Rightarrow> string \<Rightarrow> 'db \<Rightarrow> host \<Rightarrow> (fatal + Config \<times> 'db) \<times> host" where
  "open_store bt E configPath disk h =
     (case Load (eOs E) (bt_yaml bt) configPath h of
        (Inl e, h) \<Rightarrow> (Inl (''failed to load config'', e), h)
      | (Inr cfg, h) \<Rightarrow>
          (let cfg = store_path cfg in
           case ensureStoreDirectory (eOs E) (cf_StorePath cfg) h of
             (Inl e, h) \<Rightarrow> (Inl (''failed to prepare store directory'', os_err_text e), h)
           | (Inr _, h) \<Rightarrow>
               (case ensurePrivateStateDirectory (eOs E) defaultStateDir h of
                  (Inl e, h) \<Rightarrow> (Inl (''failed to prepare state directory'', os_err_text e), h)
                | (Inr _, h) \<Rightarrow>
                    (case Store.Open (eBolt E) (bt_open bt (cf_StorePath cfg) disk) of
                       (Inl e, _) \<Rightarrow> (Inl (''failed to open store'', e), h)
                     | (Inr db, _) \<Rightarrow>
                         (Inr (cfg, snd (PutVersion (eBolt E) (bt_version bt) db)), h)))))"

text \<open>
  The parts are put together: the managers, the handler, the client with its keys, the collector. The
  client draws from the random source where the key pair left it.
\<close>

definition ws_url :: "Config \<Rightarrow> string" where
  "ws_url cfg = cf_CenterURL cfg @ ''/api/v1/agent/ws?node_id='' @ cf_NodeID cfg"

definition new_client :: "'db env \<Rightarrow> Config \<Rightarrow> KeyPair \<Rightarrow> nat \<Rightarrow> 'db \<Rightarrow> Client" where
  "new_client E cfg kp pos db =
     (let c = (NewClient (ws_url cfg) (cf_AgentToken cfg) (cf_NodeID cfg) (cf_ReconnectMaxInterval cfg))\<lparr>c_rng := pos\<rparr>;
          c = SetKeyPair (Some kp) c
      in case GetServerPubKey (eBolt E) db of
           Inr pub \<Rightarrow> (if 0 < length pub then SetServerPubKey (Some pub) c else c)
         | Inl _ \<Rightarrow> c)"

definition wire_agent ::
    "'db boot \<Rightarrow> 'db env \<Rightarrow> Config \<Rightarrow> KeyPair \<Rightarrow> nat \<Rightarrow> 'db \<Rightarrow> host \<Rightarrow> 'db running" where
  "wire_agent bt E cfg kp pos db h =
     (let c = new_client E cfg kp pos db in
      \<lparr>ru_cfg = cfg,
       ru_env = NewHandler
         (wg_NewManager (cf_WgDir cfg) (cf_BirdPeerDir cfg) (cf_OurWgPrivateKey cfg) (cf_OurLLA cfg))
         (bird_NewManager (cf_BirdPeerDir cfg) (cf_BirdcPath cfg)) (cf_AgentToken cfg) (Some kp) E,
       ru_agent = SetWSClient c
         \<lparr>a_host = h, a_db = db, a_ws = c, a_pending = None, a_blocked = False, a_end = None\<rparr>,
       ru_collector = SetVersion (bt_version bt)
         (NewCollector (cf_HeartbeatInterval cfg) (cf_BirdDetailInterval cfg))\<rparr>)"

text \<open>\<open>main\<close> up to the start of the goroutines; \<open>log.Fatal\<close> ends the process.\<close>

definition main_start ::
    "'db boot \<Rightarrow> 'db env \<Rightarrow> string \<Rightarrow> nat \<Rightarrow> 'db \<Rightarrow> host \<Rightarrow> fatal + 'db running" where
  "main_start bt E configPath pos disk h =
     (case open_store bt E configPath disk h of
        (Inl f, h) \<Rightarrow> Inl f
      | (Inr (cfg, db), h) \<Rightarrow>
          (case own_key_pair (eBolt E) (ePrims E) pos db of
             (Inl f, db) \<Rightarrow> Inl f
           | (Inr kp, db) \<Rightarrow> Inr (wire_agent bt E cfg kp (Suc pos) db h)))"

text \<open>
  The end on a signal: the collector and the client are told to stop, and the deferred call closes the store.
\<close>

definition main_stop :: "'db running \<Rightarrow> 'db running" where
  "main_stop r =
     r\<lparr>ru_collector := Stop (ru_collector r),
       ru_agent := (ru_agent r)\<lparr>a_ws := ws_Close (a_ws (ru_agent r)),
         a_db := snd (Close (eBolt (ru_env r)) (a_db (ru_agent r)))\<rparr>\<rparr>"

section \<open>Paths below a directory\<close>

definition comp_ok :: "bool \<Rightarrow> string \<Rightarrow> bool" where
  "comp_ok r c \<longleftrightarrow> c \<noteq> [] \<and> c \<noteq> ''.'' \<and> CHR ''/'' \<notin> set c \<and> (r \<longrightarrow> c \<noteq> ''..'')"

lemma clean_comps_step:
  assumes "CHR ''/'' \<notin> set c" "\<forall>c \<in> set out. comp_ok r c"
  shows "\<exists>out'. clean_comps r out (c # cs) = clean_comps r out' cs \<and> (\<forall>c \<in> set out'. comp_ok r c)"
proof -
  consider "c = [] \<or> c = ''.''" | "c = ''..''" "out = []" | q qs where "c = ''..''" "out = q # qs" | "plain_name c"
    using assms(1) by (cases out) (auto simp: plain_name_def)
  then show ?thesis
  proof cases
    case 1
    then have "clean_comps r out (c # cs) = clean_comps r out cs" by (simp only: clean_comps.simps if_True)
    with assms(2) show ?thesis by blast
  next
    case 2
    then have "clean_comps r out (c # cs) = clean_comps r (if r then [] else [''..'']) cs" by simp
    moreover have "\<forall>c \<in> set (if r then [] else [''..'']). comp_ok r c" by (simp add: comp_ok_def)
    ultimately show ?thesis by blast
  next
    case (3 q qs)
    then have "clean_comps r out (c # cs) = clean_comps r (if q = ''..'' then ''..'' # out else qs) cs" by simp
    moreover have "\<forall>c \<in> set (if q = ''..'' then ''..'' # out else qs). comp_ok r c"
      using assms(2) 3(2) by (cases "q = ''..''") simp_all
    ultimately show ?thesis by blast
  next
    case 4
    then have "clean_comps r out (c # cs) = clean_comps r (c # out) cs" by (simp add: plain_name_def)
    moreover have "\<forall>c \<in> set (c # out). comp_ok r c" using 4 assms(2) by (simp add: comp_ok_def plain_name_def)
    ultimately show ?thesis by blast
  qed
qed

lemma clean_comps_ok:
  "\<forall>c \<in> set cs. CHR ''/'' \<notin> set c \<Longrightarrow> \<forall>c \<in> set out. comp_ok r c \<Longrightarrow>
     \<forall>c \<in> set (clean_comps r out cs). comp_ok r c"
proof (induction cs arbitrary: out)
  case (Cons c cs)
  from Cons.prems clean_comps_step [of c out r cs] obtain out' where
    "clean_comps r out (c # cs) = clean_comps r out' cs" "\<forall>c \<in> set out'. comp_ok r c"
    by auto
  with Cons.IH [of out'] Cons.prems(1) show ?case by simp
qed simp

lemma path_comps_ok: "c \<in> set (path_comps p) \<Longrightarrow> comp_ok (is_rooted p) c"
  using clean_comps_ok [of "split_on CHR ''/'' p" "[]" "is_rooted p"] split_on_set [of _ "CHR ''/''" p]
  by (auto simp: path_comps_def)

lemma clean_comps_id: "\<forall>c \<in> set cs. plain_name c \<Longrightarrow> clean_comps r out cs = rev out @ cs"
  by (induction r out cs rule: clean_comps.induct) (auto simp: plain_name_def split: list.splits)

lemma rooted_comps_plain: "is_rooted p \<Longrightarrow> \<forall>c \<in> set (path_comps p). plain_name c"
  using path_comps_ok [of _ p] by (auto simp: comp_ok_def plain_name_def)

lemma comps_of_join:
  assumes "\<forall>c \<in> set cs. plain_name c"
  shows "path_comps (''/'' @ join_with ''/'' cs) = cs" "is_rooted (''/'' @ join_with ''/'' cs)"
proof -
  have "split_on CHR ''/'' (''/'' @ join_with ''/'' cs) = [] # (if cs = [] then [[]] else cs)"
    using assms split_on_join [of cs "CHR ''/''"] by (auto simp: plain_name_def)
  then show "path_comps (''/'' @ join_with ''/'' cs) = cs"
    using assms clean_comps_id [of cs True "[]"] by (simp add: path_comps_def is_rooted_def)
qed (simp add: is_rooted_def)

lemma path_clean_rooted:
  assumes "is_rooted p"
  shows "path_clean p = ''/'' @ join_with ''/'' (path_comps p)" "path_comps (path_clean p) = path_comps p"
    "is_rooted (path_clean p)" "path_clean (path_clean p) = path_clean p"
proof -
  show eq: "path_clean p = ''/'' @ join_with ''/'' (path_comps p)"
    using assms by (auto simp: path_clean_def path_of_def is_rooted_def)
  show comps: "path_comps (path_clean p) = path_comps p" and root: "is_rooted (path_clean p)"
    unfolding eq by (fact comps_of_join [OF rooted_comps_plain [OF assms]])+
  then show "path_clean (path_clean p) = path_clean p"
    by (simp only: path_clean_def [of "path_clean p"] path_of_def comps root if_True eq [symmetric])
      (use eq in simp)
qed

lemma path_clean_unrooted:
  assumes "\<not> is_rooted p"
  shows "\<not> is_rooted (path_clean p)"
proof (cases "path_comps p")
  case Nil
  with assms have "path_clean p = ''.''" by (simp add: path_clean_def path_of_def)
  then show ?thesis by (simp add: is_rooted_def)
next
  case (Cons c cs)
  then have "comp_ok False c" using path_comps_ok [of c p] assms by simp
  then obtain x xs where "c = x # xs" "x \<noteq> CHR ''/''" by (cases c) (auto simp: comp_ok_def)
  then have "\<not> is_rooted (join_with ''/'' (c # cs))" by (cases cs) (simp_all add: is_rooted_def)
  moreover have "\<not> is_rooted ''.''" by (simp add: is_rooted_def)
  ultimately show ?thesis using Cons assms by (simp add: path_clean_def path_of_def)
qed

lemma drop_common_spec: "drop_common bs' ts = (up, down) \<Longrightarrow> (up = [] \<longleftrightarrow> (\<exists>r. ts = bs' @ r)) \<and> (up = [] \<longrightarrow> ts = bs' @ down)"
  by (induction bs' ts rule: drop_common.induct) (auto split: if_splits)

lemma join_starts:
  "join_with ''/'' (w # ws) = w \<or> has_prefix (w @ ''/'') (join_with ''/'' (w # ws))"
  using has_prefix_append [of "w @ ''/''"] by (cases ws) simp_all

lemma plain_join:
  assumes "\<forall>c \<in> set cs. plain_name c"
  shows "join_with ''/'' cs \<noteq> ''..''" "\<not> has_prefix ''../'' (join_with ''/'' cs)"
proof -
  have no: "''..'' \<notin> set cs" using assms by (auto simp: plain_name_def)
  have sp: "split_on CHR ''/'' (join_with ''/'' cs) = cs" if "cs \<noteq> []"
    using assms split_on_join [OF _ that, of "CHR ''/''"] by (simp add: plain_name_def)
  have one: "split_on CHR ''/'' ''..'' = [''..'']" by simp
  show "join_with ''/'' cs \<noteq> ''..''"
    using sp one no by (cases "cs = []") (simp, metis list.set_intros(1))
  show "\<not> has_prefix ''../'' (join_with ''/'' cs)"
  proof
    assume "has_prefix ''../'' (join_with ''/'' cs)"
    then obtain s where s: "join_with ''/'' cs = ''..'' @ CHR ''/'' # s" by (auto simp: has_prefix_iff)
    then have "cs = [''..''] @ split_on CHR ''/'' s"
      using sp split_on_append_sep [of "CHR ''/''" "''..''" s] one by (cases "cs = []") simp_all
    with no show False by (metis Un_iff list.set_intros(1) set_append)
  qed
qed

lemma state_dir_comps:
  "is_rooted defaultStateDir" "path_comps defaultStateDir = [''var'', ''lib'', ''autopeer-agent'']"
  "path_clean defaultStateDir = defaultStateDir"
  by (simp_all add: defaultStateDir_def is_rooted_def path_comps_def path_clean_def path_of_def)

lemma within_rooted:
  assumes "is_rooted p"
  shows "isWithinDefaultStateDirectory p \<longleftrightarrow> (\<exists>rest. path_comps p = path_comps defaultStateDir @ rest)"
proof (cases "path_clean p = defaultStateDir")
  case True
  then have "path_comps p = path_comps defaultStateDir @ []" using path_clean_rooted(2) [OF assms] by simp
  with True show ?thesis by (auto simp: isWithinDefaultStateDirectory_def state_dir_comps(3) Let_def)
next
  case False
  obtain up down where d: "drop_common (path_comps defaultStateDir) (path_comps p) = (up, down)" by fastforce
  define rel where "rel = join_with ''/'' (replicate (length up) ''..'' @ down)"
  have rel: "path_rel defaultStateDir (path_clean p) = Inr rel"
    using False d path_clean_rooted [OF assms] by (simp add: path_rel_def state_dir_comps(1,3) rel_def)
  have "rel \<noteq> ''..'' \<and> \<not> has_prefix ''../'' rel \<longleftrightarrow> up = []"
  proof (cases up)
    case Nil
    then have "\<forall>c \<in> set down. plain_name c"
      using drop_common_spec [OF d] rooted_comps_plain [OF assms] by auto
    with Nil show ?thesis by (simp add: rel_def plain_join)
  next
    case (Cons u us)
    then show ?thesis
      using join_starts [of "''..''" "replicate (length us) ''..'' @ down"] by (auto simp: rel_def)
  qed
  moreover have "isWithinDefaultStateDirectory p \<longleftrightarrow> rel \<noteq> ''..'' \<and> \<not> has_prefix ''../'' rel"
    using False rel by (simp add: isWithinDefaultStateDirectory_def Let_def state_dir_comps(3))
  ultimately show ?thesis using drop_common_spec [OF d] by simp
qed

text \<open>
  C29: \<open>isWithinDefaultStateDirectory\<close> holds exactly of the absolute paths whose components, with
  \<open>.\<close> and \<open>..\<close> resolved, begin with those of the state directory; a path that climbs out with
  \<open>..\<close>, or a directory whose name only begins alike, does not count.
\<close>

theorem within_state_dir_iff:
  "isWithinDefaultStateDirectory p \<longleftrightarrow>
     is_rooted p \<and> (\<exists>rest. path_comps p = [''var'', ''lib'', ''autopeer-agent''] @ rest)"
proof (cases "is_rooted p")
  case True
  then show ?thesis using within_rooted state_dir_comps(2) by simp
next
  case False
  have "\<not> is_rooted (path_clean p)" "\<not> is_rooted (path_clean (path_clean p))"
    using path_clean_unrooted False by blast+
  then have "\<not> isWithinDefaultStateDirectory p"
    using state_dir_comps(1,3) by (auto simp: isWithinDefaultStateDirectory_def path_rel_def Let_def)
  with False show ?thesis by simp
qed

section \<open>The directories after a start\<close>

definition private_dir :: "string \<Rightarrow> host \<Rightarrow> bool" where
  "private_dir p h \<longleftrightarrow> p \<in> set (dirs h) \<and> map_of (dir_modes h) p = Some perm_0700"

lemma parents_self [simp]: "p \<in> set (parents n p)"
  by (cases n) simp_all

lemma mkdir_run:
  assumes "os_mkdir_all Os p h = (Inr u, h')"
  shows "p \<in> set (dirs h')" "set (dirs h) \<subseteq> set (dirs h')" "dir_modes h' = dir_modes h" "fs_read h' = fs_read h"
    "fs_read h p = None"
  using assms
  by (auto simp: os_mkdir_all_def fs_read_def fun_eq_iff tock_def split: option.splits if_splits)

lemma private_run:
  assumes "ensurePrivateStateDirectory Os p h = (Inr u, h')"
  shows "private_dir p h'" "private_dir q h \<Longrightarrow> private_dir q h'" "set (dirs h) \<subseteq> set (dirs h')"
proof -
  from assms obtain v h1 where m: "os_mkdir_all Os p h = (Inr v, h1)" and c: "os_chmod Os p perm_0700 h1 = (Inr u, h')"
    by (auto simp: ensurePrivateStateDirectory_def andThen_def split: prod.splits sum.splits)
  have "h' = tock (h1\<lparr>dir_modes := AList.update p perm_0700 (dir_modes h1)\<rparr>)"
    using c mkdir_run(1,4,5) [OF m] by (auto simp: os_chmod_def split: option.splits if_splits)
  with mkdir_run [OF m] show "private_dir p h'" "private_dir q h \<Longrightarrow> private_dir q h'" "set (dirs h) \<subseteq> set (dirs h')"
    by (auto simp: private_dir_def update_conv' tock_def)
qed

lemma store_dir_run:
  assumes "ensureStoreDirectory Os path h = (Inr u, h')" "path_dir path \<noteq> ''.''"
  shows "path_dir path \<in> set (dirs h')" "isWithinDefaultStateDirectory (path_dir path) \<Longrightarrow> private_dir (path_dir path) h'"
proof -
  show w: "private_dir (path_dir path) h'" if "isWithinDefaultStateDirectory (path_dir path)"
    using assms that private_run(1) by (auto simp: ensureStoreDirectory_def Let_def)
  show "path_dir path \<in> set (dirs h')"
  proof (cases "isWithinDefaultStateDirectory (path_dir path)")
    case True
    with w show ?thesis by (simp add: private_dir_def)
  next
    case False
    with assms show ?thesis
      by (auto simp: ensureStoreDirectory_def Let_def os_stat_def mkdir_run(1)
          split: prod.splits sum.splits option.splits if_splits)
  qed
qed

lemma open_store_run:
  assumes "open_store bt E path disk h = (Inr (cfg, db), h')"
  obtains h1 h2 u v opened db1 where
    "\<exists>c. Load (eOs E) (bt_yaml bt) path h = (Inr c, h1) \<and> cfg = store_path c"
    "ensureStoreDirectory (eOs E) (cf_StorePath cfg) h1 = (Inr u, h2)"
    "ensurePrivateStateDirectory (eOs E) defaultStateDir h2 = (Inr v, h')"
    "bt_open bt (cf_StorePath cfg) disk = Inr opened"
    "db_update (eBolt E) (create_buckets (eBolt E)) opened = (Inr (), db1)"
    "db = snd (PutVersion (eBolt E) (bt_version bt) db1)"
  using assms by (auto simp: open_store_def Open_def Let_def split: prod.splits sum.splits)

lemma main_start_run:
  assumes "main_start bt E path pos disk h = Inr r"
  obtains cfg db h' kp db' where
    "open_store bt E path disk h = (Inr (cfg, db), h')"
    "own_key_pair (eBolt E) (ePrims E) pos db = (Inr kp, db')"
    "r = wire_agent bt E cfg kp (Suc pos) db' h'"
  using assms by (auto simp: main_start_def split: prod.splits sum.splits)

lemma wire_agent_simps [simp]:
  "ru_cfg (wire_agent bt E cfg kp pos db h) = cfg"
  "a_host (ru_agent (wire_agent bt E cfg kp pos db h)) = h"
  "a_db (ru_agent (wire_agent bt E cfg kp pos db h)) = db"
  "a_ws (ru_agent (wire_agent bt E cfg kp pos db h)) = new_client E cfg kp pos db"
  "eKey (ru_env (wire_agent bt E cfg kp pos db h)) = Some kp"
  "eBolt (ru_env (wire_agent bt E cfg kp pos db h)) = eBolt E"
  "ePrims (ru_env (wire_agent bt E cfg kp pos db h)) = ePrims E"
  "ru_collector (wire_agent bt E cfg kp pos db h) =
     SetVersion (bt_version bt) (NewCollector (cf_HeartbeatInterval cfg) (cf_BirdDetailInterval cfg))"
  by (simp_all add: wire_agent_def Let_def SetWSClient_def NewHandler_def)

text \<open>
  C28: an agent that has started has a complete configuration, its state directory exists with mode
  0700, and the directory of its store exists, with mode 0700 when it lies below the state directory.
\<close>

theorem start_prepares_directories:
  assumes "main_start bt E path pos disk h = Inr r"
  shows "missing_field (ru_cfg r) = None \<and> cf_StorePath (ru_cfg r) \<noteq> [] \<and>
    private_dir defaultStateDir (a_host (ru_agent r)) \<and>
    (let d = path_dir (cf_StorePath (ru_cfg r)) in
     d = ''.'' \<or> d \<in> set (dirs (a_host (ru_agent r))) \<and>
       (isWithinDefaultStateDirectory d \<longrightarrow> private_dir d (a_host (ru_agent r))))"
  using assms
proof (cases rule: main_start_run)
  case (1 cfg db h' kp db')
  from 1(1) show ?thesis
  proof (cases rule: open_store_run)
    case (1 h1 h2 u v opened db1)
    let ?d = "path_dir (cf_StorePath cfg)"
    obtain c where c: "Load (eOs E) (bt_yaml bt) path h = (Inr c, h1)" "cfg = store_path c" using 1(1) by blast
    have "missing_field c = None" using c(1) by (auto simp: Load_def split: prod.splits sum.splits option.splits)
    then have cfg: "missing_field cfg = None" "cf_StorePath cfg \<noteq> []"
      by (simp_all add: c(2) store_path_def missing_field_def path_join_def path_clean_def path_of_def
          defaultStateDir_def is_rooted_def split: if_splits)
    have d: "?d \<in> set (dirs h')" "isWithinDefaultStateDirectory ?d \<longrightarrow> private_dir ?d h'" if "?d \<noteq> ''.''"
      using store_dir_run [OF 1(2) that] private_run(2,3) [OF 1(3)] by auto
    show ?thesis
      unfolding \<open>r = _\<close> using cfg private_run(1) [OF 1(3)] d by (auto simp: Let_def)
  qed
qed

section \<open>Identity\<close>

text \<open>
  What the agent relies on of BoltDB beyond \<open>bolt_laws\<close>: a bucket exists once it was created, and
  a put or a commit does not delete one.
\<close>

definition bucket_laws :: "'db bolt \<Rightarrow> bool" where
  "bucket_laws B \<longleftrightarrow>
     (\<forall>b db db'. bCreate B b db = Inr db' \<longrightarrow> bBucket B db' b \<and> (\<forall>b'. bBucket B db b' \<longrightarrow> bBucket B db' b')) \<and>
     (\<forall>b k v db db'. bPut B b k v db = Inr db' \<longrightarrow> bBucket B db' = bBucket B db) \<and>
     (\<forall>db tx db'. bCommit B db tx = Inr db' \<longrightarrow> bBucket B db' = bBucket B tx)"

lemma db_update_bucket:
  assumes "db_update B f db = (r, db')" "bucket_laws B" "\<And>tx. f db = Inr tx \<Longrightarrow> bBucket B tx b"
  shows "is_ok r \<Longrightarrow> bBucket B db' b" "bBucket B db b \<Longrightarrow> bBucket B db' b"
  using assms by (auto simp: db_update_def bucket_laws_def is_ok_def split: option.splits sum.splits)

lemma create_keys_bucket:
  "bucket_laws B \<Longrightarrow> create_buckets B tx = Inr tx' \<Longrightarrow> bBucket B tx' bucketKeys"
  by (auto simp: create_buckets_def bucket_laws_def split: sum.splits)

lemma create_get: "bolt_laws B \<Longrightarrow> create_buckets B tx = Inr tx' \<Longrightarrow> bGet B tx' = bGet B tx"
  by (auto simp: create_buckets_def bolt_laws_def split: sum.splits)

lemma put_keeps_bucket:
  "bucket_laws B \<Longrightarrow> bBucket B db b \<Longrightarrow> bBucket B (snd (db_update B (bPut B b' k v) db)) b"
  by (auto simp: db_update_def bucket_laws_def split: option.splits sum.splits)

lemma put_other_bucket:
  "bolt_laws B \<Longrightarrow> b \<noteq> b' \<Longrightarrow> bGet B (snd (db_update B (bPut B b' k v) db)) b = bGet B db b"
  by (auto simp: db_update_def bolt_laws_def fun_eq_iff split: option.splits sum.splits)

lemma open_store_keys:
  assumes "bolt_laws (eBolt E)" "bucket_laws (eBolt E)" "open_store bt E path disk h = (Inr (cfg, db), h')"
    and "\<And>opened. bt_open bt (cf_StorePath cfg) disk = Inr opened \<Longrightarrow> bGet (eBolt E) opened = bGet (eBolt E) disk"
  shows "bGet (eBolt E) db bucketKeys = bGet (eBolt E) disk bucketKeys \<and> bBucket (eBolt E) db bucketKeys"
  using assms(3)
proof (cases rule: open_store_run)
  case (1 h1 h2 u v opened db1)
  let ?B = "eBolt E"
  have b1: "bBucket ?B db1 bucketKeys"
    using db_update_bucket(1) [OF 1(5) assms(2)] create_keys_bucket [OF assms(2)] by (simp add: is_ok_def)
  obtain tx where "create_buckets ?B opened = Inr tx" "bGet ?B db1 = bGet ?B tx"
    using 1(5) by (rule db_update_ok [OF _ assms(1)])
  then have g1: "bGet ?B db1 = bGet ?B disk"
    using create_get [OF assms(1)] assms(4) [OF 1(4)] by simp
  have "bGet ?B db bucketKeys = bGet ?B disk bucketKeys"
    using put_other_bucket [OF assms(1)] g1 by (simp add: 1(6) PutVersion_def bucketKeys_def bucketMeta_def)
  moreover have "bBucket ?B db bucketKeys"
    unfolding 1(6) PutVersion_def by (rule put_keeps_bucket [OF assms(2) b1])
  ultimately show ?thesis by simp
qed

lemma own_key_pair_loads:
  assumes "bolt_laws B" "bucket_laws B" "aead_laws P" "\<forall>db. bBegin B db False = None"
    and "bBucket B db bucketKeys" "own_key_pair B P pos db = (Inr kp, db')"
  shows "load_key_pair B P db' = Some kp" "bBucket B db' bucketKeys"
proof -
  have "load_key_pair B P db' = Some kp \<and> bBucket B db' bucketKeys"
  proof (cases "load_key_pair B P db")
    case (Some k)
    with assms(5,6) show ?thesis by (simp add: own_key_pair_def)
  next
    case None
    then obtain u where gen: "GenerateKeyPair P pos = Inr kp"
      and put: "PutKeyPair B (PrivKeyHex (kp_Private kp)) (PubKeyHex (kp_Public kp)) db = (Inr u, db')"
      using assms(6) by (auto simp: own_key_pair_def split: sum.splits prod.splits)
    have kp: "length (kp_Private kp) = 32" "kp_Public kp = x25519_base P (kp_Private kp)"
      using gen assms(3) by (auto simp: GenerateKeyPair_def aead_laws_def split: sum.splits)
    obtain tx tx1 where tx: "bPut B bucketKeys keyLocalPriv (PrivKeyHex (kp_Private kp)) db = Inr tx1"
        "bPut B bucketKeys keyLocalPub (PubKeyHex (kp_Public kp)) tx1 = Inr tx" "bGet B db' = bGet B tx"
      using put unfolding PutKeyPair_def by (elim db_update_ok [OF _ assms(1)]) (auto split: sum.splits)
    have b: "bBucket B db' bucketKeys"
    proof (rule db_update_bucket(2) [OF put [unfolded PutKeyPair_def] assms(2) _ assms(5)])
      have same: "bBucket B db2 = bBucket B db1" if "bPut B b k v db1 = Inr db2" for b k v db1 db2
        using assms(2) that unfolding bucket_laws_def by blast
      from same [OF tx(1)] same [OF tx(2)] assms(5) have "bBucket B tx bucketKeys" by simp
      then show "bBucket B t bucketKeys"
        if "(case bPut B bucketKeys keyLocalPriv (PrivKeyHex (kp_Private kp)) db of Inl e \<Rightarrow> Inl e
             | Inr tx' \<Rightarrow> bPut B bucketKeys keyLocalPub (PubKeyHex (kp_Public kp)) tx') = Inr t" for t
        using that tx(1,2) by simp
    qed
    have "PrivateKeyFromHex (PrivKeyHex (kp_Private kp)) = Inr (kp_Private kp)"
      using kp(1) by (simp add: PrivateKeyFromHex_def PrivKeyHex_def hex_decode_encode)
    with b tx(3) kp(2) assms(4) show ?thesis
      by (simp add: load_key_pair_def HasKeyPair_def GetKeyPair_def db_view_def bolt_put [OF assms(1) tx(1)]
          bolt_put [OF assms(1) tx(2)] keyLocalPriv_def keyLocalPub_def)
  qed
  then show "load_key_pair B P db' = Some kp" "bBucket B db' bucketKeys" by simp_all
qed

lemma load_key_pair_cong:
  assumes "\<forall>db. bBegin B db False = None" "bBucket B db bucketKeys" "bBucket B db' bucketKeys"
    and "\<And>k. k \<in> {keyLocalPriv, keyLocalPub} \<Longrightarrow> bGet B db' bucketKeys k = bGet B db bucketKeys k"
  shows "load_key_pair B P db' = load_key_pair B P db"
  using assms by (simp add: load_key_pair_def HasKeyPair_def GetKeyPair_def db_view_def)

lemma restart_same_key:
  assumes "bolt_laws (eBolt E)" "bucket_laws (eBolt E)" "aead_laws (ePrims E)"
    and "\<forall>db. bBegin (eBolt E) db False = None"
    and "\<forall>b \<in> {bt, bt'}. \<forall>p d db. bt_open b p d = Inr db \<longrightarrow> bGet (eBolt E) db = bGet (eBolt E) d"
    and "main_start bt E path pos disk h = Inr r"
    and "\<forall>k \<in> {keyLocalPriv, keyLocalPub}.
      bGet (eBolt E) disk' bucketKeys k = bGet (eBolt E) (a_db (ru_agent r)) bucketKeys k"
    and "main_start bt' E path' pos' disk' h' = Inr r'"
  shows "eKey (ru_env r') = eKey (ru_env r) \<and> eKey (ru_env r) \<noteq> None \<and>
    c_keypair (a_ws (ru_agent r')) = eKey (ru_env r)"
  using assms(6)
proof (cases rule: main_start_run)
  case first: (1 cfg db h1 kp db1)
  from assms(8) show ?thesis
  proof (cases rule: main_start_run)
    case second: (1 cfg' db' h2 kp' db2)
    let ?B = "eBolt E" and ?P = "ePrims E"
    have b: "bBucket ?B db bucketKeys" "bBucket ?B db' bucketKeys" "bGet ?B db' bucketKeys = bGet ?B disk' bucketKeys"
      using open_store_keys [OF assms(1,2) first(1)] open_store_keys [OF assms(1,2) second(1)] assms(5) by auto
    note own = own_key_pair_loads [OF assms(1-4) b(1) first(2)]
    have "load_key_pair ?B ?P db' = load_key_pair ?B ?P db1"
      by (rule load_key_pair_cong [OF assms(4) own(2) b(2)]) (use assms(7) b(3) first(3) in auto)
    with own(1) second(2) have "kp' = kp" by (simp add: own_key_pair_def)
    with first(3) second(3) show ?thesis
      by (simp add: new_client_def Let_def SetKeyPair_def SetServerPubKey_def split: sum.splits)
  qed
qed

section \<open>The interval of the collector\<close>

text \<open>
  The same boot from a configuration that differs in its \<open>heartbeat_interval\<close> alone.
\<close>

definition set_heartbeat :: "int \<Rightarrow> Config \<Rightarrow> Config" where
  "set_heartbeat n cfg = cfg\<lparr>cf_HeartbeatInterval := n\<rparr>"

definition with_heartbeat :: "int \<Rightarrow> 'db boot \<Rightarrow> 'db boot" where
  "with_heartbeat n bt = bt\<lparr>bt_yaml := (\<lambda>d c. map_sum id (set_heartbeat n) (bt_yaml bt d c))\<rparr>"

lemma with_heartbeat_simps [simp]:
  "bt_open (with_heartbeat n bt) = bt_open bt" "bt_version (with_heartbeat n bt) = bt_version bt"
  "missing_field (set_heartbeat n cfg) = missing_field cfg"
  "store_path (set_heartbeat n cfg) = set_heartbeat n (store_path cfg)"
  "cf_StorePath (set_heartbeat n cfg) = cf_StorePath cfg" "cf_HeartbeatInterval (set_heartbeat n cfg) = n"
  by (simp_all add: with_heartbeat_def set_heartbeat_def missing_field_def store_path_def)

lemma load_heartbeat:
  "Load Os y path h = (Inr cfg, h') \<Longrightarrow>
   Load Os (\<lambda>d c. map_sum id (set_heartbeat n) (y d c)) path h = (Inr (set_heartbeat n cfg), h')"
  by (auto simp: Load_def split: prod.splits sum.splits option.splits)

lemma open_store_heartbeat:
  assumes "open_store bt E path disk h = (Inr (cfg, db), h')"
  shows "open_store (with_heartbeat n bt) E path disk h = (Inr (set_heartbeat n cfg, db), h')"
proof -
  obtain cfg0 h0 where load: "Load (eOs E) (bt_yaml bt) path h = (Inr cfg0, h0)"
    using assms by (auto simp: open_store_def split: prod.splits sum.splits)
  with assms show ?thesis
    using load_heartbeat [OF load, of n]
    by (auto simp: open_store_def Let_def with_heartbeat_def [of n bt] split: prod.splits sum.splits)
qed

lemma start_heartbeat:
  assumes "main_start bt E path pos disk h = Inr r"
  obtains r' where "main_start (with_heartbeat n bt) E path pos disk h = Inr r'"
    "ru_cfg r' = set_heartbeat n (ru_cfg r)" "co_interval (ru_collector r') = wrap64 (n * second_ns)"
  using assms
proof (cases rule: main_start_run)
  case (1 cfg db h' kp db')
  show thesis
    using that [of "wire_agent (with_heartbeat n bt) E (set_heartbeat n cfg) kp (Suc pos) db' h'"]
      open_store_heartbeat [OF 1(1), of n] 1(2,3)
    by (simp add: main_start_def NewCollector_def SetVersion_def)
qed

text \<open>
  C35: \<open>Load\<close> accepts every \<open>heartbeat_interval\<close>, and one of zero or below brings the collector down. Wherever
  the agent starts from some configuration, it also starts from the same configuration with any other
  interval; with one from -9223372036 to 0 seconds its collector ends in the panic of
  \<open>time.NewTicker\<close> before it reads a single metric, with one from 1 to 9223372036 it runs. (Beyond
  these bounds the interval in nanoseconds no longer fits 64 bits and wraps around.)
\<close>

theorem nonpositive_heartbeat_panics:
  assumes "main_start bt E path pos disk h = Inr r" "-9223372036 \<le> n" "n \<le> 9223372036"
  shows "\<exists>r'. main_start (with_heartbeat n bt) E path pos disk h = Inr r' \<and>
    ru_cfg r' = (ru_cfg r)\<lparr>cf_HeartbeatInterval := n\<rparr> \<and>
    (if n \<le> 0
     then metrics_Run (ru_env r') sched evs (ru_collector r') (ru_agent r') = Inl ''non-positive interval for NewTicker''
     else \<exists>c st. metrics_Run (ru_env r') sched evs (ru_collector r') (ru_agent r') = Inr (c, st))"
proof -
  obtain r' where r': "main_start (with_heartbeat n bt) E path pos disk h = Inr r'"
    "ru_cfg r' = set_heartbeat n (ru_cfg r)" "co_interval (ru_collector r') = wrap64 (n * second_ns)"
    using start_heartbeat [OF assms(1)] .
  have "wrap64 (n * second_ns) = n * second_ns"
    using assms(2,3) by (intro wrap64_id) (simp add: int64_range_def second_ns_def)
  with r'(3) have "co_interval (ru_collector r') \<le> 0 \<longleftrightarrow> n \<le> 0" by (simp add: second_ns_def)
  with r'(1,2) show ?thesis by (auto simp: metrics_Run_def set_heartbeat_def)
qed

section \<open>A concrete start\<close>

definition demo_config :: Config where
  "demo_config = default_config\<lparr>cf_CenterURL := ''wss://center'', cf_NodeID := ''n1'', cf_OurLLA := ''fe80::1'',
     cf_OurWgPrivateKey := ''key''\<rparr>"

definition demo_boot :: "int \<Rightarrow> mem_db boot" where
  "demo_boot n = \<lparr>bt_yaml = (\<lambda>data cfg. Inr (demo_config\<lparr>cf_HeartbeatInterval := n\<rparr>)),
     bt_open = (\<lambda>p d. Inr d), bt_version = ''1.0''\<rparr>"

definition demo_boot_env :: "mem_db env" where
  "demo_boot_env = demo_env (\<lambda>_. False) (\<lambda>_. [])"

definition demo_boot_host :: host where
  "demo_boot_host = empty_host\<lparr>files := [(''/etc/c.yaml'', \<lparr>content = [], mode = perm_0600\<rparr>)]\<rparr>"

lemma mem_bucket_laws: "bucket_laws mem_bolt"
  by (simp add: bucket_laws_def mem_bolt_def)

lemma demo_own_key: "\<exists>kp db'. own_key_pair mem_bolt toy_prims pos db = (Inr kp, db')"
  by (auto simp: own_key_pair_def GenerateKeyPair_def toy_prims_def PutKeyPair_def db_update_def mem_bolt_def
      keyLocalPriv_def keyLocalPub_def split: option.splits)

lemma state_dir_parents:
  "parents (length defaultStateDir) defaultStateDir = [defaultStateDir, ''/var/lib'', ''/var'', ''/'']"
  by (simp add: defaultStateDir_def path_dir_def path_clean_def path_of_def path_comps_def is_rooted_def
      numeral_eq_Suc)

lemma demo_private_ok:
  assumes "files h = files demo_boot_host"
  shows "\<exists>u h'. ensurePrivateStateDirectory (sim_os bad out) defaultStateDir h = (Inr u, h') \<and> files h' = files h"
proof -
  have free: "\<forall>d \<in> set (parents (length defaultStateDir) defaultStateDir). fs_read h d = None"
    unfolding state_dir_parents using assms by (simp add: fs_read_def demo_boot_host_def defaultStateDir_def)
  have self: "fs_read h defaultStateDir = None" using free by simp
  show ?thesis
    using free self
    by (simp add: ensurePrivateStateDirectory_def andThen_def os_mkdir_all_def os_chmod_def sim_os_def fs_read_def tock_def)
qed

lemma demo_starts:
  "\<exists>r. main_start (demo_boot n) demo_boot_env ''/etc/c.yaml'' pos disk demo_boot_host = Inr r \<and>
     cf_HeartbeatInterval (ru_cfg r) = n"
proof -
  let ?E = demo_boot_env and ?cfg = "store_path (demo_config\<lparr>cf_HeartbeatInterval := n\<rparr>)"
  have load: "Load (eOs ?E) (bt_yaml (demo_boot n)) ''/etc/c.yaml'' demo_boot_host =
      (Inr (demo_config\<lparr>cf_HeartbeatInterval := n\<rparr>), tock demo_boot_host)"
    by (simp add: Load_def demo_boot_env_def os_read_file_def sim_os_def demo_boot_host_def fs_read_def demo_boot_def
        missing_field_def demo_config_def default_config_def)
  have path: "cf_StorePath ?cfg = ''/var/lib/autopeer-agent/peers.db''"
    by (simp add: store_path_def demo_config_def default_config_def path_join_def path_clean_def path_of_def
        defaultStateDir_def is_rooted_def path_comps_def)
  have d: "path_dir (cf_StorePath ?cfg) = defaultStateDir"
    unfolding path by (simp add: path_dir_def path_clean_def path_of_def defaultStateDir_def is_rooted_def path_comps_def)
  have "isWithinDefaultStateDirectory defaultStateDir" "defaultStateDir \<noteq> ''.''"
    by (simp_all add: isWithinDefaultStateDirectory_def Let_def defaultStateDir_def)
  with d demo_private_ok [of "tock demo_boot_host"] obtain u h1 where
    s: "ensureStoreDirectory (eOs ?E) (cf_StorePath ?cfg) (tock demo_boot_host) = (Inr u, h1)" "files h1 = files demo_boot_host"
    by (fastforce simp: ensureStoreDirectory_def demo_boot_env_def Let_def)
  obtain v h2 where p: "ensurePrivateStateDirectory (eOs ?E) defaultStateDir h1 = (Inr v, h2)"
    using demo_private_ok [OF s(2)] by (auto simp: demo_boot_env_def)
  obtain db where o: "open_store (demo_boot n) ?E ''/etc/c.yaml'' disk demo_boot_host = (Inr (?cfg, db), h2)"
    using load s(1) p
    by (simp add: open_store_def Let_def Open_def demo_boot_def demo_boot_env_def db_update_def create_buckets_def mem_bolt_def)
  obtain kp db' where k: "own_key_pair (eBolt ?E) (ePrims ?E) pos db = (Inr kp, db')"
    using demo_own_key by (fastforce simp: demo_boot_env_def)
  have "cf_HeartbeatInterval ?cfg = n" by (simp add: store_path_def)
  then show ?thesis using o k by (simp add: main_start_def)
qed

theorem nonpositive_heartbeat_panics_witness:
  "\<exists>r. main_start (with_heartbeat 0 (demo_boot 60)) demo_boot_env ''/etc/c.yaml'' 0 [] demo_boot_host = Inr r \<and>
     metrics_Run (ru_env r) id [] (ru_collector r) (ru_agent r) = Inl ''non-positive interval for NewTicker''"
proof -
  obtain r where r: "main_start (demo_boot 60) demo_boot_env ''/etc/c.yaml'' 0 [] demo_boot_host = Inr r"
    using demo_starts by blast
  from nonpositive_heartbeat_panics [OF r, of 0 id "[]"] show ?thesis by auto
qed

theorem start_prepares_directories_witness:
  "\<exists>r. main_start (demo_boot 60) demo_boot_env ''/etc/c.yaml'' 0 [] demo_boot_host = Inr r \<and>
     private_dir defaultStateDir (a_host (ru_agent r))"
proof -
  obtain r where r: "main_start (demo_boot 60) demo_boot_env ''/etc/c.yaml'' 0 [] demo_boot_host = Inr r"
    using demo_starts by blast
  from start_prepares_directories [OF r] r show ?thesis by auto
qed

end
