(* ===== verification/Sync.thy ===== *)
theory Sync
  imports Peers
begin

text \<open>
  Properties of \<open>peers.sync\<close>, \<open>peers.import\<close> and the protocol commands, whose handlers are in theory
  \<open>Peers\<close>: what the store holds after a synchronisation and what the center is told, which peers
  are torn down, and which peers an import offers.
\<close>

section \<open>What a synchronisation does\<close>

lemma on_host_keeps [simp]:
  assumes "on_host f st = (r, st1)"
  shows "a_db st1 = a_db st" "a_ws st1 = a_ws st"
  using on_host_simps(1,2) [of f st] assms by simp_all

lemma path_exists_keeps:
  assumes "path_exists E p st = (b, st1)"
  shows "a_db st1 = a_db st" "a_ws st1 = a_ws st"
proof -
  obtain r st2 where "on_host (os_stat (eOs E) p) st = (r, st2)" by fastforce
  with assms show "a_db st1 = a_db st" "a_ws st1 = a_ws st"
    by (auto simp: path_exists_def split: sum.splits)
qed

lemma sync_wg_keeps:
  assumes "sync_wg E p st = (r, st1)"
  shows "a_db st1 = a_db st" "a_ws st1 = a_ws st"
proof -
  have "a_db st1 = a_db st \<and> a_ws st1 = a_ws st"
    using assms
    by (auto simp: sync_wg_def Let_def split: prod.splits if_splits sum.splits dest: path_exists_keeps on_host_keeps)
  then show "a_db st1 = a_db st" "a_ws st1 = a_ws st" by simp_all
qed

lemma sync_bird_keeps:
  assumes "sync_bird E p st = (r, st1)"
  shows "a_db st1 = a_db st" "a_ws st1 = a_ws st"
proof -
  have "a_db st1 = a_db st \<and> a_ws st1 = a_ws st"
    using assms
    by (auto simp: sync_bird_def Let_def split: prod.splits if_splits sum.splits dest: path_exists_keeps on_host_keeps)
  then show "a_db st1 = a_db st" "a_ws st1 = a_ws st" by simp_all
qed

text \<open>What the loop over the requested peers keeps.\<close>

definition sync_inv :: "SyncPeer list \<Rightarrow> 'db agent \<Rightarrow> sync_acc \<times> 'db agent \<Rightarrow> bool" where
  "sync_inv ps st0 s \<longleftrightarrow>
     (let (acc, st) = s in
      a_db st = a_db st0 \<and> a_ws st = a_ws st0 \<and> distinct (map fst (sa_map acc)) \<and>
      fst ` set (sa_map acc) = set (sa_applied acc) \<union> set (sa_failed acc) \<and>
      (\<forall>(k, i) \<in> set (sa_map acc). \<exists>p \<in> set ps. k = sy_PeerID p \<and> i = sync_info p \<and> 0 < sy_ASN p \<and> k \<noteq> []))"

lemma set_alist_update: "set (AList.update k v al) \<subseteq> insert (k, v) (set al)"
  by (induction al) auto

lemma sync_one_inv:
  assumes "sync_inv ps st0 s" "p \<in> set ps"
  shows "sync_inv ps st0 (sync_one E p s)"
proof -
  obtain acc st where s: "s = (acc, st)" by fastforce
  show ?thesis
  proof (cases "sy_ASN p \<le> 0 \<or> sy_PeerID p = []")
    case True
    with assms(1) s show ?thesis by (simp add: sync_one_def)
  next
    case False
    obtain r st1 where w: "sync_wg E p st = (r, st1)" by fastforce
    note k1 = sync_wg_keeps [OF w]
    show ?thesis
    proof (cases r)
      case None
      with False w s assms(1) k1 show ?thesis by (simp add: sync_one_def sync_inv_def)
    next
      case (Some wf)
      obtain bf st2 where b: "sync_bird E p st1 = (bf, st2)" by fastforce
      note k2 = sync_bird_keeps [OF b]
      let ?m = "AList.update (sy_PeerID p) (sync_info p) (sa_map acc)"
      define acc1 where "acc1 = (if wf \<or> bf then acc\<lparr>sa_failed := sa_failed acc @ [sy_PeerID p]\<rparr>
         else acc\<lparr>sa_applied := sa_applied acc @ [sy_PeerID p]\<rparr>)"
      have run: "sync_one E p s = (acc1\<lparr>sa_map := ?m\<rparr>, st2)"
        using False w b Some s by (simp add: sync_one_def Let_def acc1_def)
      have "set (sa_applied acc1) \<union> set (sa_failed acc1) =
          insert (sy_PeerID p) (set (sa_applied acc) \<union> set (sa_failed acc))"
        by (auto simp: acc1_def)
      moreover have "fst ` set ?m = insert (sy_PeerID p) (fst ` set (sa_map acc))"
        using dom_update [of "sy_PeerID p" "sync_info p" "sa_map acc"] by simp
      moreover have "\<forall>(k, i) \<in> set ?m. \<exists>p \<in> set ps. k = sy_PeerID p \<and> i = sync_info p \<and> 0 < sy_ASN p \<and> k \<noteq> []"
      proof -
        have "\<forall>x \<in> insert (sy_PeerID p, sync_info p) (set (sa_map acc)).
            \<exists>p \<in> set ps. fst x = sy_PeerID p \<and> snd x = sync_info p \<and> 0 < sy_ASN p \<and> fst x \<noteq> []"
          using assms s False by (auto simp: sync_inv_def)
        with set_alist_update [of "sy_PeerID p" "sync_info p" "sa_map acc"] show ?thesis by fastforce
      qed
      ultimately show ?thesis
        using assms(1) s k1 k2 unfolding run by (simp add: sync_inv_def distinct_update)
    qed
  qed
qed

lemma sync_fold_inv:
  assumes "sync_inv ps st0 s" "set qs \<subseteq> set ps"
  shows "sync_inv ps st0 (fold (sync_one E) qs s)"
  using assms by (induction qs arbitrary: s) (simp_all add: sync_one_inv)

text \<open>The walk over the store collects exactly the records the new map does not have.\<close>

lemma collect_stale_fold:
  "set (fold (\<lambda>(k, i) s. snd (collect_stale m k i s)) xs acc) =
     set acc \<union> {i. \<exists>k. (k, i) \<in> set xs \<and> map_of m k = None}"
proof (induction xs arbitrary: acc)
  case Nil
  then show ?case by simp
next
  case (Cons x xs)
  obtain k i where x: "x = (k, i)" by fastforce
  from Cons [of "snd (collect_stale m k i acc)"] x show ?case
    by (cases "map_of m k") (auto simp: collect_stale_def)
qed

lemma collect_stale_set:
  assumes "bolt_laws B" "bBegin B db False = None"
  shows "set (snd (ForEachPeer B (collect_stale m) db [])) =
    {i. \<exists>k. peer_of B db k = Some i \<and> map_of m k = None}"
proof -
  have "fst (collect_stale m k i s) = None" for k i s by (simp add: collect_stale_def)
  from for_each_fold [OF this]
  have "snd (ForEachPeer B (collect_stale m) db []) =
      fold (\<lambda>(k, i) s. snd (collect_stale m k i s)) (peer_list (bCursor B db bucketPeers)) []"
    using assms(2) by (simp add: ForEachPeer_def)
  then show ?thesis
    by (simp only: collect_stale_fold) (simp add: set_peer_list_cursor [OF assms(1)])
qed

section \<open>Which entries are taken over\<close>

text \<open>
  An entry is taken over when it has a positive AS number, an id, and a public key or else a WireGuard
  configuration on the machine. \<open>rounds\<close> lists the entries with the states before and after their round, \<open>kept\<close> those that are
  taken over.
\<close>

definition wanted :: "'db env \<Rightarrow> SyncPeer \<Rightarrow> 'db agent \<Rightarrow> bool" where
  "wanted E p st \<longleftrightarrow>
     0 < sy_ASN p \<and> sy_PeerID p \<noteq> [] \<and>
     (sy_RemoteWgPubkey p \<noteq> [] \<or> fst (path_exists E (wg_conf (eWg E) (iface_of (sy_WgInterface p) (sy_ASN p))) st))"

fun rounds :: "'db env \<Rightarrow> SyncPeer list \<Rightarrow> sync_acc \<times> 'db agent \<Rightarrow> (SyncPeer \<times> 'db agent \<times> 'db agent) list" where
  "rounds E [] s = []"
| "rounds E (p # ps) s = (p, snd s, snd (sync_one E p s)) # rounds E ps (sync_one E p s)"

abbreviation sync_start :: sync_acc where
  "sync_start \<equiv> \<lparr>sa_map = [], sa_applied = [], sa_failed = []\<rparr>"

definition kept :: "'db env \<Rightarrow> SyncPeer list \<Rightarrow> 'db agent \<Rightarrow> (SyncPeer \<times> 'db agent \<times> 'db agent) list" where
  "kept E peers st = filter (\<lambda>(p, b, a). wanted E p b) (rounds E peers (sync_start, st))"

text \<open>The table the center asks for: one record for each id, that of its last entry.\<close>

definition ask :: "(string \<rightharpoonup> PeerInfo) \<Rightarrow> SyncPeer \<times> 'a \<Rightarrow> (string \<rightharpoonup> PeerInfo)" where
  "ask T r = T(sy_PeerID (fst r) \<mapsto> sync_info (fst r))"

definition asked_table :: "(SyncPeer \<times> 'a) list \<Rightarrow> (string \<rightharpoonup> PeerInfo)" where
  "asked_table K = foldl ask Map.empty K"

text \<open>A round fails when the WireGuard or the BIRD manager returns an error in it.\<close>

definition round_fails :: "'db env \<Rightarrow> SyncPeer \<Rightarrow> 'db agent \<Rightarrow> bool" where
  "round_fails E p st \<longleftrightarrow>
     (case sync_wg E p st of (r, st1) \<Rightarrow> r = Some True \<or> fst (sync_bird E p st1))"

text \<open>
  What a round that does not fail has brought about: the interface is up when the entry has a public
  key, and the BIRD file existed or was written and read by BIRD.
\<close>

definition synced :: "'db env \<Rightarrow> SyncPeer \<Rightarrow> 'db agent \<Rightarrow> 'db agent \<Rightarrow> bool" where
  "synced E p b a \<longleftrightarrow>
     (sy_RemoteWgPubkey p \<noteq> [] \<longrightarrow> iface_of (sy_WgInterface p) (sy_ASN p) \<in> set (ifaces (a_host a))) \<and>
     (fst (path_exists E (bird_path E (pi_BirdConfigFilename (sync_info p))) (snd (sync_wg E p b))) \<or>
      map_option content (fs_read (a_host a) (bird_conf (eBird E) (sy_ASN p))) =
        Some (bird_render \<lparr>bc_ASN = sy_ASN p, bc_ASNSuffix = itoa (sy_ASN p), bc_RemoteLLA = sy_RemoteLLA p,
          bc_WgInterface = iface_of (sy_WgInterface p) (sy_ASN p)\<rparr>) \<and>
      loaded (a_host a) = files (a_host a))"

text \<open>
  What has gone wrong in a round that fails: \<open>AddPeerWithIface\<close> gave an error on the machine as it was
  before the round, or the round ended with an error of \<open>AddPeer\<close> of the BIRD manager.
\<close>

definition manager_error :: "'db env \<Rightarrow> SyncPeer \<Rightarrow> 'db agent \<Rightarrow> 'db agent \<Rightarrow> bool" where
  "manager_error E p b a \<longleftrightarrow>
     (\<exists>h e h'. outside {} (a_host b) h \<and> ifaces h = ifaces (a_host b) \<and>
        AddPeerWithIface (eOs E) (eWg E) (iface_of (sy_WgInterface p) (sy_ASN p)) (sy_ASN p) (sy_ListenPort p)
          (sy_RemoteWgPubkey p) (sy_RemoteEndpoint p) (sy_MTU p) (sy_WgPreSharedKey p) h = (Inl e, h')) \<or>
     (\<exists>h e. bird_AddPeer (eOs E) (eBird E) (sy_ASN p) (sy_RemoteLLA p) (iface_of (sy_WgInterface p) (sy_ASN p)) h =
        (Inl e, a_host a))"

lemma sync_wg_skips:
  "fst (sync_wg E p st) = None \<longleftrightarrow>
     sy_RemoteWgPubkey p = [] \<and> \<not> fst (path_exists E (wg_conf (eWg E) (iface_of (sy_WgInterface p) (sy_ASN p))) st)"
  by (auto simp: sync_wg_def wg_conf_def Let_def split: prod.splits sum.splits if_splits)

lemma sync_one_skips: "\<not> wanted E p st \<Longrightarrow> fst (sync_one E p (acc, st)) = acc"
  using sync_wg_skips [of E p st] by (auto simp: sync_one_def wanted_def split: prod.splits option.splits)

lemma sync_one_keeps:
  assumes "wanted E p st"
  shows "sync_one E p (acc, st) =
    ((if round_fails E p st then acc\<lparr>sa_failed := sa_failed acc @ [sy_PeerID p]\<rparr>
      else acc\<lparr>sa_applied := sa_applied acc @ [sy_PeerID p]\<rparr>)
       \<lparr>sa_map := AList.update (sy_PeerID p) (sync_info p) (sa_map acc)\<rparr>,
     snd (sync_bird E p (snd (sync_wg E p st))))"
proof -
  obtain r st1 where w: "sync_wg E p st = (r, st1)" by fastforce
  then obtain f where r: "r = Some f" using assms sync_wg_skips [of E p st] by (auto simp: wanted_def)
  obtain g st2 where b: "sync_bird E p st1 = (g, st2)" by fastforce
  show ?thesis using assms w r b by (auto simp: sync_one_def wanted_def round_fails_def Let_def)
qed

lemma sync_fold_kept:
  assumes "fold (sync_one E) ps (acc, st) = (acc', st')"
    and "K = filter (\<lambda>(p, b, a). wanted E p b) (rounds E ps (acc, st))"
  shows "map_of (sa_map acc') = foldl ask (map_of (sa_map acc)) K \<and>
    sa_applied acc' = sa_applied acc @ map (\<lambda>r. sy_PeerID (fst r)) (filter (\<lambda>(p, b, a). \<not> round_fails E p b) K) \<and>
    sa_failed acc' = sa_failed acc @ map (\<lambda>r. sy_PeerID (fst r)) (filter (\<lambda>(p, b, a). round_fails E p b) K)"
  using assms
proof (induction ps arbitrary: acc st K)
  case Nil
  then show ?case by simp
next
  case (Cons p ps)
  obtain acc1 st1 where one: "sync_one E p (acc, st) = (acc1, st1)" by fastforce
  define K1 where "K1 = filter (\<lambda>(p, b, a). wanted E p b) (rounds E ps (acc1, st1))"
  note IH = Cons.IH [where acc = acc1 and st = st1, OF _ K1_def]
  show ?case
  proof (cases "wanted E p st")
    case False
    then have "acc1 = acc" using sync_one_skips [OF False, of acc] one by simp
    with IH Cons.prems one False show ?thesis by (simp add: K1_def)
  next
    case True
    note k = sync_one_keeps [OF True, of acc]
    have "K = (p, st, st1) # K1" using Cons.prems(2) one True by (simp add: K1_def)
    moreover have "map_of (sa_map acc1) = ask (map_of (sa_map acc)) (p, st, st1)"
      using one k by (auto simp: ask_def update_conv')
    ultimately show ?thesis using IH Cons.prems(1) one k by (cases "round_fails E p st") auto
  qed
qed

lemma path_exists_frame:
  assumes "path_exists E p st = (b, st1)"
  shows "ifaces (a_host st1) = ifaces (a_host st)" "outside A (a_host st) (a_host st1)"
    "loaded (a_host st1) = loaded (a_host st)" "files (a_host st1) = files (a_host st)"
proof -
  obtain r st2 where s: "on_host (os_stat (eOs E) p) st = (r, st2)" by fastforce
  have "a_host st1 = a_host st2" using assms s by (auto simp: path_exists_def split: sum.splits)
  moreover have "a_host st2 = tock (a_host st)"
    using os_stat_frame [OF conjunct1 [OF on_host_split [OF s]]] .
  ultimately show "ifaces (a_host st1) = ifaces (a_host st)" "outside A (a_host st) (a_host st1)"
    "loaded (a_host st1) = loaded (a_host st)" "files (a_host st1) = files (a_host st)"
    by (simp_all add: outside_def)
qed

lemma sync_wg_up:
  assumes "env_ok E" "wg_iface (iface_of (sy_WgInterface p) (sy_ASN p))"
    and "sync_wg E p st = (Some False, st1)" "sy_RemoteWgPubkey p \<noteq> []"
  shows "iface_of (sy_WgInterface p) (sy_ASN p) \<in> set (ifaces (a_host st1))"
proof -
  let ?i = "iface_of (sy_WgInterface p) (sy_ASN p)"
  have tools: "wg_tools (eOs E)" using assms(1) by (simp add: env_ok_def)
  obtain ex s1 where x: "path_exists E (path_join (wgDir (eWg E)) (?i @ ''.conf'')) st = (ex, s1)" by fastforce
  obtain up s2 where u: "(if ex then on_host (IsPeerUp (eOs E) ?i) s1 else (False, s1)) = (up, s2)" by fastforce
  show ?thesis
  proof (cases "ex \<and> up")
    case True
    with u have "on_host (IsPeerUp (eOs E) ?i) s1 = (up, s2)" by simp
    from peer_up_run [OF assms(1,2) this] True have "?i \<in> set (ifaces (a_host s2))" by simp
    then show ?thesis using assms(3,4) x u True by (simp add: sync_wg_def Let_def)
  next
    case False
    obtain r s3 where a: "on_host (AddPeerWithIface (eOs E) (eWg E) ?i (sy_ASN p) (sy_ListenPort p)
        (sy_RemoteWgPubkey p) (sy_RemoteEndpoint p) (sy_MTU p) (sy_WgPreSharedKey p)) s2 = (r, s3)" by fastforce
    then have "is_ok r" "st1 = s3" using assms(3,4) x u False
      by (auto simp: sync_wg_def Let_def is_ok_def split: sum.splits if_splits)
    then show ?thesis
      using AddPeerWithIface_run(3) [OF tools assms(2) conjunct1 [OF on_host_split [OF a]]] by simp
  qed
qed

lemma sync_bird_run:
  assumes "env_ok E" "sync_bird E p st = (f, st1)"
  shows "ifaces (a_host st1) = ifaces (a_host st)"
    "\<not> f \<Longrightarrow> fst (path_exists E (bird_path E (pi_BirdConfigFilename (sync_info p))) st) \<or>
      map_option content (fs_read (a_host st1) (bird_conf (eBird E) (sy_ASN p))) =
        Some (bird_render \<lparr>bc_ASN = sy_ASN p, bc_ASNSuffix = itoa (sy_ASN p), bc_RemoteLLA = sy_RemoteLLA p,
          bc_WgInterface = iface_of (sy_WgInterface p) (sy_ASN p)\<rparr>) \<and>
      loaded (a_host st1) = files (a_host st1)"
proof -
  let ?q = "bird_path E (pi_BirdConfigFilename (sync_info p))"
  have tools: "birdc_tools (eOs E) (birdcPath (eBird E))" using assms(1) by (simp add: env_ok_def)
  obtain ex s1 where x: "path_exists E ?q st = (ex, s1)" by fastforce
  obtain r s2 where a: "on_host (bird_AddPeer (eOs E) (eBird E) (sy_ASN p) (sy_RemoteLLA p)
      (iface_of (sy_WgInterface p) (sy_ASN p))) s1 = (r, s2)" by fastforce
  note b = bird_AddPeer_run [OF tools conjunct1 [OF on_host_split [OF a]]]
  have st1: "st1 = (if ex then s1 else s2)" "f \<longleftrightarrow> \<not> ex \<and> \<not> is_ok r"
    using assms(2) x a by (auto simp: sync_bird_def sync_info_def bird_path_def Let_def is_ok_def split: sum.splits if_splits)
  show "ifaces (a_host st1) = ifaces (a_host st)" using st1(1) b(2) path_exists_frame(1) [OF x] by simp
  show "\<not> f \<Longrightarrow> fst (path_exists E ?q st) \<or>
      map_option content (fs_read (a_host st1) (bird_conf (eBird E) (sy_ASN p))) =
        Some (bird_render \<lparr>bc_ASN = sy_ASN p, bc_ASNSuffix = itoa (sy_ASN p), bc_RemoteLLA = sy_RemoteLLA p,
          bc_WgInterface = iface_of (sy_WgInterface p) (sy_ASN p)\<rparr>) \<and>
      loaded (a_host st1) = files (a_host st1)"
    using st1 b(3,4) x by auto
qed

lemma round_synced:
  assumes "env_ok E" "wg_iface (iface_of (sy_WgInterface p) (sy_ASN p))" "wanted E p st" "\<not> round_fails E p st"
  shows "synced E p st (snd (sync_one E p (acc, st)))"
proof -
  obtain r st1 where w: "sync_wg E p st = (r, st1)" by fastforce
  then have r: "r = Some False" using assms(3,4) sync_wg_skips [of E p st]
    by (cases r) (auto simp: wanted_def round_fails_def)
  obtain g st2 where b: "sync_bird E p st1 = (g, st2)" by fastforce
  have "\<not> g" using assms(4) w b by (simp add: round_fails_def)
  with sync_bird_run [OF assms(1) b] sync_wg_up [OF assms(1,2) w [unfolded r]] show ?thesis
    using w b unfolding synced_def sync_one_keeps [OF assms(3), of acc] by simp
qed

lemma sync_wg_error:
  assumes "env_ok E" "wg_iface (iface_of (sy_WgInterface p) (sy_ASN p))" "sync_wg E p b = (Some True, st1)"
  shows "manager_error E p b a"
proof -
  let ?i = "iface_of (sy_WgInterface p) (sy_ASN p)"
  obtain ex s1 where x: "path_exists E (path_join (wgDir (eWg E)) (?i @ ''.conf'')) b = (ex, s1)" by fastforce
  obtain up s2 where u: "(if ex then on_host (IsPeerUp (eOs E) ?i) s1 else (False, s1)) = (up, s2)" by fastforce
  have "outside {} (a_host s1) (a_host s2) \<and> ifaces (a_host s2) = ifaces (a_host s1)"
    using u peer_up_run(2,3) [OF assms(1,2), of s1 up s2] by (auto split: if_splits)
  then have "outside {} (a_host b) (a_host s2)" "ifaces (a_host s2) = ifaces (a_host b)"
    using path_exists_frame(1,2) [OF x] by (auto simp: outside_def)
  moreover obtain e h' where "AddPeerWithIface (eOs E) (eWg E) ?i (sy_ASN p) (sy_ListenPort p) (sy_RemoteWgPubkey p)
      (sy_RemoteEndpoint p) (sy_MTU p) (sy_WgPreSharedKey p) (a_host s2) = (Inl e, h')"
    using assms(3) x u by (auto simp: sync_wg_def on_host_def Let_def split: if_splits sum.splits prod.splits)
  ultimately show ?thesis unfolding manager_error_def by blast
qed

lemma sync_bird_error:
  assumes "sync_bird E p b = (True, a)"
  shows "manager_error E p b' a"
  using assms by (auto simp: manager_error_def sync_bird_def on_host_def Let_def split: if_splits sum.splits prod.splits)

lemma round_error:
  assumes "env_ok E" "wg_iface (iface_of (sy_WgInterface p) (sy_ASN p))" "wanted E p st" "round_fails E p st"
  shows "manager_error E p st (snd (sync_one E p (acc, st)))"
proof -
  obtain r st1 where w: "sync_wg E p st = (r, st1)" by fastforce
  obtain g st2 where b: "sync_bird E p st1 = (g, st2)" by fastforce
  have "r = Some True \<or> g" using assms(4) w b by (simp add: round_fails_def)
  moreover have "snd (sync_one E p (acc, st)) = st2" using w b by (simp add: sync_one_keeps [OF assms(3)])
  ultimately show ?thesis using sync_wg_error [OF assms(1,2)] sync_bird_error w b by metis
qed

lemma rounds_synced:
  assumes "env_ok E" "\<forall>p \<in> set ps. wg_iface (iface_of (sy_WgInterface p) (sy_ASN p))"
  shows "\<forall>(p, b, a) \<in> set (rounds E ps s). wanted E p b \<longrightarrow>
    (if round_fails E p b then manager_error E p b a else synced E p b a)"
  using assms(2)
proof (induction ps arbitrary: s)
  case Nil
  then show ?case by simp
next
  case (Cons p ps)
  with round_synced [OF assms(1), of p "snd s" "fst s"] round_error [OF assms(1), of p "snd s" "fst s"] show ?case
    by simp
qed

section \<open>Tearing down what is stale\<close>

definition stale_iface :: "PeerInfo \<Rightarrow> string" where
  "stale_iface i = iface_of (pi_WgInterface i) (pi_ASN i)"

definition stale_bird :: "'db env \<Rightarrow> PeerInfo \<Rightarrow> string" where
  "stale_bird E i = (if pi_BirdConfigFilename i \<noteq> [] then bird_path E (pi_BirdConfigFilename i)
     else bird_conf (eBird E) (pi_ASN i))"

definition bird_down :: "'db env \<Rightarrow> PeerInfo \<Rightarrow> host \<Rightarrow> host" where
  "bird_down E i h = snd (reloadLocked (eOs E) (eBird E) (snd (os_remove (eOs E) (stale_bird E i) h)))"

definition tear_down :: "'db env \<Rightarrow> PeerInfo \<Rightarrow> host \<Rightarrow> host" where
  "tear_down E i h = snd (RemovePeerByIface (eOs E) (eWg E) (stale_iface i) (bird_down E i h))"

text \<open>
  What is left of a stale peer in \<open>h'\<close> after it was torn down from \<open>h\<close>: its files are gone where the file system lets the
  agent remove them, BIRD does not run its session when the reload worked, and its interface
  exists only if \<open>wg-quick down\<close> failed.
\<close>

definition torn_down :: "'db env \<Rightarrow> PeerInfo \<Rightarrow> host \<Rightarrow> host \<Rightarrow> bool" where
  "torn_down E i h h' \<longleftrightarrow>
     (\<forall>q \<in> {stale_bird E i, wg_conf (eWg E) (stale_iface i)}. no_remove_fault E q \<longrightarrow> fs_read h' q = None) \<and>
     (no_remove_fault E (stale_bird E i) \<and> reload_works (eOs E) (eBird E) (stale_bird E i) h \<longrightarrow>
        map_of (loaded h') (stale_bird E i) = None) \<and>
     (stale_iface i \<in> set (ifaces h') \<longrightarrow> down_fails E (stale_iface i) (bird_down E i h))"

lemma remove_stale_host: "remove_stale E i st = st\<lparr>a_host := tear_down E i (a_host st)\<rparr>"
  by (simp add: remove_stale_def tear_down_def bird_down_def stale_iface_def stale_bird_def bird_path_def
      RemovePeerByFilename_def bird_RemovePeer_def on_host_def Let_def split: prod.splits)

lemma remove_stale_fold: "fold (remove_stale E) is st = st\<lparr>a_host := fold (tear_down E) is (a_host st)\<rparr>"
  by (induction "is" arbitrary: st) (simp_all add: remove_stale_host)

lemma bird_down_run:
  assumes "env_ok E"
  shows "ifaces (bird_down E i h) = ifaces h"
    "fs_read h q = None \<Longrightarrow> fs_read (bird_down E i h) q = None"
    "no_remove_fault E (stale_bird E i) \<Longrightarrow> fs_read (bird_down E i h) (stale_bird E i) = None"
    "loaded (bird_down E i h) =
       (if reload_works (eOs E) (eBird E) (stale_bird E i) h then files (bird_down E i h) else loaded h)"
proof -
  have tools: "birdc_tools (eOs E) (birdcPath (eBird E))" using assms(1) by (simp add: env_ok_def)
  obtain r h' where run: "reloadLocked (eOs E) (eBird E) (snd (os_remove (eOs E) (stale_bird E i) h)) = (r, h')"
    by fastforce
  note x = bird_remove_run [OF tools run] and l = bird_remove_loaded(1) [OF tools run]
  have h': "bird_down E i h = h'" using run by (simp add: bird_down_def)
  show "ifaces (bird_down E i h) = ifaces h"
    "no_remove_fault E (stale_bird E i) \<Longrightarrow> fs_read (bird_down E i h) (stale_bird E i) = None"
    "loaded (bird_down E i h) =
       (if reload_works (eOs E) (eBird E) (stale_bird E i) h then files (bird_down E i h) else loaded h)"
    using x(2,3,5) l by (simp_all add: h' no_remove_fault_def)
  show "fs_read h q = None \<Longrightarrow> fs_read (bird_down E i h) q = None"
    using x(4) outsideD [OF x(1), of q] by (cases "q = stale_bird E i") (auto simp: h')
qed

lemma tear_down_run:
  assumes "env_ok E" "wg_iface (stale_iface i)"
  shows "set (ifaces (tear_down E i h)) \<subseteq> set (ifaces h)"
    "fs_read h q = None \<Longrightarrow> fs_read (tear_down E i h) q = None"
    "fs_read h q = None \<Longrightarrow> map_of (loaded h) q = None \<Longrightarrow> map_of (loaded (tear_down E i h)) q = None"
    "torn_down E i h (tear_down E i h)"
proof -
  let ?w = "wg_conf (eWg E) (stale_iface i)"
  have tools: "wg_tools (eOs E)" using assms(1) by (simp add: env_ok_def)
  note b = bird_down_run [OF assms(1), where i = i and h = h] and w = remove_iface_run [OF assms, of "eWg E" "bird_down E i h", folded tear_down_def]
  obtain r h' where run: "RemovePeerByIface (eOs E) (eWg E) (stale_iface i) (bird_down E i h) = (r, h')" by fastforce
  note x = RemovePeerByIface_run(5,6) [OF tools assms(2) run]
  have h': "h' = tear_down E i h" using run by (simp add: tear_down_def)
  have same: "fs_read (bird_down E i h) q = None \<Longrightarrow> fs_read (tear_down E i h) q = None" for q
    using x(1) outsideD [OF w(2), of q] h' by (cases "q = ?w") auto
  show "set (ifaces (tear_down E i h)) \<subseteq> set (ifaces h)" using w(3) b(1) by auto
  show "fs_read h q = None \<Longrightarrow> fs_read (tear_down E i h) q = None" using same b(2) by blast
  show "fs_read h q = None \<Longrightarrow> map_of (loaded h) q = None \<Longrightarrow> map_of (loaded (tear_down E i h)) q = None"
    using w(4) b(2) [of q] b(4) by (simp add: fs_read_def)
  have "map_of (loaded (tear_down E i h)) (stale_bird E i) = None"
    if "no_remove_fault E (stale_bird E i)" "reload_works (eOs E) (eBird E) (stale_bird E i) h"
    using that w(4) b(3,4) by (simp add: fs_read_def)
  moreover have "no_remove_fault E ?w \<Longrightarrow> fs_read (tear_down E i h) ?w = None"
    using x(2) h' by (simp add: no_remove_fault_def)
  moreover have "no_remove_fault E (stale_bird E i) \<Longrightarrow> fs_read (tear_down E i h) (stale_bird E i) = None"
    using same b(3) by blast
  ultimately show "torn_down E i h (tear_down E i h)" unfolding torn_down_def using w(1) by auto
qed

lemma tear_down_fold:
  assumes "env_ok E" "\<forall>i \<in> set js. wg_iface (stale_iface i)"
  shows "set (ifaces (fold (tear_down E) js h)) \<subseteq> set (ifaces h) \<and>
    (fs_read h q = None \<longrightarrow> fs_read (fold (tear_down E) js h) q = None) \<and>
    (fs_read h q = None \<longrightarrow> map_of (loaded h) q = None \<longrightarrow> map_of (loaded (fold (tear_down E) js h)) q = None)"
  using assms(2)
proof (induction js arbitrary: h)
  case Nil
  then show ?case by simp
next
  case (Cons j js)
  have j: "wg_iface (stale_iface j)" using Cons.prems by simp
  note t = tear_down_run [OF assms(1) j, of h]
  have IH: "set (ifaces (fold (tear_down E) js (tear_down E j h))) \<subseteq> set (ifaces (tear_down E j h))"
    "fs_read (tear_down E j h) q = None \<Longrightarrow> fs_read (fold (tear_down E) js (tear_down E j h)) q = None"
    "fs_read (tear_down E j h) q = None \<Longrightarrow> map_of (loaded (tear_down E j h)) q = None \<Longrightarrow>
       map_of (loaded (fold (tear_down E) js (tear_down E j h))) q = None"
    using Cons.IH [of "tear_down E j h"] Cons.prems by simp_all
  from IH t(1) t(2,3) [of q] show ?case by auto
qed

lemma torn_down_stays:
  assumes "env_ok E" "\<forall>j \<in> set (i # js). wg_iface (stale_iface j)"
  shows "torn_down E i h (fold (tear_down E) js (tear_down E i h))"
proof -
  have i: "wg_iface (stale_iface i)" "\<forall>j \<in> set js. wg_iface (stale_iface j)" using assms(2) by simp_all
  note t = tear_down_run(4) [OF assms(1) i(1), of h] and f = tear_down_fold [OF assms(1) i(2), of "tear_down E i h"]
  show ?thesis
    unfolding torn_down_def
  proof (intro conjI ballI impI)
    fix q assume "q \<in> {stale_bird E i, wg_conf (eWg E) (stale_iface i)}" "no_remove_fault E q"
    then have "fs_read (tear_down E i h) q = None" using t by (auto simp: torn_down_def)
    then show "fs_read (fold (tear_down E) js (tear_down E i h)) q = None" using f by blast
  next
    assume "no_remove_fault E (stale_bird E i) \<and> reload_works (eOs E) (eBird E) (stale_bird E i) h"
    then have "map_of (loaded (tear_down E i h)) (stale_bird E i) = None" "fs_read (tear_down E i h) (stale_bird E i) = None"
      using t by (auto simp: torn_down_def)
    then show "map_of (loaded (fold (tear_down E) js (tear_down E i h))) (stale_bird E i) = None" using f by blast
  next
    assume "stale_iface i \<in> set (ifaces (fold (tear_down E) js (tear_down E i h)))"
    then have "stale_iface i \<in> set (ifaces (tear_down E i h))" using f by blast
    then show "down_fails E (stale_iface i) (bird_down E i h)" using t by (simp add: torn_down_def)
  qed
qed

section \<open>Properties\<close>

text \<open>\<open>range\<close> walks a map in some order.\<close>

definition range_ok :: "'db env \<Rightarrow> bool" where
  "range_ok E \<longleftrightarrow> (\<forall>m. set (eRange E m) = set m \<and> length (eRange E m) = length m)"

lemma range_ok_map:
  assumes "range_ok E" "distinct (map fst m)"
  shows "distinct (map fst (eRange E m))" "map_of (eRange E m) = map_of m"
proof -
  have "card (set (map fst (eRange E m))) = length (map fst (eRange E m))"
    using assms distinct_card [OF assms(2)] by (simp add: range_ok_def image_set [symmetric])
  then show d: "distinct (map fst (eRange E m))" by (rule card_distinct)
  show "map_of (eRange E m) = map_of m"
    using assms(1) by (subst map_of_inject_set [OF d assms(2)]) (simp add: range_ok_def)
qed

text \<open>
  What the handler does after the loop: the table is replaced by that of the loop, and what it does not have is torn
  down.
\<close>

lemma handlePeersSync_run:
  assumes "env_ok E" "range_ok E" "unmarshal sync_dec (m_Payload msg) = Some peers"
    and "\<forall>p \<in> set peers. info_ok (sync_info p)" "bBegin (eBolt E) (a_db st) False = None"
    and "fold (sync_one E) peers (sync_start, st) = (acc, st1)"
  shows "\<exists>ps stale. distinct (map fst ps) \<and> map_of ps = map_of (sa_map acc) \<and>
    set stale = {i. \<exists>k. peer_of (eBolt E) (a_db st) k = Some i \<and> map_of (sa_map acc) k = None} \<and>
    peer_of (eBolt E) (snd (ReplaceAll (eBolt E) ps (a_db st))) =
      (if is_ok (fst (ReplaceAll (eBolt E) ps (a_db st))) then map_of (sa_map acc) else peer_of (eBolt E) (a_db st)) \<and>
    handlePeersSync E msg st = send_msg E (payload_msg (m_ID msg) None
      (JObj [(''applied'', JArr (map JStr (sa_applied acc))), (''failed'', JArr (map JStr (sa_failed acc)))]))
      (st1\<lparr>a_db := snd (ReplaceAll (eBolt E) ps (a_db st)), a_host := fold (tear_down E) stale (a_host st1)\<rparr>)"
proof -
  let ?B = "eBolt E" and ?ps = "eRange E (sa_map acc)"
  have laws: "bolt_laws ?B" using assms(1) by (simp add: env_ok_def)
  have inv: "sync_inv peers st (acc, st1)"
    using sync_fold_inv [of peers st _ peers E] assms(6) [symmetric] by (simp add: sync_inv_def)
  then have st1: "a_db st1 = a_db st" and d: "distinct (map fst (sa_map acc))" by (simp_all add: sync_inv_def)
  have ok: "\<forall>(k, i) \<in> set ?ps. info_ok i"
    using inv assms(2,4) by (fastforce simp: sync_inv_def range_ok_def)
  note range = range_ok_map [OF assms(2) d]
  obtain r db where repl: "ReplaceAll ?B ?ps (a_db st) = (r, db)" by fastforce
  define stale where "stale = snd (ForEachPeer ?B (collect_stale (sa_map acc)) (a_db st1) [])"
  have "set stale = {i. \<exists>k. peer_of ?B (a_db st) k = Some i \<and> map_of (sa_map acc) k = None}"
    using collect_stale_set [OF laws, of "a_db st1" "sa_map acc"] assms(5) st1 by (simp add: stale_def)
  moreover have "peer_of ?B db = (if is_ok r then map_of (sa_map acc) else peer_of ?B (a_db st))"
    using peer_table.repl_look [OF laws ok range(1) repl] range(2) by simp
  moreover have "handlePeersSync E msg st = send_msg E (payload_msg (m_ID msg) None
      (JObj [(''applied'', JArr (map JStr (sa_applied acc))), (''failed'', JArr (map JStr (sa_failed acc)))]))
      (st1\<lparr>a_db := db, a_host := fold (tear_down E) stale (a_host st1)\<rparr>)"
    using assms(3,6) repl st1
    by (simp add: handlePeersSync_def Let_def stale_def remove_stale_fold on_db_def)
  ultimately show ?thesis using range repl by (intro exI [of _ ?ps] exI [of _ stale]) simp
qed

text \<open>
  C2: \<open>peers.sync\<close> makes the store and the machine follow the center. The entries taken over are exactly those with a
  positive AS number, an id, and a public key or an existing configuration. The one answer lists them as failed or as applied. In the
  round of a failed one the WireGuard or the BIRD manager has returned an error; after the round of an applied one the interface is up,
  when the entry has a public key, and the BIRD file was there or has been written and read. The stored table becomes exactly the records of the entries taken over, the
  last one for each id, when BoltDB accepts the replacement, and stays as it was when it does not. Then the
  records that the request does not have, and no others, are torn down one after the other: their files are removed, BIRD is reloaded
  without them, and their interfaces are down unless \<open>wg-quick down\<close> failed.
\<close>

theorem peers_sync_follows_center:
  assumes "env_ok E" "range_ok E" "unmarshal sync_dec (m_Payload msg) = Some peers"
    and "\<forall>p \<in> set peers. info_ok (sync_info p) \<and> wg_iface (iface_of (sy_WgInterface p) (sy_ASN p))"
    and "bBegin (eBolt E) (a_db st) False = None"
    and "\<forall>k i. peer_of (eBolt E) (a_db st) k = Some i \<longrightarrow> wg_iface (stale_iface i)"
    and "st' = handlePeersSync E msg st" "K = kept E peers st"
  shows "answers E msg st st' (payload_msg (m_ID msg) None
      (JObj [(''applied'', JArr (map (\<lambda>r. JStr (sy_PeerID (fst r))) (filter (\<lambda>(p, b, a). \<not> round_fails E p b) K))),
             (''failed'', JArr (map (\<lambda>r. JStr (sy_PeerID (fst r))) (filter (\<lambda>(p, b, a). round_fails E p b) K)))])) \<and>
    (\<forall>(p, b, a) \<in> set K. if round_fails E p b then manager_error E p b a else synced E p b a) \<and>
    (\<exists>ps. distinct (map fst ps) \<and> map_of ps = asked_table K \<and>
       a_db st' = snd (ReplaceAll (eBolt E) ps (a_db st)) \<and>
       peer_of (eBolt E) (a_db st') =
         (if is_ok (fst (ReplaceAll (eBolt E) ps (a_db st))) then asked_table K else peer_of (eBolt E) (a_db st))) \<and>
    (\<exists>stale h. set stale = {i. \<exists>k. peer_of (eBolt E) (a_db st) k = Some i \<and> asked_table K k = None} \<and>
       h = a_host (snd (fold (sync_one E) peers (sync_start, st))) \<and>
       a_host st' = fold (tear_down E) stale h \<and>
       (\<forall>js i js'. stale = js @ i # js' \<longrightarrow> torn_down E i (fold (tear_down E) js h) (a_host st')))"
proof -
  obtain acc st1 where loop: "fold (sync_one E) peers (sync_start, st) = (acc, st1)" by fastforce
  have k: "map_of (sa_map acc) = asked_table K"
    "map JStr (sa_applied acc) = map (\<lambda>r. JStr (sy_PeerID (fst r))) (filter (\<lambda>(p, b, a). \<not> round_fails E p b) K)"
    "map JStr (sa_failed acc) = map (\<lambda>r. JStr (sy_PeerID (fst r))) (filter (\<lambda>(p, b, a). round_fails E p b) K)"
    using sync_fold_kept [OF loop assms(8) [unfolded kept_def]] by (simp_all add: asked_table_def comp_def)
  have "sync_inv peers st (acc, st1)"
    using sync_fold_inv [of peers st _ peers E] loop [symmetric] by (simp add: sync_inv_def)
  then have ws: "a_ws st1 = a_ws st" by (simp add: sync_inv_def)
  have "\<forall>p \<in> set peers. info_ok (sync_info p)" using assms(4) by blast
  from handlePeersSync_run [OF assms(1-3) this assms(5) loop]
  obtain ps stale where ps: "distinct (map fst ps)" "map_of ps = asked_table K"
    "peer_of (eBolt E) (snd (ReplaceAll (eBolt E) ps (a_db st))) =
      (if is_ok (fst (ReplaceAll (eBolt E) ps (a_db st))) then asked_table K else peer_of (eBolt E) (a_db st))"
    and stale: "set stale = {i. \<exists>k. peer_of (eBolt E) (a_db st) k = Some i \<and> asked_table K k = None}"
    and run: "st' = send_msg E (payload_msg (m_ID msg) None
      (JObj [(''applied'', JArr (map JStr (sa_applied acc))), (''failed'', JArr (map JStr (sa_failed acc)))]))
      (st1\<lparr>a_db := snd (ReplaceAll (eBolt E) ps (a_db st)), a_host := fold (tear_down E) stale (a_host st1)\<rparr>)"
    using assms(7) unfolding k(1) by blast
  have st': "a_db st' = snd (ReplaceAll (eBolt E) ps (a_db st))" "a_host st' = fold (tear_down E) stale (a_host st1)"
    by (simp_all add: run)
  have "answers E msg st st' (payload_msg (m_ID msg) None
      (JObj [(''applied'', JArr (map JStr (sa_applied acc))), (''failed'', JArr (map JStr (sa_failed acc)))]))"
    unfolding run using ws by (intro answers_payload) simp
  moreover have "\<forall>(p, b, a) \<in> set K. if round_fails E p b then manager_error E p b a else synced E p b a"
    using rounds_synced [OF assms(1), of peers "(sync_start, st)"] assms(4) unfolding assms(8) kept_def by fastforce
  moreover have "torn_down E i (fold (tear_down E) js (a_host st1)) (a_host st')" if "stale = js @ i # js'" for js i js'
  proof -
    have "\<forall>j \<in> set (i # js'). wg_iface (stale_iface j)" using that stale assms(6) by auto
    from torn_down_stays [OF assms(1) this] show ?thesis by (simp add: st'(2) that)
  qed
  ultimately show ?thesis unfolding k(2,3) using ps stale st' loop by (metis (no_types, lifting) snd_conv)
qed

lemma demo_range_ok: "range_ok (demo_env bad out)"
  by (simp add: range_ok_def)

lemma put_peers_mem:
  "\<forall>k \<in> fst ` set ps. k \<noteq> [] \<Longrightarrow> \<exists>tx'. put_peers mem_bolt ps tx = Inr tx'"
  by (induction ps arbitrary: tx) (auto simp: mem_bolt_def)

lemma delete_keys_mem: "\<exists>tx'. delete_keys mem_bolt ks tx = Inr tx'"
  by (induction ks arbitrary: tx) (simp_all add: mem_bolt_def)

lemma replace_mem: "\<forall>k \<in> fst ` set ps. k \<noteq> [] \<Longrightarrow> is_ok (fst (ReplaceAll mem_bolt ps db))"
proof -
  assume keys: "\<forall>k \<in> fst ` set ps. k \<noteq> []"
  obtain tx where tx: "delete_keys mem_bolt (map fst (bCursor mem_bolt db bucketPeers)) db = Inr tx"
    using delete_keys_mem by blast
  obtain tx' where "put_peers mem_bolt ps tx = Inr tx'" using put_peers_mem [OF keys] by blast
  with tx show ?thesis by (simp add: ReplaceAll_def db_update_def) (simp add: mem_bolt_def)
qed

text \<open>A request with one new peer, sent to an agent that has another one stored.\<close>

definition demo_sync_msg :: Message where
  "demo_sync_msg = \<lparr>m_Type = ''peers.sync'', m_ID = ''r3'',
     m_Payload = Some (JObj [(''peers'', JArr [JObj [(''peer_id'', JStr ''p2''), (''asn'', JNum ''4242420002''),
       (''remote_endpoint'', JStr ''h:1''), (''remote_wg_pubkey'', JStr ''PUB''), (''remote_lla'', JStr ''fe80::3''),
       (''listen_port'', JNum ''51821'')]])]),
     m_Success = None, m_Error = []\<rparr>"

definition demo_sync_peer :: SyncPeer where
  "demo_sync_peer = \<lparr>sy_PeerID = ''p2'', sy_ASN = 4242420002, sy_RemoteEndpoint = ''h:1'', sy_RemoteWgPubkey = ''PUB'',
     sy_RemoteLLA = ''fe80::3'', sy_ListenPort = 51821, sy_WgInterface = [], sy_BgpProtoName = [],
     sy_BirdConfigFilename = [], sy_MTU = None, sy_WgPreSharedKey = None\<rparr>"

lemma demo_sync_dec: "unmarshal sync_dec (m_Payload demo_sync_msg) = Some [demo_sync_peer]"
  by (simp add: unmarshal_def demo_sync_msg_def sync_dec_def sync_peer_dec_def get_field_def
      jfield_def upper_char_def demo_sync_peer_def int64_read_def parse_int64_def parse_uint64_def Let_def
      is_digit_def digit_val_def)

lemma demo_sync_ok:
  "info_ok (sync_info demo_sync_peer)" "wg_iface (iface_of (sy_WgInterface demo_sync_peer) (sy_ASN demo_sync_peer))"
proof -
  have "iface_of (sy_WgInterface demo_sync_peer) (sy_ASN demo_sync_peer) = InterfaceName 4242420002"
    by (simp add: iface_of_def demo_sync_peer_def)
  then show "wg_iface (iface_of (sy_WgInterface demo_sync_peer) (sy_ASN demo_sync_peer))"
    by (simp add: wg_iface_InterfaceName)
  show "info_ok (sync_info demo_sync_peer)"
    using itoa_ascii [of _ 4242420002]
    by (auto simp: info_ok_def sync_info_def demo_sync_peer_def iface_of_def int64_range_def InterfaceName_def
        proto_of_def bird_filename_def intro!: utf8_valid_ascii)
qed

lemma peers_sync_follows_center_witness:
  "peer_of mem_bolt (a_db (handlePeersSync (demo_env (\<lambda>_. False) (\<lambda>_. [])) demo_sync_msg demo_stored)) =
     [''p2'' \<mapsto> sync_info demo_sync_peer] \<and>
   stale_iface demo_info \<notin> set (ifaces (a_host (handlePeersSync (demo_env (\<lambda>_. False) (\<lambda>_. [])) demo_sync_msg demo_stored)))"
proof -
  let ?E = "demo_env (\<lambda>_. False) (\<lambda>_. [])"
  let ?st = "handlePeersSync ?E demo_sync_msg demo_stored" and ?K = "kept ?E [demo_sync_peer] demo_stored"
  have old: "peer_of mem_bolt (a_db demo_stored) = [''p1'' \<mapsto> demo_info]"
    by (auto simp: peer_of_def demo_stored_def mem_bolt_def peer_record.dec_enc demo_info_ok)
  have iface: "wg_iface (stale_iface demo_info)"
    by (simp add: stale_iface_def iface_of_def demo_info_def wg_iface_def has_prefix_def)
  have tab: "asked_table ?K = [''p2'' \<mapsto> sync_info demo_sync_peer]"
    by (simp add: asked_table_def ask_def kept_def wanted_def demo_sync_peer_def)
  have "\<forall>p \<in> set [demo_sync_peer]. info_ok (sync_info p) \<and> wg_iface (iface_of (sy_WgInterface p) (sy_ASN p))"
    using demo_sync_ok by simp
  moreover have "bBegin (eBolt ?E) (a_db demo_stored) False = None" by (simp add: mem_bolt_def)
  moreover have "\<forall>k i. peer_of (eBolt ?E) (a_db demo_stored) k = Some i \<longrightarrow> wg_iface (stale_iface i)"
    using old iface by (auto split: if_splits)
  ultimately obtain ps stale h where ps: "distinct (map fst ps)" "map_of ps = asked_table ?K"
    "peer_of mem_bolt (a_db ?st) =
      (if is_ok (fst (ReplaceAll mem_bolt ps (a_db demo_stored))) then asked_table ?K else peer_of mem_bolt (a_db demo_stored))"
    and stale: "set stale = {i. \<exists>k. peer_of mem_bolt (a_db demo_stored) k = Some i \<and> asked_table ?K k = None}"
    "\<forall>js i js'. stale = js @ i # js' \<longrightarrow> torn_down ?E i (fold (tear_down ?E) js h) (a_host ?st)"
    using peers_sync_follows_center [where E = ?E and st = demo_stored, OF demo_env_ok demo_range_ok demo_sync_dec _ _ _ refl refl]
    by auto
  have "fst ` set ps = {''p2''}" using ps(2) tab dom_map_of_conv_image_fst [of ps] by simp
  then have "peer_of mem_bolt (a_db ?st) = [''p2'' \<mapsto> sync_info demo_sync_peer]"
    using ps(3) replace_mem [of ps "a_db demo_stored"] tab by simp
  moreover have "demo_info \<in> set stale" using stale(1) tab old by auto
  then obtain js js' where "stale = js @ demo_info # js'" by (auto dest: split_list)
  then have "torn_down ?E demo_info (fold (tear_down ?E) js h) (a_host ?st)" using stale(2) by blast
  then have "stale_iface demo_info \<notin> set (ifaces (a_host ?st))"
    by (auto simp: torn_down_def down_fails_def sim_os_def sim_exec_def cmd_result_def)
  ultimately show ?thesis by blast
qed

section \<open>Import\<close>

text \<open>
  The session of a tunnel, independently of the maps of the source: the last one on its interface, else the last one
  with its AS number; and what is offered for a tunnel and for a session alone.
\<close>

definition session_of :: "ScannedBGP list \<Rightarrow> ScannedPeer \<Rightarrow> ScannedBGP option" where
  "session_of bps wp =
     (case find (\<lambda>bp. sb_WgInterface bp = sp_InterfaceName wp) (rev bps) of
        Some bp \<Rightarrow> Some bp
      | None \<Rightarrow> find (\<lambda>bp. sb_ASN bp = sp_ASN wp) (rev bps))"

definition offer_tunnel :: "ScannedBGP list \<Rightarrow> ScannedPeer \<Rightarrow> ImportedPeer" where
  "offer_tunnel bps wp =
     \<lparr>im_ASN = (case session_of bps wp of Some bp \<Rightarrow> sb_ASN bp | None \<Rightarrow> sp_ASN wp),
      im_RemotePubkey = sp_RemotePubkey wp, im_RemoteEndpoint = sp_RemoteEndpoint wp,
      im_RemoteLLA = (case session_of bps wp of Some bp \<Rightarrow> sb_RemoteLLA bp | None \<Rightarrow> []),
      im_WgListenPort = sp_ListenPort wp, im_WgInterface = sp_InterfaceName wp,
      im_BgpProtoName = (case session_of bps wp of Some bp \<Rightarrow> sb_ProtoName bp | None \<Rightarrow> []),
      im_BirdConfigFilename = (case session_of bps wp of Some bp \<Rightarrow> sb_Filename bp | None \<Rightarrow> []),
      im_WgManaged = True\<rparr>"

definition offer_session :: "ScannedBGP \<Rightarrow> ImportedPeer" where
  "offer_session bp =
     \<lparr>im_ASN = sb_ASN bp, im_RemotePubkey = [], im_RemoteEndpoint = [], im_RemoteLLA = sb_RemoteLLA bp,
      im_WgListenPort = 0, im_WgInterface = sb_WgInterface bp, im_BgpProtoName = sb_ProtoName bp,
      im_BirdConfigFilename = sb_Filename bp, im_WgManaged = False\<rparr>"

definition has_tunnel :: "ScannedPeer list \<Rightarrow> ScannedBGP list \<Rightarrow> ScannedBGP \<Rightarrow> bool" where
  "has_tunnel wps bps bp \<longleftrightarrow>
     (\<exists>wp \<in> set wps. \<exists>mb. session_of bps wp = Some mb \<and> sb_WgInterface mb = sb_WgInterface bp)"

lemma last_update: "map_of (fold (\<lambda>x. AList.update (f x) x) xs []) k = find (\<lambda>x. f x = k) (rev xs)"
  by (induction xs rule: rev_induct) (auto simp: update_conv')

lemma match_session: "match_bgp bps wp = session_of bps wp"
  by (simp add: match_bgp_def session_of_def bgp_by_iface_def bgp_by_asn_def last_update split: option.split)

lemma import_wg_step:
  "import_wg E st bps wp (im, mb) =
     (im @ (if tracked E st (im_ASN (offer_tunnel bps wp)) then [] else [offer_tunnel bps wp]),
      (case session_of bps wp of Some bp \<Rightarrow> sb_WgInterface bp # mb | None \<Rightarrow> mb))"
  by (cases "session_of bps wp") (simp_all add: import_wg_def offer_tunnel_def match_session)

lemma import_wg_fold:
  "fst (fold (import_wg E st bps) wps acc) =
     fst acc @ map (offer_tunnel bps) (filter (\<lambda>wp. \<not> tracked E st (im_ASN (offer_tunnel bps wp))) wps) \<and>
   set (snd (fold (import_wg E st bps) wps acc)) =
     set (snd acc) \<union> sb_WgInterface ` {mb. \<exists>wp \<in> set wps. session_of bps wp = Some mb}"
proof (induction wps arbitrary: acc)
  case Nil
  then show ?case by simp
next
  case (Cons wp wps)
  obtain im mb where acc: "acc = (im, mb)" by fastforce
  show ?case
    using Cons [of "import_wg E st bps wp acc"] acc
    by (cases "session_of bps wp") (auto simp: import_wg_step)
qed

lemma import_bgp_fold:
  "fold (import_bgp E st mb) bps im =
     im @ map offer_session (filter (\<lambda>bp. \<not> tracked E st (sb_ASN bp) \<and> sb_WgInterface bp \<notin> set mb) bps)"
  by (induction bps arbitrary: im) (auto simp: import_bgp_def offer_session_def)

lemma import_peers_eq:
  "import_peers E st wps bps =
     map (offer_tunnel bps) (filter (\<lambda>wp. \<not> tracked E st (im_ASN (offer_tunnel bps wp))) wps) @
     map offer_session (filter (\<lambda>bp. \<not> tracked E st (sb_ASN bp) \<and> \<not> has_tunnel wps bps bp) bps)"
proof -
  obtain im mb where loop: "fold (import_wg E st bps) wps ([], []) = (im, mb)" by fastforce
  have mb: "sb_WgInterface bp \<in> set mb \<longleftrightarrow> has_tunnel wps bps bp" for bp
    using import_wg_fold [of E st bps wps "([], [])"] loop by (auto simp: has_tunnel_def image_iff) metis
  have "im = map (offer_tunnel bps) (filter (\<lambda>wp. \<not> tracked E st (im_ASN (offer_tunnel bps wp))) wps)"
    using import_wg_fold [of E st bps wps "([], [])"] loop by simp
  then show ?thesis by (simp add: import_peers_def loop import_bgp_fold mb)
qed

text \<open>
  C23: an import offers exactly what the machine has and the store does not track. When both scans succeed, the
  answer lists, in the order of the scans, every tunnel whose AS number, that of its session
  when it has one, no stored peer has, and then every session whose AS number no stored peer has and
  whose interface is not that of the session of a tunnel; each with the data of the scans. Nothing is stored.
\<close>

theorem import_offers_untracked:
  assumes "bolt_laws (eBolt E)" "bBegin (eBolt E) (a_db st) False = None"
    and "wg_ScanPeers (eOs E) (eWg E) (a_host st) = (Inr wps, h1)"
    and "bird_ScanPeers (eOs E) (eBird E) h1 = (Inr bps, h2)"
    and "stored = {pi_ASN i |i k. peer_of (eBolt E) (a_db st) k = Some i}"
    and "st' = handlePeersImportCommand E msg st"
  shows "answers E msg st st' (payload_msg (m_ID msg) None (JObj [(''peers'', JArr (map imported_json
      (map (offer_tunnel bps) (filter (\<lambda>wp. im_ASN (offer_tunnel bps wp) \<notin> stored) wps) @
       map offer_session (filter (\<lambda>bp. sb_ASN bp \<notin> stored \<and> \<not> has_tunnel wps bps bp) bps))))])) \<and>
    a_db st' = a_db st \<and> a_host st' = h2"
proof -
  have "tracked E (st\<lparr>a_host := h2\<rparr>) asn \<longleftrightarrow> asn \<in> stored" for asn
    using is_asn_tracked_iff [OF assms(1,2), of asn] assms(5) by (auto simp: tracked_def)
  then have "import_peers E (st\<lparr>a_host := h2\<rparr>) wps bps =
      map (offer_tunnel bps) (filter (\<lambda>wp. im_ASN (offer_tunnel bps wp) \<notin> stored) wps) @
      map offer_session (filter (\<lambda>bp. sb_ASN bp \<notin> stored \<and> \<not> has_tunnel wps bps bp) bps)"
    by (simp add: import_peers_eq)
  then have run: "st' = send_msg E (payload_msg (m_ID msg) None (JObj [(''peers'', JArr (map imported_json
      (map (offer_tunnel bps) (filter (\<lambda>wp. im_ASN (offer_tunnel bps wp) \<notin> stored) wps) @
       map offer_session (filter (\<lambda>bp. sb_ASN bp \<notin> stored \<and> \<not> has_tunnel wps bps bp) bps))))])) (st\<lparr>a_host := h2\<rparr>)"
    using assms(3,4,6) by (simp add: handlePeersImportCommand_def on_host_def)
  show ?thesis unfolding run by (intro conjI answers_payload) simp_all
qed

text \<open>A machine with one tunnel, \<open>wg7\<close>, and no session.\<close>

definition demo_tunnel_host :: host where
  "demo_tunnel_host = empty_host\<lparr>files := [(''/etc/wireguard/dn427.conf'', \<lparr>content = [], mode = perm_0600\<rparr>)]\<rparr>"

definition demo_tunnel_dump :: "string list \<Rightarrow> string" where
  "demo_tunnel_dump argv = ''KEY'' @ [CHR 9] @ ''PUB'' @ [CHR 9] @ ''1'' @ [CHR 9] @ ''off'' @ [CHR 10] @
     ''PUB2'' @ [CHR 9] @ ''(none)'' @ [CHR 9] @ ''h:1'' @ [CHR 9] @ ''::/0'' @ [CHR 9] @ ''0'' @ [CHR 9] @ ''0'' @ [CHR 9] @
     ''0'' @ [CHR 9] @ ''off'' @ [CHR 10]"

lemma demo_entries:
  "dir_entries demo_tunnel_host ''/etc/wireguard'' = [(''dn427.conf'', False)]"
  "dir_entries demo_tunnel_host ''/etc/bird/peers'' = []"
  by (simp_all add: dir_entries_def demo_tunnel_host_def empty_host_def path_dir_def path_clean_def path_of_def path_comps_def
      is_rooted_def path_base_def)

lemma demo_extract: "extractASNFromIface ''dn427'' = (427, True)"
proof -
  have "rmatch (plus is_digit @ [Shut 0]) [(0, ''427'' @ [])] [] (''427'' @ []) = Some ([(0, ''427'')], [])"
    by (intro plus_stop) (simp_all add: is_digit_def)
  then have "rfind (cap 0 (plus is_digit)) (''dn'' @ ''427'') = Some ([(0, ''427'')], [])"
    using rfind_here by (simp add: cap_def plus_def is_digit_def)
  then show ?thesis
    by (simp add: extractASNFromIface_def group_def parse_int64_def parse_uint64_def Let_def is_digit_def digit_val_def)
qed

lemma demo_parse: "parse_dump (demo_tunnel_dump argv) = (''PUB2'', ''h:1'', 1)"
  by (simp add: parse_dump_def demo_tunnel_dump_def scan_lines_def dump_line_def max_scan_token_def drop_cr_def
      parse_int64_def parse_uint64_def Let_def is_digit_def digit_val_def)

definition demo_scanned :: ScannedPeer where
  "demo_scanned = \<lparr>sp_InterfaceName = ''dn427'', sp_ASN = 427, sp_RemotePubkey = ''PUB2'', sp_RemoteEndpoint = ''h:1'',
     sp_ListenPort = 1, sp_OurLLA = ''fe80::1''\<rparr>"

lemma demo_wg_scan:
  "\<exists>h1. wg_ScanPeers (sim_os (\<lambda>_. False) demo_tunnel_dump) demo_wg demo_tunnel_host = (Inr [demo_scanned], h1) \<and>
     files h1 = files demo_tunnel_host \<and> dirs h1 = dirs demo_tunnel_host"
  using demo_entries(1)
  by (simp add: wg_ScanPeers_def os_read_dir_def sim_os_def wg_scan_entry_def demo_extract run_cmd_def sim_exec_def
      cmd_result_def demo_parse has_suffix_def trim_suffix_def demo_scanned_def demo_wg_def wg_NewManager_def Let_def)

lemma demo_bird_scan:
  "files h = files demo_tunnel_host \<Longrightarrow> dirs h = dirs demo_tunnel_host \<Longrightarrow>
     bird_ScanPeers (sim_os bad out) demo_bird h = (Inr [], tock h)"
  using demo_entries(2) by (simp add: bird_ScanPeers_def os_read_dir_def sim_os_def dir_entries_def)

definition demo_import_msg :: Message where
  "demo_import_msg = \<lparr>m_Type = ''peers.import'', m_ID = ''r4'', m_Payload = None, m_Success = None, m_Error = []\<rparr>"

lemma import_offers_untracked_witness:
  "answers (demo_env (\<lambda>_. False) demo_tunnel_dump) demo_import_msg (demo_agent\<lparr>a_host := demo_tunnel_host\<rparr>)
     (handlePeersImportCommand (demo_env (\<lambda>_. False) demo_tunnel_dump) demo_import_msg
        (demo_agent\<lparr>a_host := demo_tunnel_host\<rparr>))
     (payload_msg ''r4'' None (JObj [(''peers'', JArr [imported_json (offer_tunnel [] demo_scanned)])]))"
proof -
  let ?E = "demo_env (\<lambda>_. False) demo_tunnel_dump" and ?st = "demo_agent\<lparr>a_host := demo_tunnel_host\<rparr>"
  obtain h1 where w: "wg_ScanPeers (eOs ?E) (eWg ?E) (a_host ?st) = (Inr [demo_scanned], h1)"
    "files h1 = files demo_tunnel_host" "dirs h1 = dirs demo_tunnel_host" using demo_wg_scan by auto
  have b: "bird_ScanPeers (eOs ?E) (eBird ?E) h1 = (Inr [], tock h1)" using demo_bird_scan [OF w(2,3)] by simp
  have "bolt_laws (eBolt ?E)" "bBegin (eBolt ?E) (a_db ?st) False = None"
    using mem_bolt_laws by (simp_all add: mem_bolt_def)
  from import_offers_untracked [OF this w(1) b refl refl, of demo_import_msg] show ?thesis
    by (simp add: peer_of_def mem_bolt_def demo_import_msg_def)
qed





text \<open>
  A peer with a file name of its own for BIRD: the file is looked for and recorded under that name and written under
  another one. So it is still missing after the round that writes it, and the next synchronisation writes it again.
\<close>

lemma sync_own_filename_stays_missing:
  assumes tools: "birdc_tools (eOs E) (birdcPath (eBird E))"
    and own: "path_join (peerDir (eBird E)) (pi_BirdConfigFilename (sync_info p)) = q" "q \<noteq> bird_conf (eBird E) (sy_ASN p)"
    and missing: "fs_read (a_host st) q = None" and run: "sync_bird E p st = (r, st')"
  shows "fs_read (a_host st') q = None"
proof -
  let ?add = "bird_AddPeer (eOs E) (eBird E) (sy_ASN p) (sy_RemoteLLA p) (iface_of (sy_WgInterface p) (sy_ASN p))"
  obtain b st1 where x: "path_exists E q st = (b, st1)" by fastforce
  have st1: "fs_read (a_host st1) q = None"
    using x missing by (auto simp: path_exists_def on_host_def os_stat_def fs_read_def split: sum.splits option.splits if_splits)
  obtain r2 h2 where a: "?add (a_host st1) = (r2, h2)" by fastforce
  have "outside {bird_conf (eBird E) (sy_ASN p)} (a_host st1) h2"
    by (rule bird_AddPeer_run(1) [OF tools a])
  then have "fs_read h2 q = None" using st1 own(2) by (simp add: outside_def)
  moreover have "st' = (if b then st1 else st1\<lparr>a_host := h2\<rparr>)"
    using run own(1) x a by (auto simp: sync_bird_def sync_info_def Let_def on_host_def split: if_splits sum.splits)
  ultimately show ?thesis using st1 by simp
qed

end
