(* ===== verification/Network.thy ===== *)
theory Network
  imports Agent
begin

text \<open>
  The looking glass, \<open>src/internal/handler/network.go\<close>: the allow-list for probe targets, the
  resolution of host names, the ping, traceroute, MTR and route commands, and the parsers of what
  \<open>ping\<close> and \<open>traceroute\<close> print. A command that runs into its timeout is one that fails.
\<close>

unbundle bit_operations_syntax

section \<open>Targets\<close>

definition dn42_cidrs :: "string list" where
  "dn42_cidrs = [''172.20.0.0/14'', ''172.31.0.0/16'', ''10.127.0.0/16'', ''fd00::/8'']"

definition dn42Ranges :: "(8 word list \<times> 8 word list) list" where
  "dn42Ranges = List.map_filter (\<lambda>c. map_option snd (parse_cidr c)) dn42_cidrs"

definition isDN42 :: "ip \<Rightarrow> bool" where
  "isDN42 a \<longleftrightarrow> (\<exists>n \<in> set dn42Ranges. net_contains n a)"

definition bytesEqual :: "8 word list \<Rightarrow> 8 word list \<Rightarrow> bool" where
  "bytesEqual a b \<longleftrightarrow> length a = length b \<and> (\<forall>i \<in> set [0..<length a]. a ! i = b ! i)"

definition validateNetworkTarget :: "string \<Rightarrow> unit res" where
  "validateNetworkTarget target =
     (case parse_ip target of
        None \<Rightarrow> Inl (''target '' @ target @ '' is not a valid IP address'')
      | Some a \<Rightarrow>
          if is_loopback a \<or> is_link_local_unicast a \<or> is_link_local_multicast a \<or>
             is_multicast a \<or> is_unspecified a \<or> is_interface_local_multicast a then
            Inl (''target '' @ target @ '' is a reserved address'')
          else if isDN42 a then Inr ()
          else
            (case to4 a of
               Some q \<Rightarrow>
                 if q ! 0 = 10 \<or> (q ! 0 = 172 \<and> 16 \<le> q ! 1 \<and> q ! 1 \<le> 31) \<or>
                    (q ! 0 = 192 \<and> q ! 1 = 168) \<or> (q ! 0 = 169 \<and> q ! 1 = 254) then
                   Inl (''target '' @ target @ '' is a non-DN42 private address'')
                 else if q ! 3 = 255 \<and> bytesEqual q [255, 255, 255, 255] then
                   Inl (''target '' @ target @ '' is a broadcast address'')
                 else Inr ()
             | None \<Rightarrow>
                 if (a ! 0) AND 0xfe = 0xfc then
                   Inl (''target '' @ target @ '' is a non-DN42 ULA address'')
                 else Inr ()))"

text \<open>The loop over the resolved addresses: the first that passes, else the last refusal.\<close>

fun first_allowed :: "ip list \<Rightarrow> string option \<Rightarrow> string option + string" where
  "first_allowed [] lastErr = Inl lastErr"
| "first_allowed (a # as) lastErr =
     (case validateNetworkTarget (ip_string a) of
        Inl e \<Rightarrow> first_allowed as (Some e)
      | Inr _ \<Rightarrow> Inr (ip_string a))"

definition resolveAndValidate :: "'db env \<Rightarrow> string \<Rightarrow> host \<Rightarrow> string res" where
  "resolveAndValidate E target0 h =
     (let target = trim_space target0 in
      if target = [] then Inl ''missing target''
      else if has_prefix ''-'' target then Inl (''invalid target: must not start with '' @ [CHR 0x27] @ ''-'' @ [CHR 0x27])
      else if parse_ip target \<noteq> None then
        (case validateNetworkTarget target of Inl e \<Rightarrow> Inl e | Inr _ \<Rightarrow> Inr target)
      else
        case eResolve E target h of
          Inl e \<Rightarrow> Inl (''could not resolve '' @ target @ '': '' @ e)
        | Inr ips \<Rightarrow>
            (case first_allowed ips None of
               Inr s \<Rightarrow> Inr s
             | Inl (Some e) \<Rightarrow> Inl (target @ '' resolved only to disallowed addresses: '' @ e)
             | Inl None \<Rightarrow> Inl (''could not resolve '' @ target @ '' to a usable address'')))"

section \<open>Parsing ping\<close>

record pingResult =
  pg_Target :: string
  pg_ResolvedIP :: string
  pg_Sent :: int
  pg_Received :: int
  pg_LossPercent :: gofloat
  pg_MinRTT :: gofloat
  pg_AvgRTT :: gofloat
  pg_MaxRTT :: gofloat
  pg_RTTs :: "gofloat list"

definition num_cap :: "nat \<Rightarrow> rx list" where
  "num_cap n = cap n (plus rx_number)"

definition rttLineRe :: "rx list" where
  "rttLineRe =
     lit ''rtt min/avg/max/mdev = '' @ num_cap 1 @ lit ''/'' @ num_cap 2 @ lit ''/'' @ num_cap 3 @
     lit ''/'' @ num_cap 4 @ lit '' ms''"

definition statsLineRe :: "rx list" where
  "statsLineRe =
     cap 1 (plus is_digit) @ lit '' packets transmitted, '' @ cap 2 (plus is_digit) @
     lit '' received'' @ [Opt (lit '', '' @ num_cap 3 @ lit ''% packet loss'')]"

definition seqRTTRe :: "rx list" where
  "seqRTTRe =
     lit ''icmp_seq='' @ cap 1 (plus is_digit) @ [Star rx_any] @ lit ''time='' @ num_cap 2 @
     [Star rx_space] @ lit ''ms''"

definition parsePingOutput :: "string \<Rightarrow> string \<Rightarrow> pingResult" where
  "parsePingOutput output target =
     (let r = \<lparr>pg_Target = target, pg_ResolvedIP = [], pg_Sent = 0, pg_Received = 0,
               pg_LossPercent = FZero, pg_MinRTT = FZero, pg_AvgRTT = FZero, pg_MaxRTT = FZero,
               pg_RTTs = []\<rparr>;
          r = (case rfind statsLineRe output of
                 None \<Rightarrow> r
               | Some (g, _) \<Rightarrow>
                   r\<lparr>pg_Sent := fst (parse_int64 (group g 1)),
                     pg_Received := fst (parse_int64 (group g 2)),
                     pg_LossPercent := (if group g 3 \<noteq> [] then fst (parse_float (group g 3))
                                        else FZero)\<rparr>);
          r = (case rfind rttLineRe output of
                 None \<Rightarrow> r
               | Some (g, _) \<Rightarrow>
                   r\<lparr>pg_MinRTT := fst (parse_float (group g 1)),
                     pg_AvgRTT := fst (parse_float (group g 2)),
                     pg_MaxRTT := fst (parse_float (group g 3))\<rparr>);
          ms = rfind_all (Suc (length output)) seqRTTRe output
      in r\<lparr>pg_RTTs := map (\<lambda>g. fst (parse_float (group g 2))) ms\<rparr>)"

text \<open>\<open>json.Marshal\<close> of the result, which fails when a number overflowed.\<close>

definition ping_json :: "pingResult \<Rightarrow> json option" where
  "ping_json r =
     Option.bind (jfloat (pg_LossPercent r)) (\<lambda>loss.
     Option.bind (jfloat (pg_MinRTT r)) (\<lambda>mn.
     Option.bind (jfloat (pg_AvgRTT r)) (\<lambda>av.
     Option.bind (jfloat (pg_MaxRTT r)) (\<lambda>mx.
     Option.bind (jfloats (pg_RTTs r)) (\<lambda>rtts.
       Some (JObj ([(''target'', JStr (pg_Target r))] @
         (if pg_ResolvedIP r = [] then [] else [(''resolved_ip'', JStr (pg_ResolvedIP r))]) @
         [(''sent'', jint (pg_Sent r)), (''received'', jint (pg_Received r)),
          (''loss_percent'', loss), (''min_rtt_ms'', mn), (''avg_rtt_ms'', av),
          (''max_rtt_ms'', mx), (''rtts'', JArr rtts)])))))))"

section \<open>Parsing traceroute\<close>

record traceHop =
  th_TTL :: int
  th_IP :: string
  th_RTTs :: "gofloat list"

definition traceLineRe :: "rx list" where
  "traceLineRe =
     [Star rx_space] @ cap 1 (plus is_digit) @ plus rx_space @ cap 2 [Star rx_any] @ [End]"

definition paren :: "char \<Rightarrow> bool" where
  "paren c \<longleftrightarrow> c = CHR ''('' \<or> c = CHR '')''"

text \<open>\<open>strings.Trim(f, "()")\<close>.\<close>

definition trim_parens :: "string \<Rightarrow> string" where
  "trim_parens f = rev (dropWhile paren (rev (dropWhile paren f)))"

definition trace_field ::
    "(string \<Rightarrow> gofloat \<times> num_err option) \<Rightarrow> string \<Rightarrow> string \<times> gofloat list \<Rightarrow> string \<times> gofloat list" where
  "trace_field pf f st =
     (let (ip, rtts) = st in
      if f = ''*'' then st
      else if has_prefix ''('' f \<and> has_suffix '')'' f then (trim_parens f, rtts)
      else if \<not> contains ''('' f \<and> \<not> contains '')'' f \<and> \<not> has_prefix ''ms'' f \<and> \<not> contains ''ms'' f then
        ((if ip = [] then f else ip), rtts)
      else
        (case pf (trim_suffix ''ms'' f) of
           (r, None) \<Rightarrow> (ip, rtts @ [r])
         | (_, Some _) \<Rightarrow> (ip, rtts)))"

definition trace_line ::
    "(string \<Rightarrow> gofloat \<times> num_err option) \<Rightarrow> string \<Rightarrow> traceHop option" where
  "trace_line pf l =
     (case rmatch traceLineRe [] [] l of
        None \<Rightarrow> None
      | Some (g, _) \<Rightarrow>
          (case parse_int64 (group g 1) of
             (_, Some _) \<Rightarrow> None
           | (ttl, None) \<Rightarrow>
               (case fold (trace_field pf) (str_fields (group g 2)) ([], []) of
                  (ip, rtts) \<Rightarrow> Some \<lparr>th_TTL = ttl, th_IP = ip, th_RTTs = rtts\<rparr>)))"

definition parseTracerouteOutput ::
    "(string \<Rightarrow> gofloat \<times> num_err option) \<Rightarrow> string \<Rightarrow> traceHop list" where
  "parseTracerouteOutput pf output = List.map_filter (trace_line pf) (split_on lf output)"

definition hop_json :: "traceHop \<Rightarrow> json option" where
  "hop_json h =
     map_option (\<lambda>rtts. JObj [(''ttl'', jint (th_TTL h)), (''ip'', JStr (th_IP h)), (''rtts'', JArr rtts)])
       (jfloats (th_RTTs h))"

fun hops_json :: "traceHop list \<Rightarrow> json list option" where
  "hops_json [] = Some []"
| "hops_json (h # hs) = Option.bind (hop_json h) (\<lambda>j. map_option ((#) j) (hops_json hs))"

section \<open>Commands\<close>

definition net_dec :: "string \<Rightarrow> json \<Rightarrow> (string \<times> int) option" where
  "net_dec field j =
     Option.bind (members j) (\<lambda>ms.
     Option.bind (get_field dec_string [] ''target'' ms) (\<lambda>target.
     Option.bind (get_field dec_int64 0 field ms) (\<lambda>n. Some (target, n))))"

definition clamp :: "int \<Rightarrow> int \<Rightarrow> int \<Rightarrow> int" where
  "clamp dflt lim n =
     (let n = (if n \<le> 0 then dflt else n) in if lim < n then lim else n)"

definition inf_error :: string where
  "inf_error = ''marshal result: json: unsupported value: +Inf''"

definition handleNetworkPing :: "'db env \<Rightarrow> Message \<Rightarrow> 'db agent \<Rightarrow> 'db agent" where
  "handleNetworkPing E msg st =
     (case unmarshal (net_dec ''count'') (m_Payload msg) of
        None \<Rightarrow> sendResponse E (m_ID msg) False (invalid_payload E ''ping'' msg) st
      | Some (target, count) \<Rightarrow>
          (case resolveAndValidate E target (a_host st) of
             Inl e \<Rightarrow> sendResponse E (m_ID msg) False e st
           | Inr resolved \<Rightarrow>
               (case on_host (run_cmd (eOs E)
                       [''ping'', ''-c'', itoa (clamp 4 20 count), ''-W'', ''3'', resolved]) st of
                  (r, st) \<Rightarrow>
                    (case cmd_err r of
                       Some _ \<Rightarrow>
                         sendResponse E (m_ID msg) False (''ping failed: '' @ trim_space (combined r)) st
                     | None \<Rightarrow>
                         (case ping_json ((parsePingOutput (combined r) target)\<lparr>pg_ResolvedIP := resolved\<rparr>) of
                            None \<Rightarrow> sendResponse E (m_ID msg) False inf_error st
                          | Some j \<Rightarrow> send_msg E (payload_msg (m_ID msg) (Some True) j) st)))))"

definition handleNetworkTrace :: "'db env \<Rightarrow> Message \<Rightarrow> 'db agent \<Rightarrow> 'db agent" where
  "handleNetworkTrace E msg st =
     (case unmarshal (net_dec ''max_hops'') (m_Payload msg) of
        None \<Rightarrow> sendResponse E (m_ID msg) False (invalid_payload E ''trace'' msg) st
      | Some (target, maxHops) \<Rightarrow>
          (case resolveAndValidate E target (a_host st) of
             Inl e \<Rightarrow> sendResponse E (m_ID msg) False e st
           | Inr resolved \<Rightarrow>
               (case on_host (run_cmd (eOs E)
                       [''traceroute'', ''-m'', itoa (clamp 30 64 maxHops), ''-w'', ''3'', ''-q'', ''3'',
                        resolved]) st of
                  (r, st) \<Rightarrow>
                    (case cmd_err r of
                       Some _ \<Rightarrow>
                         sendResponse E (m_ID msg) False (''traceroute failed: '' @ trim_space (combined r)) st
                     | None \<Rightarrow>
                         (case hops_json (parseTracerouteOutput (eParseFloat E) (combined r)) of
                            None \<Rightarrow> sendResponse E (m_ID msg) False inf_error st
                          | Some js \<Rightarrow>
                              send_msg E (payload_msg (m_ID msg) (Some True)
                                (JObj [(''hops'', JArr js), (''resolved_ip'', JStr resolved)])) st)))))"

definition mtr_report :: "bool \<Rightarrow> string \<Rightarrow> string \<Rightarrow> string \<Rightarrow> json" where
  "mtr_report asJSON output target resolved =
     (let rest = [(''resolved_ip'', JStr resolved), (''target'', JStr target)] in
      case (asJSON, json_parse output) of
        (True, Some j) \<Rightarrow> JObj ((''report'', j) # rest)
      | _ \<Rightarrow> JObj ((''raw'', JStr (trim_space output)) # rest))"

definition handleNetworkMTR :: "'db env \<Rightarrow> Message \<Rightarrow> 'db agent \<Rightarrow> 'db agent" where
  "handleNetworkMTR E msg st =
     (case unmarshal (net_dec ''cycles'') (m_Payload msg) of
        None \<Rightarrow> sendResponse E (m_ID msg) False (invalid_payload E ''mtr'' msg) st
      | Some (target, cycles) \<Rightarrow>
          (case resolveAndValidate E target (a_host st) of
             Inl e \<Rightarrow> sendResponse E (m_ID msg) False e st
           | Inr resolved \<Rightarrow>
               let n = itoa (clamp 5 10 cycles) in
               (case on_host (run_cmd (eOs E) [''mtr'', ''-r'', ''-c'', n, ''-j'', resolved]) st of
                  (r, st) \<Rightarrow>
                    (case cmd_err r of
                       None \<Rightarrow>
                         send_msg E (payload_msg (m_ID msg) (Some True)
                           (mtr_report True (combined r) target resolved)) st
                     | Some _ \<Rightarrow>
                         (case on_host (run_cmd (eOs E) [''mtr'', ''-r'', ''-c'', n, resolved]) st of
                            (r, st) \<Rightarrow>
                              (case cmd_err r of
                                 Some _ \<Rightarrow>
                                   sendResponse E (m_ID msg) False (''mtr failed: '' @ trim_space (combined r)) st
                               | None \<Rightarrow>
                                   send_msg E (payload_msg (m_ID msg) (Some True)
                                     (mtr_report False (combined r) target resolved)) st))))))"

definition route_dec :: "json \<Rightarrow> (string \<times> bool) option" where
  "route_dec j =
     Option.bind (members j) (\<lambda>ms.
     Option.bind (get_field dec_string [] ''target'' ms) (\<lambda>target.
     Option.bind (get_field dec_bool False ''detailed'' ms) (\<lambda>d. Some (target, d))))"

definition route_target :: "string \<Rightarrow> string res" where
  "route_target target0 =
     (let target = trim_space target0 in
      if target = [] then Inl ''missing target''
      else if has_prefix ''-'' target then Inl (''invalid target: must not start with '' @ [CHR 0x27] @ ''-'' @ [CHR 0x27])
      else if contains ''/'' target then
        (if parse_cidr target = None then Inl (''invalid prefix: '' @ target) else Inr target)
      else if parse_ip target = None then
        Inl (''invalid IP/prefix: '' @ target @ '' (hostnames are not allowed for route lookups)'')
      else Inr target)"

definition handleBirdRoute :: "'db env \<Rightarrow> Message \<Rightarrow> 'db agent \<Rightarrow> 'db agent" where
  "handleBirdRoute E msg st =
     (case unmarshal route_dec (m_Payload msg) of
        None \<Rightarrow> sendResponse E (m_ID msg) False (invalid_payload E ''route'' msg) st
      | Some (target0, detailed) \<Rightarrow>
          (case route_target target0 of
             Inl e \<Rightarrow> sendResponse E (m_ID msg) False e st
           | Inr target \<Rightarrow>
               (case on_host (ShowRoute (eOs E) (eBird E) target detailed) st of
                  (Inl e, st) \<Rightarrow> sendResponse E (m_ID msg) False e st
                | (Inr output, st) \<Rightarrow>
                    send_msg E (payload_msg (m_ID msg) (Some True)
                      (JObj [(''output'', JStr output), (''target'', JStr target)])) st)))"

end
