(* ===== verification/Looking_Glass.thy ===== *)
theory Looking_Glass
  imports Network
begin

text \<open>
  What the looking glass guarantees: which addresses it probes, that nothing but an address reaches
  the command line of a probe, the bounds on what a probe may cost, and what the parsers read.
\<close>

unbundle bit_operations_syntax

section \<open>The allowed ranges\<close>

lemma byte_cases:
  assumes "\<forall>n \<in> set [0..<256]. P (word_of_nat n :: 8 word) n"
  shows "P b (unat b)"
proof -
  have "unat b < 256" using unsigned_less [of b, where ?'a = nat] by simp
  then have "unat b \<in> set [0..<256]" by simp
  from bspec [OF assms this] show ?thesis by simp
qed

lemma byte_eq_iff: "(b :: 8 word) = numeral n \<longleftrightarrow> unat b = numeral n mod 256"
  by (simp add: word_unat_eq_iff unat_numeral take_bit_eq_mod)

lemma byte_masks:
  fixes b :: "8 word"
  shows "unat (b AND 0xf0) = 0xe0 \<longleftrightarrow> 224 \<le> unat b \<and> unat b \<le> 239"
    "unat (b AND 0xc0) = 0x80 \<longleftrightarrow> 128 \<le> unat b \<and> unat b \<le> 191"
    "unat (b AND 0xfe) = 0xfc \<longleftrightarrow> unat b = 252 \<or> unat b = 253"
    "unat (b AND 252) = 20 \<longleftrightarrow> 20 \<le> unat b \<and> unat b \<le> 23"
    "b AND 255 = b"
proof -
  define P where "P b n \<longleftrightarrow> (b AND 0xf0 = 0xe0 \<longleftrightarrow> 224 \<le> n \<and> n \<le> 239) \<and>
    (b AND 0xc0 = 0x80 \<longleftrightarrow> 128 \<le> n \<and> n \<le> 191) \<and>
    (b AND 0xfe = 0xfc \<longleftrightarrow> n = 252 \<or> n = 253) \<and>
    (b AND 252 = 20 \<longleftrightarrow> 20 \<le> n \<and> n \<le> 23) \<and> b AND 255 = b" for b :: "8 word" and n :: nat
  have "P b (unat b)"
    by (rule byte_cases, unfold P_def) code_simp
  then show "unat (b AND 0xf0) = 0xe0 \<longleftrightarrow> 224 \<le> unat b \<and> unat b \<le> 239"
    "unat (b AND 0xc0) = 0x80 \<longleftrightarrow> 128 \<le> unat b \<and> unat b \<le> 191"
    "unat (b AND 0xfe) = 0xfc \<longleftrightarrow> unat b = 252 \<or> unat b = 253"
    "unat (b AND 252) = 20 \<longleftrightarrow> 20 \<le> unat b \<and> unat b \<le> 23"
    "b AND 255 = b"
    by (simp_all add: P_def byte_eq_iff)
qed

lemma dn42_v4:
  "parse_cidr ''172.20.0.0/14'' = Some (v4_mapped [172, 20, 0, 0], [172, 20, 0, 0], [255, 252, 0, 0])"
  "parse_cidr ''172.31.0.0/16'' = Some (v4_mapped [172, 31, 0, 0], [172, 31, 0, 0], [255, 255, 0, 0])"
  "parse_cidr ''10.127.0.0/16'' = Some (v4_mapped [10, 127, 0, 0], [10, 127, 0, 0], [255, 255, 0, 0])"
proof -
  have "parse_v4 ''172.20.0.0'' = Some [172, 20, 0, 0]" "parse_v4 ''172.31.0.0'' = Some [172, 31, 0, 0]"
    "parse_v4 ''10.127.0.0'' = Some [10, 127, 0, 0]"
    by (simp_all add: parse_v4_def v4_octet_def is_digit_def digits_val_def digit_val_def)
  note v4 = this
  show "parse_cidr ''172.20.0.0/14'' = Some (v4_mapped [172, 20, 0, 0], [172, 20, 0, 0], [255, 252, 0, 0])"
    "parse_cidr ''172.31.0.0/16'' = Some (v4_mapped [172, 31, 0, 0], [172, 31, 0, 0], [255, 255, 0, 0])"
    "parse_cidr ''10.127.0.0/16'' = Some (v4_mapped [10, 127, 0, 0], [10, 127, 0, 0], [255, 255, 0, 0])"
    by (simp_all add: parse_cidr_def parse_addr_def v4 is_digit_def digits_val_def digit_val_def Let_def)
      (simp_all add: cidr_mask_def mask_byte_def apply_mask_def v4_mapped_def v4_in_v6_def upt_rec [of _ 4])
qed

lemma parse_v6_fd00: "parse_v6 ''fd00::'' = Some (0xfd # replicate 15 0)"
proof -
  have "v6_loop (Suc 7) None [] ''fd00::'' = Some ([0xfd, 0], Some 2, [])"
    unfolding v6_loop.simps(2)
    by (simp add: is_hex_def hex_val_def hex_word_def group_bytes_def Let_def)
  then have "v6_loop 8 None [] ''fd00::'' = Some ([0xfd, 0], Some 2, [])" by simp
  moreover have "replicate 15 (0 :: 8 word) = 0 # replicate 14 0" by (simp add: numeral_eq_Suc)
  ultimately show ?thesis by (simp add: parse_v6_def has_prefix_def)
qed

lemma dn42_v6:
  "parse_cidr ''fd00::/8'' = Some (0xfd # replicate 15 0, 0xfd # replicate 15 0, 255 # replicate 15 0)"
proof -
  have "cidr_mask 8 16 = [255, 0, 0, 0, 0, 0, 0, 0, 0, 0, 0, 0, 0, 0, 0, 0]"
    by (simp add: cidr_mask_def mask_byte_def upt_rec [of _ 16])
  moreover have "replicate 15 (0 :: 8 word) = [0, 0, 0, 0, 0, 0, 0, 0, 0, 0, 0, 0, 0, 0, 0]" by (simp add: numeral_eq_Suc)
  ultimately show ?thesis
    by (simp add: parse_cidr_def parse_addr_def parse_v6_fd00 is_digit_def digits_val_def digit_val_def
        Let_def apply_mask_def)
qed

lemma dn42Ranges_eq:
  "dn42Ranges = [([172, 20, 0, 0], [255, 252, 0, 0]), ([172, 31, 0, 0], [255, 255, 0, 0]),
     ([10, 127, 0, 0], [255, 255, 0, 0]), (0xfd # replicate 15 0, 255 # replicate 15 0)]"
  by (simp add: dn42Ranges_def dn42_cidrs_def dn42_v4 dn42_v6 List.map_filter_def)


text \<open>
  The accepted addresses as decimal ranges, independent of the masks of the code: the three IPv4
  ranges and the IPv6 range of DN42, and whatever is not in the ranges the code rejects, which are
  loopback, private, link-local, multicast, the unspecified address and the broadcast address. The
  rejected list is the code's own and not the whole of the special-purpose registries:
  0.0.0.0/8 other than 0.0.0.0, 100.64.0.0/10, 240.0.0.0/4 other than the broadcast address and the
  documentation ranges are accepted.
\<close>

definition probe_allowed :: "ip \<Rightarrow> bool" where
  "probe_allowed a =
     (case to4 a of
        Some q \<Rightarrow>
          (let x = unat (q ! 0); y = unat (q ! 1) in
           x = 172 \<and> 20 \<le> y \<and> y \<le> 23 \<or> x = 172 \<and> y = 31 \<or> x = 10 \<and> y = 127 \<or>
           \<not> (x = 10 \<or> x = 127 \<or> x = 169 \<and> y = 254 \<or> x = 172 \<and> 16 \<le> y \<and> y \<le> 31 \<or>
              x = 192 \<and> y = 168 \<or> 224 \<le> x \<and> x \<le> 239 \<or> q = [0, 0, 0, 0] \<or>
              q = [255, 255, 255, 255]))
      | None \<Rightarrow>
          (let x = unat (a ! 0); y = unat (a ! 1) in
           x = 0xfd \<or>
           \<not> (x = 0xfc \<or> x = 0xff \<or> x = 0xfe \<and> 0x80 \<le> y \<and> y \<le> 0xbf \<or>
              a = replicate 16 0 \<or> a = replicate 15 0 @ [1])))"

lemma to4_mapped: "length q = 4 \<Longrightarrow> to4 (v4_mapped q) = Some q"
  by (simp add: to4_def v4_mapped_def v4_in_v6_def)

lemma to4_SomeE:
  assumes "to4 a = Some q" "length a = 16"
  obtains w x y z where "q = [w, x, y, z]" "a = v4_mapped [w, x, y, z]"
proof -
  have "take 12 a = v4_in_v6" "q = drop 12 a" using assms by (auto simp: to4_def split: if_splits)
  then have "a = v4_mapped q" by (metis append_take_drop_id v4_mapped_def)
  moreover obtain w x y z where "q = [w, x, y, z]"
    using assms \<open>q = drop 12 a\<close> by (auto simp: length_Suc_conv eval_nat_numeral dest!: sym [of "length q"])
  ultimately show thesis using that by simp
qed


lemma isDN42_v4:
  "isDN42 (v4_mapped [w, x, y, z]) \<longleftrightarrow>
     unat w = 172 \<and> 20 \<le> unat x \<and> unat x \<le> 23 \<or> unat w = 172 \<and> unat x = 31 \<or>
     unat w = 10 \<and> unat x = 127"
  by (simp add: isDN42_def dn42Ranges_eq net_contains_def to4_mapped apply_mask_def byte_masks byte_eq_iff)

lemma isDN42_v6:
  assumes "to4 a = None" "length a = 16"
  shows "isDN42 a \<longleftrightarrow> unat (a ! 0) = 0xfd"
proof -
  obtain x xs where a: "a = x # xs" "length xs = 15" using assms(2) by (cases a) auto
  have "map2 (AND) xs (replicate 15 0) = replicate 15 (0 :: 8 word)"
    using a(2) by (simp add: list_eq_iff_nth_eq)
  moreover have "map2 (AND) (replicate 15 0) (replicate 15 0) = replicate 15 (0 :: 8 word)"
    by (simp add: list_eq_iff_nth_eq)
  ultimately show ?thesis using assms a
    by (simp add: isDN42_def dn42Ranges_eq net_contains_def apply_mask_def byte_masks byte_eq_iff)
qed

lemma bytesEqual_iff: "bytesEqual a b \<longleftrightarrow> a = b"
  unfolding bytesEqual_def list_eq_iff_nth_eq [of a b] by auto

lemma classes_v4:
  fixes w x y z :: "8 word"
  defines "a \<equiv> v4_mapped [w, x, y, z]"
  shows "(is_loopback a \<or> is_link_local_unicast a \<or> is_link_local_multicast a \<or> is_multicast a \<or>
      is_unspecified a \<or> is_interface_local_multicast a) \<longleftrightarrow>
    unat w = 127 \<or> unat w = 169 \<and> unat x = 254 \<or> 224 \<le> unat w \<and> unat w \<le> 239 \<or>
    [w, x, y, z] = [0, 0, 0, 0]"
proof -
  have "a ! 0 = 0" by (simp add: a_def v4_mapped_def v4_in_v6_def nth_append)
  moreover have "a ! 10 = 255" by (simp add: a_def v4_mapped_def v4_in_v6_def nth_append)
  then have "a \<noteq> replicate 16 0" by auto
  moreover have "a = v4_mapped [0, 0, 0, 0] \<longleftrightarrow> [w, x, y, z] = [0, 0, 0, 0]"
    by (simp add: a_def v4_mapped_def)
  moreover have "to4 a = Some [w, x, y, z]" by (simp add: a_def to4_mapped)
  ultimately show ?thesis
    by (auto simp: is_loopback_def is_link_local_unicast_def is_link_local_multicast_def
        is_multicast_def is_unspecified_def is_interface_local_multicast_def ip_equal_def byte_masks
        byte_eq_iff)
qed

lemma classes_v6:
  assumes "to4 a = None" "length a = 16"
  shows "(is_loopback a \<or> is_link_local_unicast a \<or> is_link_local_multicast a \<or> is_multicast a \<or>
      is_unspecified a \<or> is_interface_local_multicast a) \<longleftrightarrow>
    unat (a ! 0) = 0xff \<or> unat (a ! 0) = 0xfe \<and> 0x80 \<le> unat (a ! 1) \<and> unat (a ! 1) \<le> 0xbf \<or>
    a = replicate 16 0 \<or> a = replicate 15 0 @ [1]"
proof -
  have "a \<noteq> v4_mapped [0, 0, 0, 0]" using assms(1) by (auto simp: to4_mapped)
  with assms show ?thesis
    by (auto simp: is_loopback_def is_link_local_unicast_def is_link_local_multicast_def
        is_multicast_def is_unspecified_def is_interface_local_multicast_def ip_equal_def byte_masks
        byte_eq_iff)
qed

lemma validate_iff:
  "validateNetworkTarget target = Inr () \<longleftrightarrow> (\<exists>a. parse_ip target = Some a \<and> probe_allowed a)"
proof (cases "parse_ip target")
  case None
  then show ?thesis by (simp add: validateNetworkTarget_def)
next
  case (Some a)
  then have len: "length a = 16" by (rule parse_ip_props)
  show ?thesis
  proof (cases "to4 a")
    case None
    have "(replicate 15 0 @ [1 :: 8 word]) ! 0 = 0" by (simp add: nth_append)
    with None Some len show ?thesis
      by (auto simp: validateNetworkTarget_def byte_eq_iff probe_allowed_def isDN42_v6 classes_v6 byte_masks Let_def)
  next
    case q: (Some q)
    then obtain w x y z where a: "q = [w, x, y, z]" "a = v4_mapped [w, x, y, z]"
      using len by (rule to4_SomeE)
    with Some show ?thesis
      by (auto simp: validateNetworkTarget_def probe_allowed_def isDN42_v4 classes_v4 to4_mapped
          bytesEqual_iff byte_eq_iff word_le_nat_alt Let_def)
  qed
qed


text \<open>
  C6: the looking glass accepts exactly the addresses of the allowed ranges. A target passes
  \<open>validateNetworkTarget\<close> if and only if it parses as an IP address and that address is in a DN42
  range, or is IPv4 or IPv6 space outside the private, loopback, link-local, multicast, unspecified
  and broadcast ranges, an IPv4 address in IPv6 clothing being judged as the IPv4 address it is.
\<close>

theorem target_allowed_iff:
  "validateNetworkTarget target = Inr () \<longleftrightarrow> (\<exists>a. parse_ip target = Some a \<and> probe_allowed a)"
  by (rule validate_iff)

section \<open>What reaches a command line\<close>

lemma validated_parses:
  assumes "validateNetworkTarget s = Inr ()"
  obtains a where "parse_ip s = Some a" "length a = 16"
  using assms parse_ip_props(1) by (auto simp: validateNetworkTarget_def split: option.splits)

lemma first_allowed_validated:
  "first_allowed ips e = Inr s \<Longrightarrow> validateNetworkTarget s = Inr ()"
  by (induction ips e rule: first_allowed.induct) (auto split: sum.splits)

lemma first_allowed_split:
  "first_allowed ips e = Inr s \<Longrightarrow> \<exists>before a after. ips = before @ a # after \<and> s = ip_string a \<and>
     (\<forall>b \<in> set before. validateNetworkTarget (ip_string b) \<noteq> Inr ())"
proof (induction ips e rule: first_allowed.induct)
  case (2 a as e)
  show ?case
  proof (cases "validateNetworkTarget (ip_string a)")
    case (Inl err)
    with 2 obtain before b after where "as = before @ b # after" "s = ip_string b"
      "\<forall>b \<in> set before. validateNetworkTarget (ip_string b) \<noteq> Inr ()"
      by auto
    with Inl show ?thesis by (intro exI [of _ "a # before"]) auto
  next
    case (Inr u)
    with 2 show ?thesis by (intro exI [of _ "[]"] exI [of _ a] exI [of _ as]) auto
  qed
qed simp

text \<open>An argument that a program cannot take for an option and that a shell cannot take apart.\<close>

definition plain_address :: "string \<Rightarrow> bool" where
  "plain_address s \<longleftrightarrow> s \<noteq> [] \<and> \<not> has_prefix ''-'' s \<and> (\<forall>c \<in> set s. addr_char c)"

lemma parsed_plain:
  assumes "parse_ip s = Some a"
  shows "plain_address s"
proof -
  have "\<forall>c \<in> set s. addr_char c" "s \<noteq> []" using parse_ip_props [OF assms] by simp_all
  moreover have "\<not> addr_char CHR ''-''" by (simp add: addr_char_def is_hex_def hex_val_def)
  ultimately show ?thesis by (auto simp: plain_address_def has_prefix_iff)
qed

lemma resolve_validated:
  assumes "resolveAndValidate E target h = Inr s"
  shows "validateNetworkTarget s = Inr ()"
  using assms first_allowed_validated
  by (auto simp: resolveAndValidate_def Let_def split: if_splits sum.splits option.splits)

text \<open>
  C10: whatever target the center sends, what \<open>resolveAndValidate\<close> returns is the text of an
  allowed address, made of hexadecimal digits, dots and colons and not starting with a dash. A
  literal address is returned as sent, and a name only when one of the addresses it resolves to is
  allowed, of which the first is taken.
\<close>

theorem resolved_target_is_allowed_address:
  assumes "resolveAndValidate E target h = Inr s"
  shows "(\<exists>a. parse_ip s = Some a \<and> probe_allowed a) \<and> plain_address s \<and>
    (s = trim_space target \<or>
     (\<exists>ips before a after. eResolve E (trim_space target) h = Inr ips \<and> ips = before @ a # after \<and>
        s = ip_string a \<and> (\<forall>b \<in> set before. validateNetworkTarget (ip_string b) \<noteq> Inr ())))"
proof (intro conjI)
  show a: "\<exists>a. parse_ip s = Some a \<and> probe_allowed a"
    using resolve_validated [OF assms] by (simp add: validate_iff)
  then show "plain_address s" using parsed_plain by auto
  show "s = trim_space target \<or>
     (\<exists>ips before a after. eResolve E (trim_space target) h = Inr ips \<and> ips = before @ a # after \<and>
        s = ip_string a \<and> (\<forall>b \<in> set before. validateNetworkTarget (ip_string b) \<noteq> Inr ()))"
    using assms first_allowed_split
    by (fastforce simp: resolveAndValidate_def Let_def split: if_splits sum.splits option.splits)
qed


lemma resolved_target_is_allowed_address_witness:
  "\<exists>a. parse_ip ''172.20.0.53'' = Some a \<and> probe_allowed a"
proof -
  have "parse_ip ''172.20.0.53'' = Some (v4_mapped [172, 20, 0, 53])"
    by (simp add: parse_ip_def parse_addr_def parse_v4_def v4_octet_def is_digit_def digits_val_def
        digit_val_def)
  moreover from this have "validateNetworkTarget ''172.20.0.53'' = Inr ()"
    by (simp add: validate_iff probe_allowed_def to4_mapped)
  ultimately have "resolveAndValidate (demo_env (\<lambda>_. False) (\<lambda>_. [])) '' 172.20.0.53 '' empty_host =
      Inr ''172.20.0.53''"
    by (simp add: resolveAndValidate_def trim_space_def has_prefix_def ascii_space_def space2_def space3_def)
  then show ?thesis
    using resolved_target_is_allowed_address by blast
qed

section \<open>What a probe may run\<close>

text \<open>
  The command lines of the three probes: at most 20 packets, 64 hops or 10 cycles, and one allowed
  address.
\<close>

definition probe_cmd :: "string list \<Rightarrow> bool" where
  "probe_cmd argv \<longleftrightarrow>
     (\<exists>s a. parse_ip s = Some a \<and> probe_allowed a \<and> plain_address s \<and>
        ((\<exists>n. 1 \<le> n \<and> n \<le> 20 \<and> argv = [''ping'', ''-c'', itoa n, ''-W'', ''3'', s]) \<or>
         (\<exists>n. 1 \<le> n \<and> n \<le> 64 \<and>
            argv = [''traceroute'', ''-m'', itoa n, ''-w'', ''3'', ''-q'', ''3'', s]) \<or>
         (\<exists>n. 1 \<le> n \<and> n \<le> 10 \<and>
            (argv = [''mtr'', ''-r'', ''-c'', itoa n, ''-j'', s] \<or>
             argv = [''mtr'', ''-r'', ''-c'', itoa n, s]))))"

definition run_all :: "os \<Rightarrow> string list list \<Rightarrow> host \<Rightarrow> host" where
  "run_all Os argvs h = fold (\<lambda>argv h. snd (run_cmd Os argv h)) argvs h"

text \<open>
  The effect of a probe: it runs nothing but probe commands, two at most, answers once, and reports
  success only when the last of the commands succeeded.
\<close>

definition probes_only :: "'db env \<Rightarrow> Message \<Rightarrow> 'db agent \<Rightarrow> 'db agent \<Rightarrow> bool" where
  "probes_only E msg st st' \<longleftrightarrow>
     a_db st' = a_db st \<and>
     (\<exists>argvs m. length argvs \<le> 2 \<and> (\<forall>argv \<in> set argvs. probe_cmd argv) \<and>
        a_host st' = run_all (eOs E) argvs (a_host st) \<and> answers E msg st st' m \<and>
        (m_Success m = Some True \<longrightarrow>
           argvs \<noteq> [] \<and>
           cmd_err (fst (run_cmd (eOs E) (last argvs) (run_all (eOs E) (butlast argvs) (a_host st)))) = None))"

lemma clamp_bounds: "1 \<le> dflt \<Longrightarrow> dflt \<le> lim \<Longrightarrow> 1 \<le> clamp dflt lim n \<and> clamp dflt lim n \<le> lim"
  by (simp add: clamp_def Let_def)

lemma resolved_probe_cmd:
  assumes "resolveAndValidate E target h = Inr s"
  shows "probe_cmd [''ping'', ''-c'', itoa (clamp 4 20 n), ''-W'', ''3'', s]"
    "probe_cmd [''traceroute'', ''-m'', itoa (clamp 30 64 n), ''-w'', ''3'', ''-q'', ''3'', s]"
    "probe_cmd [''mtr'', ''-r'', ''-c'', itoa (clamp 5 10 n), ''-j'', s]"
    "probe_cmd [''mtr'', ''-r'', ''-c'', itoa (clamp 5 10 n), s]"
proof -
  obtain a where a: "parse_ip s = Some a \<and> probe_allowed a \<and> plain_address s"
    using resolve_validated [OF assms] parsed_plain by (auto simp: validate_iff)
  have n: "1 \<le> clamp 4 20 n \<and> clamp 4 20 n \<le> 20" "1 \<le> clamp 30 64 n \<and> clamp 30 64 n \<le> 64"
    "1 \<le> clamp 5 10 n \<and> clamp 5 10 n \<le> 10"
    by (rule clamp_bounds; simp)+
  show "probe_cmd [''ping'', ''-c'', itoa (clamp 4 20 n), ''-W'', ''3'', s]"
    unfolding probe_cmd_def using a n(1) by (intro exI [of _ s] exI [of _ a]) auto
  show "probe_cmd [''traceroute'', ''-m'', itoa (clamp 30 64 n), ''-w'', ''3'', ''-q'', ''3'', s]"
    unfolding probe_cmd_def using a n(2) by (intro exI [of _ s] exI [of _ a]) auto
  show "probe_cmd [''mtr'', ''-r'', ''-c'', itoa (clamp 5 10 n), ''-j'', s]"
    "probe_cmd [''mtr'', ''-r'', ''-c'', itoa (clamp 5 10 n), s]"
    unfolding probe_cmd_def using a n(3) by (intro exI [of _ s] exI [of _ a]; auto)+
qed

lemma msg_success [simp]:
  "m_Success (response_msg i b t) = (if b then Some True else None)"
  "m_Success (payload_msg i ok j) = ok"
  by (simp_all add: response_msg_def payload_msg_def)

text \<open>How a handler shows \<open>probes_only\<close>: by its command lines and its answer.\<close>

lemma probes_onlyI:
  assumes "a_db st' = a_db st" "length argvs \<le> 2" "\<forall>argv \<in> set argvs. probe_cmd argv"
    "a_host st' = run_all (eOs E) argvs (a_host st)" "answers E msg st st' m"
    "m_Success m = Some True \<Longrightarrow> argvs \<noteq> [] \<and>
       cmd_err (fst (run_cmd (eOs E) (last argvs) (run_all (eOs E) (butlast argvs) (a_host st)))) = None"
  shows "probes_only E msg st st'"
  using assms unfolding probes_only_def by blast

lemma refuse_probes_only:
  "probes_only E msg st (sendResponse E (m_ID msg) False e st)"
  by (rule probes_onlyI [where argvs = "[]" and m = "response_msg (m_ID msg) False e"])
    (auto simp: run_all_def)

lemma fail_probes_only:
  assumes "length argvs \<le> 2" "\<forall>argv \<in> set argvs. probe_cmd argv"
    "a_host st1 = run_all (eOs E) argvs (a_host st)" "a_db st1 = a_db st" "a_ws st1 = a_ws st"
  shows "probes_only E msg st (sendResponse E (m_ID msg) False e st1)"
  using assms
  by (intro probes_onlyI [where argvs = argvs and m = "response_msg (m_ID msg) False e"])
    auto


lemma ok_probes_only:
  assumes "length argvs \<le> 2" "\<forall>argv \<in> set argvs. probe_cmd argv" "argvs \<noteq> []"
    "a_host st1 = run_all (eOs E) argvs (a_host st)" "a_db st1 = a_db st" "a_ws st1 = a_ws st"
    "cmd_err (fst (run_cmd (eOs E) (last argvs) (run_all (eOs E) (butlast argvs) (a_host st)))) = None"
  shows "probes_only E msg st (send_msg E (payload_msg (m_ID msg) (Some True) j) st1)"
  using assms
  by (intro probes_onlyI [where argvs = argvs and m = "payload_msg (m_ID msg) (Some True) j"]) auto

lemma ping_probes_only: "probes_only E msg st (handleNetworkPing E msg st)"
proof (cases "unmarshal (net_dec ''count'') (m_Payload msg)")
  case None
  then show ?thesis by (simp add: handleNetworkPing_def refuse_probes_only)
next
  case (Some p)
  obtain target n where p: "p = (target, n)" by fastforce
  show ?thesis
  proof (cases "resolveAndValidate E target (a_host st)")
    case (Inl e)
    with Some p show ?thesis by (simp add: handleNetworkPing_def refuse_probes_only)
  next
    case (Inr s)
    let ?argv = "[''ping'', ''-c'', itoa (clamp 4 20 n), ''-W'', ''3'', s]"
    obtain r h where run: "run_cmd (eOs E) ?argv (a_host st) = (r, h)" by fastforce
    have cmd: "\<forall>argv \<in> set [?argv]. probe_cmd argv" using resolved_probe_cmd(1) [OF Inr] by simp
    have all: "run_all (eOs E) [?argv] (a_host st) = h" by (simp add: run_all_def run)
    from Some p Inr run cmd all show ?thesis
      by (auto simp: handleNetworkPing_def on_host_def run_all_def simp del: list.set
          intro!: fail_probes_only [where argvs = "[?argv]"] ok_probes_only [where argvs = "[?argv]"]
          split: option.splits)
  qed
qed

lemma trace_probes_only: "probes_only E msg st (handleNetworkTrace E msg st)"
proof (cases "unmarshal (net_dec ''max_hops'') (m_Payload msg)")
  case None
  then show ?thesis by (simp add: handleNetworkTrace_def refuse_probes_only)
next
  case (Some p)
  obtain target n where p: "p = (target, n)" by fastforce
  show ?thesis
  proof (cases "resolveAndValidate E target (a_host st)")
    case (Inl e)
    with Some p show ?thesis by (simp add: handleNetworkTrace_def refuse_probes_only)
  next
    case (Inr s)
    let ?argv = "[''traceroute'', ''-m'', itoa (clamp 30 64 n), ''-w'', ''3'', ''-q'', ''3'', s]"
    obtain r h where run: "run_cmd (eOs E) ?argv (a_host st) = (r, h)" by fastforce
    have cmd: "\<forall>argv \<in> set [?argv]. probe_cmd argv" using resolved_probe_cmd(2) [OF Inr] by simp
    have all: "run_all (eOs E) [?argv] (a_host st) = h" by (simp add: run_all_def run)
    from Some p Inr run cmd all show ?thesis
      by (auto simp: handleNetworkTrace_def on_host_def run_all_def simp del: list.set
          intro!: fail_probes_only [where argvs = "[?argv]"] ok_probes_only [where argvs = "[?argv]"]
          split: option.splits)
  qed
qed

lemma mtr_probes_only: "probes_only E msg st (handleNetworkMTR E msg st)"
proof (cases "unmarshal (net_dec ''cycles'') (m_Payload msg)")
  case None
  then show ?thesis by (simp add: handleNetworkMTR_def refuse_probes_only)
next
  case (Some p)
  obtain target n where p: "p = (target, n)" by fastforce
  show ?thesis
  proof (cases "resolveAndValidate E target (a_host st)")
    case (Inl e)
    with Some p show ?thesis by (simp add: handleNetworkMTR_def refuse_probes_only)
  next
    case (Inr s)
    let ?j = "[''mtr'', ''-r'', ''-c'', itoa (clamp 5 10 n), ''-j'', s]"
    let ?raw = "[''mtr'', ''-r'', ''-c'', itoa (clamp 5 10 n), s]"
    obtain r h where run: "run_cmd (eOs E) ?j (a_host st) = (r, h)" by fastforce
    obtain r' h' where run': "run_cmd (eOs E) ?raw h = (r', h')" by fastforce
    have cmd: "\<forall>argv \<in> set [?j]. probe_cmd argv" "\<forall>argv \<in> set [?j, ?raw]. probe_cmd argv"
      using resolved_probe_cmd(3,4) [OF Inr] by simp_all
    have all: "run_all (eOs E) [?j] (a_host st) = h" "run_all (eOs E) [?j, ?raw] (a_host st) = h'"
      by (simp_all add: run_all_def run run')
    note args = Some p Inr run run' cmd all
    show ?thesis
    proof (cases "cmd_err r")
      case None
      with args show ?thesis
        by (auto simp: handleNetworkMTR_def on_host_def run_all_def Let_def simp del: list.set
            intro!: ok_probes_only [where argvs = "[?j]"])
    next
      case (Some e)
      with args show ?thesis
        by (auto simp: handleNetworkMTR_def on_host_def run_all_def Let_def simp del: list.set
            intro!: fail_probes_only [where argvs = "[?j, ?raw]"] ok_probes_only [where argvs = "[?j, ?raw]"]
            split: option.splits)
    qed
  qed
qed

text \<open>
  C9: a looking-glass command of the center costs at most a bounded probe. Whatever the message
  holds, \<open>network.ping\<close>, \<open>network.trace\<close> and \<open>network.mtr\<close> run no other program than ping,
  traceroute or mtr, at most twice, with at most 20 packets, 64 hops or 10 cycles, on one allowed
  address; they answer exactly once, report success only when the last command succeeded, and leave
  the database alone.
\<close>

theorem probes_are_bounded:
  "probes_only E msg st (handleNetworkPing E msg st) \<and>
   probes_only E msg st (handleNetworkTrace E msg st) \<and>
   probes_only E msg st (handleNetworkMTR E msg st)"
  by (simp add: ping_probes_only trace_probes_only mtr_probes_only)


section \<open>Route lookups\<close>

text \<open>
  The characters of a target that birdc is given: those of an address, or of an address followed by a slash
  and a number of at most 128. This is a condition on the characters alone, from which it follows that the target
  is one word of birdc; that the target is an address or prefix is what \<open>parse_ip\<close> and \<open>parse_cidr\<close> say of it.
\<close>

definition plain_prefix :: "string \<Rightarrow> bool" where
  "plain_prefix s \<longleftrightarrow>
     plain_address s \<or>
     (\<exists>a m. s = a @ ''/'' @ m \<and> plain_address a \<and> m \<noteq> [] \<and> (\<forall>c \<in> set m. is_digit c) \<and> digits_val m \<le> 128)"

lemma parse_cidr_plain:
  assumes "parse_cidr s = Some r"
  shows "plain_prefix s"
proof -
  let ?p = "\<lambda>c. c \<noteq> CHR ''/''"
  let ?a = "takeWhile ?p s" and ?m = "tl (dropWhile ?p s)"
  have slash: "CHR ''/'' \<in> set s" using assms by (auto simp: parse_cidr_def split: if_splits)
  then have "dropWhile ?p s \<noteq> []" by auto
  then have "dropWhile ?p s = CHR ''/'' # ?m" using hd_dropWhile [of ?p s] by (cases "dropWhile ?p s") auto
  then have s: "s = ?a @ ''/'' @ ?m" using takeWhile_dropWhile_id [of ?p s] by simp
  have "parse_addr ?a \<noteq> None" using assms by (auto simp: parse_cidr_def Let_def split: if_splits option.splits)
  then obtain b where "parse_ip ?a = Some b" by (auto simp: parse_ip_def)
  then have "plain_address ?a" by (rule parsed_plain)
  moreover have "?m \<noteq> []" "\<forall>c \<in> set ?m. is_digit c" "digits_val ?m \<le> 128"
    using assms by (auto simp: parse_cidr_def Let_def split: if_splits option.splits prod.splits)
  ultimately show ?thesis using s unfolding plain_prefix_def by blast
qed

lemma has_prefix_mem: "has_prefix p s \<Longrightarrow> set p \<subseteq> set s"
  by (auto simp: has_prefix_iff)

lemma contains_mem: "contains p s \<Longrightarrow> set p \<subseteq> set s"
  using has_prefix_mem by (induction p s rule: contains.induct) fastforce+

lemma contains_slash: "contains ''/'' s \<longleftrightarrow> CHR ''/'' \<in> set s"
  using contains_mem [of "''/''" s] by (auto simp: contains_iff in_set_conv_decomp)

lemma parsed_no_slash: "parse_ip s = Some a \<Longrightarrow> \<not> contains ''/'' s"
  using parsed_plain [of s a]
  by (auto simp: contains_slash plain_address_def addr_char_def is_hex_def hex_val_def)

lemma cidr_slash: "parse_cidr s = Some r \<Longrightarrow> contains ''/'' s"
  by (auto simp: contains_slash parse_cidr_def split: if_splits)

lemma plain_prefix_no_option: "plain_prefix s \<Longrightarrow> s \<noteq> [] \<and> \<not> has_prefix ''-'' s"
  by (auto simp: plain_prefix_def plain_address_def has_prefix_def take_Cons' split: if_splits)

text \<open>A target names a route exactly when \<open>net.ParseIP\<close> or \<open>net.ParseCIDR\<close> reads it.\<close>

definition names_route :: "string \<Rightarrow> bool" where
  "names_route s \<longleftrightarrow> parse_ip s \<noteq> None \<or> parse_cidr s \<noteq> None"

lemma names_route_plain: "names_route s \<Longrightarrow> plain_prefix s"
  using parsed_plain [of s] parse_cidr_plain [of s] unfolding names_route_def plain_prefix_def by blast

lemma route_target_iff: "route_target t = Inr s \<longleftrightarrow> s = trim_space t \<and> names_route s"
  using plain_prefix_no_option [OF names_route_plain, of "trim_space t"] parsed_no_slash [of "trim_space t"]
    cidr_slash [of "trim_space t"]
  by (auto simp: route_target_def names_route_def Let_def split: if_splits)

text \<open>A request is turned down: nothing has run and one answer gives the reason.\<close>

definition turned_down :: "'db env \<Rightarrow> Message \<Rightarrow> 'db agent \<Rightarrow> 'db agent \<Rightarrow> bool" where
  "turned_down E msg st st' \<longleftrightarrow>
     a_host st' = a_host st \<and> (\<exists>e. answers E msg st st' (response_msg (m_ID msg) False e))"

lemma route_output:
  assumes "ShowRoute Os m s d h = (r, h')"
  shows "\<exists>c. run_cmd Os (birdcPath m # route_args s d) h = (c, h') \<and>
    (case r of
       Inl e \<Rightarrow> cmd_err c \<noteq> None
     | Inr out \<Rightarrow> cmd_err c = None \<and> out = (let all = trim_space (combined c) in
         if length all \<le> 65536 then all else take 65536 all @ truncation_note))"
  using assms
  by (auto simp: ShowRoute_def maxRouteOutput_def Let_def split: prod.splits option.splits if_splits)

text \<open>
  C25: a route lookup asks BIRD for exactly the address or prefix of the request. When the target of
  the payload, trimmed, is read by \<open>net.ParseIP\<close> or \<open>net.ParseCIDR\<close>, \<open>handleBirdRoute\<close> runs one command,
  birdc \<open>show route for\<close> that address or \<open>show route\<close> that prefix, with \<open>all\<close> when the request is for
  details; the target is one word without blanks or a leading dash, and the one answer is an error when birdc failed and otherwise
  holds the target and the trimmed output, cut after 65536 bytes. When the payload does not decode or the target is
  neither an address nor a prefix, nothing runs and the answer is an error. The database stays as it is.
\<close>

theorem route_lookup_one_prefix:
  "a_db (handleBirdRoute E msg st) = a_db st \<and>
   (case unmarshal route_dec (m_Payload msg) of
      None \<Rightarrow> turned_down E msg st (handleBirdRoute E msg st)
    | Some (t, d) \<Rightarrow>
        (let s = trim_space t in
         if \<not> names_route s then turned_down E msg st (handleBirdRoute E msg st)
         else plain_prefix s \<and>
           (\<exists>c. run_cmd (eOs E) (birdcPath (eBird E) # [''show'', ''route''] @
                   (if parse_ip s \<noteq> None then [''for'', s] else [s]) @ (if d then [''all''] else [])) (a_host st) =
                 (c, a_host (handleBirdRoute E msg st)) \<and>
              (case cmd_err c of
                 Some _ \<Rightarrow> \<exists>e. answers E msg st (handleBirdRoute E msg st) (response_msg (m_ID msg) False e)
               | None \<Rightarrow> answers E msg st (handleBirdRoute E msg st) (payload_msg (m_ID msg) (Some True)
                   (JObj [(''output'', JStr (let all = trim_space (combined c) in
                       if length all \<le> 65536 then all else take 65536 all @ truncation_note)),
                     (''target'', JStr s)]))))))"
proof (cases "unmarshal route_dec (m_Payload msg)")
  case None
  then show ?thesis by (auto simp: handleBirdRoute_def turned_down_def)
next
  case (Some p)
  obtain t d where p: "p = (t, d)" by fastforce
  let ?s = "trim_space t"
  show ?thesis
  proof (cases "names_route ?s")
    case False
    then obtain e where "route_target t = Inl e" by (cases "route_target t") (auto simp: route_target_iff)
    with Some p False show ?thesis by (auto simp: handleBirdRoute_def turned_down_def Let_def)
  next
    case True
    then have target: "route_target t = Inr ?s" by (simp add: route_target_iff)
    obtain r h where show_route: "ShowRoute (eOs E) (eBird E) ?s d (a_host st) = (r, h)" by fastforce
    have args: "route_args ?s d = [''show'', ''route''] @ (if parse_ip ?s \<noteq> None then [''for'', ?s] else [?s]) @
        (if d then [''all''] else [])"
      using True parsed_no_slash [of ?s] cidr_slash [of ?s]
      by (cases "parse_ip ?s") (auto simp: route_args_def names_route_def)
    obtain c where c: "run_cmd (eOs E) (birdcPath (eBird E) # route_args ?s d) (a_host st) = (c, h)"
      "case r of Inl e \<Rightarrow> cmd_err c \<noteq> None
       | Inr out \<Rightarrow> cmd_err c = None \<and> out = (let all = trim_space (combined c) in
         if length all \<le> 65536 then all else take 65536 all @ truncation_note)"
      using route_output [OF show_route] by blast
    show ?thesis
    proof (cases r)
      case (Inl e)
      with Some p target show_route have "handleBirdRoute E msg st = sendResponse E (m_ID msg) False e (st\<lparr>a_host := h\<rparr>)"
        by (simp add: handleBirdRoute_def on_host_def)
      moreover have "answers E msg st (sendResponse E (m_ID msg) False e (st\<lparr>a_host := h\<rparr>)) (response_msg (m_ID msg) False e)"
        by (rule answers_response) simp
      ultimately show ?thesis using Inl Some p True c args names_route_plain [OF True] by (auto simp: Let_def)
    next
      case (Inr out)
      with Some p target show_route have "handleBirdRoute E msg st =
          send_msg E (payload_msg (m_ID msg) (Some True) (JObj [(''output'', JStr out), (''target'', JStr ?s)]))
            (st\<lparr>a_host := h\<rparr>)"
        by (simp add: handleBirdRoute_def on_host_def)
      with Inr Some p True c args names_route_plain [OF True] show ?thesis by (auto simp: Let_def)
    qed
  qed
qed

section \<open>Traceroute\<close>

text \<open>Words of printable ASCII, and the text that holds them with blanks between.\<close>

definition word_ok :: "string \<Rightarrow> bool" where
  "word_ok w \<longleftrightarrow> w \<noteq> [] \<and> (\<forall>c \<in> set w. 33 \<le> byte_of c \<and> byte_of c \<le> 126)"

fun spaced :: "(nat \<times> string) list \<Rightarrow> string" where
  "spaced [] = []"
| "spaced ((k, w) # ws) = replicate (Suc k) CHR '' '' @ w @ spaced ws"

lemma space_len_printable:
  "33 \<le> byte_of c \<Longrightarrow> byte_of c \<le> 126 \<Longrightarrow> space_len (c # s) = 0"
  by (auto simp: ascii_space_def space2_def space3_def split: list.splits)

lemma fields_word:
  "\<forall>c \<in> set w. 33 \<le> byte_of c \<and> byte_of c \<le> 126 \<Longrightarrow> fields_from 0 u (w @ s) = fields_from 0 (u @ w) s"
  by (induction w arbitrary: u) (simp_all add: space_len_printable del: space_len.simps)

lemma fields_blanks: "fields_from 0 [] (replicate k CHR '' '' @ s) = fields_from 0 [] s"
  by (induction k) (simp_all add: ascii_space_def)

lemma fields_spaced:
  "\<forall>(k, w) \<in> set ws. word_ok w \<Longrightarrow>
     fields_from 0 u (spaced ws) = (if u = [] then [] else [u]) @ map snd ws"
proof (induction ws arbitrary: u rule: spaced.induct)
  case (2 k w ws)
  have "fields_from 0 u (spaced ((k, w) # ws)) = (if u = [] then [] else [u]) @ fields_from 0 [] (w @ spaced ws)"
    by (simp add: fields_blanks ascii_space_def)
  also have "fields_from 0 [] (w @ spaced ws) = fields_from 0 w (spaced ws)"
    using 2(2) fields_word [of w "[]"] by (simp add: word_ok_def)
  finally show ?case using 2 by (auto simp: word_ok_def)
qed simp


text \<open>
  A line of traceroute: the hop, the name, the address in parentheses, and for each probe its time
  and the unit as a word of its own, or an asterisk.
\<close>

fun hop_probe :: "string option \<Rightarrow> (nat \<times> string) list" where
  "hop_probe None = [(0, ''*'')]"
| "hop_probe (Some t) = [(1, t), (0, ''ms'')]"

definition hop_line :: "nat \<Rightarrow> nat \<Rightarrow> string \<Rightarrow> string \<Rightarrow> string option list \<Rightarrow> string" where
  "hop_line p ttl name ip ps =
     replicate p CHR '' '' @ nat_str ttl @
     spaced ((1, name) # (0, ''('' @ ip @ '')'') # concat (map hop_probe ps))"

definition hop_text :: "string \<Rightarrow> bool" where
  "hop_text w \<longleftrightarrow> word_ok w \<and> (\<forall>c \<in> set w. \<not> paren c)"

lemma no_parens: "hop_text w \<Longrightarrow> \<not> contains ''('' w \<and> \<not> contains '')'' w \<and> \<not> has_prefix ''('' w"
  using contains_mem [of "''(''" w] contains_mem [of "'')''" w] has_prefix_mem [of "''(''" w]
  by (auto simp: hop_text_def paren_def)

lemma trim_parens_wrap: "hop_text ip \<Longrightarrow> trim_parens (''('' @ ip @ '')'') = ip"
proof -
  assume "hop_text ip"
  then have "\<forall>c \<in> set ip. \<not> paren c" "ip \<noteq> []" by (auto simp: hop_text_def word_ok_def)
  moreover from this have "dropWhile paren (rev ip) = rev ip" "dropWhile paren (ip @ '')'') = ip @ '')''"
    by (simp_all add: dropWhile_eq_self_iff hd_append hd_rev)
  ultimately show ?thesis by (simp add: trim_parens_def paren_def)
qed

lemma number_word:
  assumes "t \<noteq> []" "\<forall>c \<in> set t. rx_number c"
  shows "hop_text t" "\<not> contains ''ms'' t" "\<not> has_prefix ''ms'' t" "t \<noteq> ''*''"
proof -
  have ch: "33 \<le> byte_of c \<and> byte_of c \<le> 126 \<and> \<not> paren c \<and> c \<noteq> CHR ''m'' \<and> c \<noteq> CHR ''*''"
    if "c \<in> set t" for c
  proof -
    consider "is_digit c" | "c = CHR ''.''" using assms(2) \<open>c \<in> set t\<close> by (auto simp: rx_number_def)
    then show ?thesis by cases (auto simp: is_digit_def paren_def)
  qed
  then show "hop_text t" using assms(1) by (simp add: hop_text_def word_ok_def)
  have "CHR ''m'' \<notin> set t" "CHR ''*'' \<notin> set t" using ch by blast+
  then show "\<not> contains ''ms'' t" "\<not> has_prefix ''ms'' t" "t \<noteq> ''*''"
    using contains_mem [of "''ms''" t] has_prefix_mem [of "''ms''" t] by auto
qed

lemma probe_fields:
  assumes "pf [] = (x, Some e)" "ip \<noteq> []" "\<forall>t. Some t \<in> set ps \<longrightarrow> t \<noteq> [] \<and> (\<forall>c \<in> set t. rx_number c)"
  shows "fold (trace_field pf) (map snd (concat (map hop_probe ps))) (ip, []) = (ip, [])"
  using assms(3)
proof (induction ps)
  case (Cons q ps)
  show ?case
  proof (cases q)
    case None
    with Cons show ?thesis by (simp add: trace_field_def)
  next
    case (Some t)
    with Cons.prems have "t \<noteq> []" "\<forall>c \<in> set t. rx_number c" by auto
    note t = number_word [OF this]
    have "trace_field pf t (ip, []) = (ip, [])"
      using t no_parens [OF t(1)] assms(2) by (simp add: trace_field_def)
    moreover have "trace_field pf ''ms'' (ip, []) = (ip, [])"
      using assms(1) by (simp add: trace_field_def has_prefix_def has_suffix_def trim_suffix_def)
    ultimately show ?thesis using Some Cons by simp
  qed
qed simp

lemma digit_not_rx_space: "is_digit c \<Longrightarrow> \<not> rx_space c"
  by (auto simp: is_digit_def rx_space_def)

lemma trace_line_match:
  assumes "rest \<noteq> []" "\<not> rx_space (hd rest)" "\<forall>c \<in> set rest. rx_any c"
  shows "\<exists>g. rmatch traceLineRe [] [] (replicate p CHR '' '' @ nat_str ttl @ ''  '' @ rest) = Some (g, []) \<and>
    group g 1 = nat_str ttl \<and> group g 2 = rest"
proof -
  let ?n = "nat_str ttl"
  have d: "\<forall>c \<in> set ?n. is_digit c" using nat_str_digits by blast
  have any: "rmatch (cap 2 [Star rx_any] @ [End]) os cs rest = Some ((2, rest) # cs, [])" for os cs
    using rmatch_star_stop [OF assms(3), of "[]" "[Shut 2, End]" "(2, rest) # os" cs]
    by (simp add: cap_def)
  have sp: "rmatch (plus rx_space @ cap 2 [Star rx_any] @ [End]) os cs (''  '' @ rest) = Some ((2, rest) # cs, [])" for os cs
    by (rule plus_stop) (use assms any in \<open>auto simp: rx_space_def\<close>)
  have "rmatch (cap 1 (plus is_digit) @ plus rx_space @ cap 2 [Star rx_any] @ [End]) [] [] (?n @ ''  '' @ rest) =
      Some ([(2, rest), (1, ?n)], [])"
    by (rule cap_step) (use d sp in \<open>auto simp: is_digit_def\<close>)
  moreover have "\<not> rx_space (hd ?n)"
    using d nat_str_not_Nil [of ttl] by (metis list.set_sel(1) digit_not_rx_space)
  ultimately have "rmatch traceLineRe [] [] (replicate p CHR '' '' @ ?n @ ''  '' @ rest) = Some ([(2, rest), (1, ?n)], [])"
    unfolding traceLineRe_def append.simps by (intro rmatch_star_stop) (auto simp: rx_space_def)
  then show ?thesis by (simp add: group_def)
qed


lemma word_not_space:
  assumes "33 \<le> byte_of c"
  shows "\<not> rx_space c" "rx_any c"
  using assms by (auto simp: rx_space_def rx_any_def)

lemma spaced_any: "\<forall>(k, w) \<in> set ws. word_ok w \<Longrightarrow> \<forall>c \<in> set (spaced ws). rx_any c"
proof (induction ws rule: spaced.induct)
  case (2 k w ws)
  have "\<forall>c \<in> set w. rx_any c" using 2(2) word_not_space(2) by (simp add: word_ok_def)
  moreover have "\<forall>c \<in> set (spaced ws). rx_any c" using 2 by simp
  moreover have "rx_any CHR '' ''" by (simp add: rx_any_def)
  ultimately show ?case by auto
qed simp

lemma hop_words_ok:
  assumes "hop_text ip" "\<forall>t. Some t \<in> set ps \<longrightarrow> t \<noteq> [] \<and> (\<forall>c \<in> set t. rx_number c)"
  shows "\<forall>(k, w) \<in> set ((0, ''('' @ ip @ '')'') # concat (map hop_probe ps)). word_ok w"
proof -
  have "word_ok w" if "q \<in> set ps" "(k, w) \<in> set (hop_probe q)" for k w q
  proof (cases q)
    case None
    with that(2) show ?thesis by (simp add: word_ok_def)
  next
    case (Some t)
    with that(1) assms(2) number_word(1) have "word_ok t" by (simp add: hop_text_def)
    with Some that(2) show ?thesis by (auto simp: word_ok_def)
  qed
  moreover have "word_ok (''('' @ ip @ '')'')" using assms(1) by (auto simp: hop_text_def word_ok_def)
  ultimately show ?thesis by auto
qed

text \<open>
  C37: of a line that traceroute prints, the parser keeps the hop and the address and no time. For
  any hop number, name and address and any number of answered and lost probes, the line gives
  the hop with the address in parentheses and an empty list of times, because the time and its unit are
  two words and \<open>parseTracerouteOutput\<close> looks for them in one.
\<close>

theorem traceroute_times_lost:
  assumes "pf [] = (x, Some e)" "ttl < 2 ^ 63" "hop_text name" "hop_text ip"
    and "\<not> contains ''ms'' name" "name \<noteq> ''*''"
    and "\<forall>t. Some t \<in> set ps \<longrightarrow> t \<noteq> [] \<and> (\<forall>c \<in> set t. rx_number c)"
  shows "parseTracerouteOutput pf (hop_line p ttl name ip ps) =
    [\<lparr>th_TTL = int ttl, th_IP = ip, th_RTTs = []\<rparr>]"
proof -
  let ?ws = "(0, ''('' @ ip @ '')'') # concat (map hop_probe ps)"
  let ?rest = "name @ spaced ?ws"
  have ok: "\<forall>(k, w) \<in> set ?ws. word_ok w" using hop_words_ok [OF assms(4,7)] .
  have name: "\<forall>c \<in> set name. 33 \<le> byte_of c \<and> byte_of c \<le> 126" "name \<noteq> []"
    using assms(3) by (auto simp: hop_text_def word_ok_def)
  have hd: "\<not> rx_space (hd ?rest)" using name word_not_space(1) by (cases name) auto
  have any: "\<forall>c \<in> set ?rest. rx_any c"
    using name(1) word_not_space(2) spaced_any [OF ok] by auto
  have l: "hop_line p ttl name ip ps = replicate p CHR '' '' @ nat_str ttl @ ''  '' @ ?rest"
    by (simp add: hop_line_def numeral_eq_Suc)
  obtain g where g: "rmatch traceLineRe [] [] (hop_line p ttl name ip ps) = Some (g, [])"
    "group g 1 = nat_str ttl" "group g 2 = ?rest"
    using trace_line_match [OF _ hd any, of p ttl] name(2) unfolding l by auto
  have fields: "str_fields ?rest = name # map snd ?ws"
    using fields_word [of name "[]" "spaced ?ws"] fields_spaced [OF ok, of name] name
    by (simp add: str_fields_def)
  have "trace_field pf (''('' @ ip @ '')'') (name, []) = (ip, [])"
    using trim_parens_wrap [OF assms(4)] by (simp add: trace_field_def has_prefix_def has_suffix_def)
  moreover have "\<not> has_prefix ''ms'' name" using assms(5) name(2) by (cases name) auto
  then have "trace_field pf name ([], []) = (name, [])"
    using no_parens [OF assms(3)] assms(5,6) by (simp add: trace_field_def)
  moreover have "ip \<noteq> []" using assms(4) by (simp add: hop_text_def word_ok_def)
  ultimately have "fold (trace_field pf) (str_fields ?rest) ([], []) = (ip, [])"
    using probe_fields [where pf = pf, OF assms(1) _ assms(7)] unfolding fields by simp
  moreover have "parse_int64 (nat_str ttl) = (int ttl, None)"
    using assms(2) nat_str_digits parse_int64_digits [of "nat_str ttl"] by simp
  ultimately have hop: "trace_line pf (hop_line p ttl name ip ps) =
      Some \<lparr>th_TTL = int ttl, th_IP = ip, th_RTTs = []\<rparr>"
    using g by (simp add: trace_line_def)
  have "lf \<notin> set (hop_line p ttl name ip ps)"
    using any nat_str_digits [of lf ttl] unfolding l by (auto simp: rx_any_def is_digit_def)
  then have "split_on lf (hop_line p ttl name ip ps) = [hop_line p ttl name ip ps]"
    by (rule split_on_no_sep)
  with hop show ?thesis by (simp add: parseTracerouteOutput_def List.map_filter_def)
qed


lemma traceroute_times_lost_witness:
  "parseTracerouteOutput parse_float '' 1  gw (172.20.0.1)  0.5 ms  0.4 ms *'' =
     [\<lparr>th_TTL = 1, th_IP = ''172.20.0.1'', th_RTTs = []\<rparr>]"
proof -
  have "hop_line 1 1 ''gw'' ''172.20.0.1'' [Some ''0.5'', Some ''0.4'', None] =
      '' 1  gw (172.20.0.1)  0.5 ms  0.4 ms *''"
    by (simp add: hop_line_def nat_str.simps digit_char_def char_of_eq_iff)
  moreover have "parse_float [] = (FZero, Some ErrSyntax)"
    by (simp add: parse_float_def float_syntax_def)
  ultimately show ?thesis
    using traceroute_times_lost [where pf = parse_float and ttl = 1 and p = 1 and name = "''gw''"
        and ip = "''172.20.0.1''" and ps = "[Some ''0.5'', Some ''0.4'', None]"]
    by (simp add: hop_text_def word_ok_def paren_def has_prefix_def rx_number_def is_digit_def all_conj_distrib)
qed

end
