(* ===== verification/Decoding.thy ===== *)
theory Decoding
  imports Peers
begin

text \<open>
  What the decoders let through. Every string that comes out of the JSON parser is valid UTF-8, whatever
  bytes went in, and every integer fits its type. So every peer record that a message can make the agent store
  is one that survives storing.
\<close>

section \<open>Strings of the parser\<close>

fun jutf8 :: "json \<Rightarrow> bool" where
  "jutf8 (JStr s) = utf8_valid s"
| "jutf8 (JArr vs) = (\<forall>v \<in> set vs. jutf8 v)"
| "jutf8 (JObj ms) = (\<forall>(k, v) \<in> set ms. utf8_valid k \<and> jutf8 v)"
| "jutf8 _ = True"

lemma utf8_valid_append: "utf8_valid s \<Longrightarrow> utf8_valid t \<Longrightarrow> utf8_valid (s @ t)"
proof (induction s rule: utf8_valid.induct)
  case 1
  then show ?case by simp
next
  case (2 c s)
  then obtain m where m: "rune_len (c # s) = Suc m" and v: "utf8_valid (drop m s)"
    by (auto split: nat.splits)
  have len: "m \<le> length s" using rune_len_le [of "c # s"] m by simp
  have "rune_len (c # s @ t) = Suc m"
    using rune_len_append [OF m, of "drop m s @ t"] by (simp flip: append_assoc)
  with 2 m v len show ?case by simp
qed

lemma byte_of_char_of: "n < 256 \<Longrightarrow> byte_of (char_of n) = (n :: nat)"
  by simp

lemma utf8_one_rune: "rune_len (c # s) = Suc m \<Longrightarrow> utf8_valid (c # take m s)"
  using rune_len_append [of c s m "[]"] rune_len_le [of "c # s"] by simp

lemma utf8_enc_valid2:
  assumes "0x80 \<le> r" "r < 0x800"
  shows "utf8_valid (utf8_enc r)"
proof -
  have "r div 64 < 32" by (rule less_mult_imp_div_less) (use assms in simp)
  moreover have "2 \<le> r div 64" using div_le_mono [OF assms(1), of 64] by simp
  moreover have "r mod 64 < 64" by simp
  ultimately show ?thesis
    using assms by (simp add: utf8_enc_def rune_len_def byte_of_char_of rune2_def cont_byte_def)
qed

lemma rune3I:
  "x < 16 \<Longrightarrow> y < 64 \<Longrightarrow> z < 64 \<Longrightarrow> (x = 0 \<Longrightarrow> 32 \<le> y) \<Longrightarrow> (x = 13 \<Longrightarrow> y \<le> 31) \<Longrightarrow>
     rune3 (0xE0 + x) (0x80 + y) (0x80 + z)"
  by (auto simp: rune3_def cont_byte_def)

lemma rune4I:
  "x < 5 \<Longrightarrow> y < 64 \<Longrightarrow> z < 64 \<Longrightarrow> w < 64 \<Longrightarrow> (x = 0 \<Longrightarrow> 16 \<le> y) \<Longrightarrow> (x = 4 \<Longrightarrow> y < 16) \<Longrightarrow>
     rune4 (0xF0 + x) (0x80 + y) (0x80 + z) (0x80 + w)"
  by (auto simp: rune4_def cont_byte_def)

lemma utf8_enc_valid3:
  assumes "0x800 \<le> r" "r < 0x10000" "\<not> surrogate r"
  shows "utf8_valid (utf8_enc r)"
proof -
  define q where "q = r div 64"
  have q: "32 \<le> q" "r div 4096 = q div 64"
    using div_le_mono [OF assms(1), of 64] by (simp_all add: q_def div_mult2_eq [symmetric])
  have q': "q < 1024" unfolding q_def by (rule less_mult_imp_div_less) (use assms(2) in simp)
  have a: "q div 64 < 16" by (rule less_mult_imp_div_less) (use q' in simp)
  have lo: "32 \<le> q mod 64" if "q div 64 = 0" using that q(1) by (simp add: div_eq_0_iff)
  have hi: "q mod 64 \<le> 31" if "q div 64 = 13"
  proof -
    have "q = 64 * 13 + q mod 64" using that by (metis mult_div_mod_eq)
    moreover have "r < 0xD800 \<or> 0xE000 \<le> r" using assms(3) by (auto simp: surrogate_def)
    ultimately show ?thesis
    proof (elim disjE)
      assume "r < 0xD800"
      then have "q < 864" unfolding q_def by (intro less_mult_imp_div_less) simp
      with \<open>q = 64 * 13 + q mod 64\<close> show ?thesis by linarith
    next
      assume "0xE000 \<le> r"
      then have "0xE000 div 64 \<le> q" unfolding q_def by (rule div_le_mono)
      then have "896 \<le> q" by simp
      moreover have "q < 896" using \<open>q = 64 * 13 + q mod 64\<close> mod_less_divisor [of 64 q] by linarith
      ultimately show ?thesis by linarith
    qed
  qed
  have m: "q mod 64 < 64" "r mod 64 < 64" by simp_all
  have "utf8_enc r = [char_of (0xE0 + q div 64), char_of (0x80 + q mod 64), char_of (0x80 + r mod 64)]"
    using assms(1,2) q(2) by (simp add: utf8_enc_def q_def)
  moreover have "rune3 (0xE0 + q div 64) (0x80 + q mod 64) (0x80 + r mod 64)"
    by (rule rune3I [OF a m lo hi])
  moreover have "\<not> rune2 (0xE0 + q div 64) (0x80 + q mod 64)" by (simp add: rune2_def)
  ultimately show ?thesis using a m by (simp add: rune_len_def byte_of_char_of)
qed

lemma utf8_enc_valid4:
  assumes "0x10000 \<le> r" "r < 0x110000"
  shows "utf8_valid (utf8_enc r)"
proof -
  define q where "q = r div 4096"
  have q: "16 \<le> q" "r div 262144 = q div 64"
    using div_le_mono [OF assms(1), of 4096] by (simp_all add: q_def div_mult2_eq [symmetric])
  have q': "q < 272" unfolding q_def by (rule less_mult_imp_div_less) (use assms(2) in simp)
  have a: "q div 64 < 5" by (rule less_mult_imp_div_less) (use q' in simp)
  have lo: "16 \<le> q mod 64" if "q div 64 = 0" using that q(1) by (simp add: div_eq_0_iff)
  have hi: "q mod 64 < 16" if "q div 64 = 4"
  proof -
    have "q = 64 * 4 + q mod 64" using that by (metis mult_div_mod_eq)
    with q' show ?thesis by linarith
  qed
  define b c where "b = r div 64 mod 64" and "c = r mod 64"
  have m: "q mod 64 < 64" "b < 64" "c < 64" by (simp_all add: b_def c_def)
  have "utf8_enc r = [char_of (0xF0 + q div 64), char_of (0x80 + q mod 64), char_of (0x80 + b), char_of (0x80 + c)]"
    using assms(1) q(2) by (simp add: utf8_enc_def q_def b_def c_def)
  moreover have "rune4 (0xF0 + q div 64) (0x80 + q mod 64) (0x80 + b) (0x80 + c)"
    by (rule rune4I [OF a m lo hi])
  moreover have "\<not> rune2 (0xF0 + q div 64) (0x80 + q mod 64)" by (simp add: rune2_def)
  moreover have "\<not> rune3 (0xF0 + q div 64) (0x80 + q mod 64) (0x80 + b)" by (simp add: rune3_def)
  ultimately show ?thesis using a m by (simp add: rune_len_def byte_of_char_of)
qed

lemma utf8_enc_valid: "r < 0x110000 \<Longrightarrow> \<not> surrogate r \<Longrightarrow> utf8_valid (utf8_enc r)"
  using utf8_enc_valid2 [of r] utf8_enc_valid3 [of r] utf8_enc_valid4 [of r]
  by (cases "r < 0x80") (force simp: utf8_enc_def rune_len_def, linarith)

lemma replacement_valid: "utf8_valid replacement"
  by (simp add: replacement_def rune_len_def rune2_def rune3_def cont_byte_def)

lemma hex4_bound: "hex4 s = Some r \<Longrightarrow> r < 0x10000"
proof (induction s rule: hex4.induct)
  case (1 a b c d s)
  have v: "hex_val x = Some y \<Longrightarrow> y \<le> 15" for x y by (auto simp: hex_val_def Let_def split: if_splits)
  from 1 show ?case by (auto split: option.splits dest!: v)
qed simp_all

lemma second_half_valid:
  assumes "r < 0x10000" "second_half r s = (u, k)"
  shows "utf8_valid u"
proof (cases "surrogate r")
  case False
  with assms show ?thesis using utf8_enc_valid [of r] by (auto simp: second_half_def)
next
  case True
  have "utf8_valid (utf8_enc ((r - 0xD800) * 1024 + (x - 0xDC00) + 0x10000))"
    if "r < 0xDC00" "0xDC00 \<le> x" "x < 0xE000" for x
    using that True by (intro utf8_enc_valid) (auto simp: surrogate_def)
  with True assms(2) replacement_valid show ?thesis
    by (auto simp: second_half_def split: list.splits if_splits option.splits)
qed

lemma utf8_valid_char: "byte_of c < 128 \<Longrightarrow> utf8_valid [c]"
  by simp

lemma simple_escape_valid: "simple_escape e = Some x \<Longrightarrow> utf8_valid [x]"
  by (rule utf8_valid_char) (auto simp: simple_escape_def split: if_splits)

text \<open>One step of the reader of strings: it puts valid text in front of what the rest gives.\<close>

definition valid_step :: "string \<Rightarrow> string \<Rightarrow> string \<Rightarrow> bool" where
  "valid_step s u r \<longleftrightarrow>
     (\<exists>w u' s'. u = w @ u' \<and> utf8_valid w \<and> length s' < length s \<and> unquote s' = Some (u', r))"

lemma valid_stepI:
  "prepend w (unquote s') = Some (u, r) \<Longrightarrow> utf8_valid w \<Longrightarrow> length s' < length s \<Longrightarrow> valid_step s u r"
  unfolding valid_step_def prepend_Some by blast

lemma unquote_escape:
  assumes "unquote (bs # s) = Some (u, r)"
  shows "valid_step (bs # s) u r"
proof -
  obtain e s' where s: "s = e # s'" using assms by (auto split: list.splits)
  show ?thesis
  proof (cases "e = CHR ''u''")
    case True
    with s assms obtain v where v: "hex4 s' = Some v" by (auto split: option.splits)
    obtain w k where w: "second_half v (drop 4 s') = (w, k)" by fastforce
    with v True s assms have "prepend w (unquote (drop (4 + k) s')) = Some (u, r)" by simp
    then show ?thesis by (rule valid_stepI [OF _ second_half_valid [OF hex4_bound [OF v] w]]) (simp add: s)
  next
    case False
    with s assms obtain x where x: "simple_escape e = Some x" "prepend [x] (unquote s') = Some (u, r)"
      by (auto split: option.splits)
    show ?thesis by (rule valid_stepI [OF x(2) simple_escape_valid [OF x(1)]]) (simp add: s)
  qed
qed

lemma unquote_byte:
  assumes "unquote (c # s) = Some (u, r)" "c \<noteq> dq" "c \<noteq> bs"
  shows "valid_step (c # s) u r"
proof (cases "byte_of c < 128")
  case True
  with assms have "prepend [c] (unquote s) = Some (u, r)" by (auto split: if_splits)
  then show ?thesis by (rule valid_stepI [OF _ utf8_valid_char [OF True]]) simp
next
  case high: False
  show ?thesis
  proof (cases "rune_len (c # s)")
    case 0
    with high assms have "prepend replacement (unquote s) = Some (u, r)" by auto
    then show ?thesis by (rule valid_stepI [OF _ replacement_valid]) simp
  next
    case (Suc m)
    with high assms have "prepend (c # take m s) (unquote (drop m s)) = Some (u, r)" by auto
    then show ?thesis by (rule valid_stepI [OF _ utf8_one_rune [OF Suc]]) simp
  qed
qed

lemma unquote_valid: "unquote s = Some (u, r) \<Longrightarrow> utf8_valid u"
proof (induction s arbitrary: u rule: length_induct)
  case (1 s)
  then obtain c s0 where s: "s = c # s0" by (cases s) auto
  show ?case
  proof (cases "c = dq")
    case True
    with 1(2) s show ?thesis by simp
  next
    case False
    with 1(2) s have "valid_step s u r" using unquote_escape unquote_byte by metis
    then show ?thesis using 1(1) utf8_valid_append unfolding valid_step_def by blast
  qed
qed

lemma jparse_utf8:
  "jvalue n s = Some (v, r) \<Longrightarrow> jutf8 v"
  "jelems n s = Some (vs, r) \<Longrightarrow> \<forall>v \<in> set vs. jutf8 v"
  "jmembers n s = Some (ms, r) \<Longrightarrow> \<forall>(k, v) \<in> set ms. utf8_valid k \<and> jutf8 v"
proof (induction n s and n s and n s arbitrary: v r and vs r and ms r rule: jvalue_jelems_jmembers.induct)
  case (2 n s)
  then show ?case
    by (auto split: list.splits if_splits dest: unquote_valid)
next
  case (4 n s)
  then show ?case by (fastforce split: option.splits prod.splits list.splits if_splits)
next
  case (6 n s)
  from "6.prems" obtain s1 x s2 s3 v r1 c r2 where
    p: "skip_ws s = dq # s1" "unquote s1 = Some (x, s2)" "skip_ws s2 = CHR '':'' # s3" "jvalue n s3 = Some (v, r1)"
       "skip_ws r1 = c # r2"
    and ms: "c = CHR '','' \<and> (\<exists>ms'. jmembers n r2 = Some (ms', r) \<and> ms = (x, v) # ms') \<or> c = CHR ''}'' \<and> ms = [(x, v)]"
    by (auto split: option.splits prod.splits list.splits if_splits)
  have x: "utf8_valid x" using unquote_valid [OF p(2)] .
  have v: "jutf8 v" using "6.IH"(1) [OF p(1) _ p(2) refl p(3) _ p(4)] by simp
  from ms show ?case
  proof (elim disjE conjE exE)
    fix ms' assume "c = CHR '',''" "jmembers n r2 = Some (ms', r)" "ms = (x, v) # ms'"
    with "6.IH"(2) [OF p(1) _ p(2) refl p(3) _ p(4) refl p(5)] x v show ?case by simp
  qed (use x v in simp)
qed simp_all

lemma json_parse_utf8: "json_parse s = Some j \<Longrightarrow> jutf8 j"
  by (auto simp: json_parse_def split: option.splits if_splits dest: jparse_utf8(1))

section \<open>Fields\<close>

lemma foldl_dec_inv:
  assumes "foldl (\<lambda>acc v. case acc of None \<Rightarrow> None | Some a \<Rightarrow> dec a v) (Some z) vs = Some x" "Q z"
    and "\<And>a v y. v \<in> set vs \<Longrightarrow> Q a \<Longrightarrow> dec a v = Some y \<Longrightarrow> Q y"
  shows "Q x"
  using assms
proof (induction vs arbitrary: z)
  case (Cons v vs)
  have none: "foldl (\<lambda>acc v. case acc of None \<Rightarrow> None | Some a \<Rightarrow> dec a v) None ws = None" for ws
    by (induction ws) simp_all
  then obtain y where "dec z v = Some y" using Cons.prems(1) by (cases "dec z v") simp_all
  moreover from this have "Q y" using Cons.prems(3) [of v z y] Cons.prems(2) by simp
  ultimately show ?case using Cons.prems(1,3) by (intro Cons.IH [of y]) auto
qed simp

lemma get_field_inv:
  assumes "get_field dec z name ms = Some x" "Q z"
    and "\<And>a k v y. (k, v) \<in> set ms \<Longrightarrow> Q a \<Longrightarrow> dec a v = Some y \<Longrightarrow> Q y"
  shows "Q x"
proof (rule foldl_dec_inv [where dec = dec and z = z and vs = "jfield name ms" and Q = Q])
  show "foldl (\<lambda>acc v. case acc of None \<Rightarrow> None | Some a \<Rightarrow> dec a v) (Some z) (jfield name ms) = Some x"
    using assms(1) by (simp add: get_field_def)
  show "Q z" by (rule assms(2))
  fix a v y assume "v \<in> set (jfield name ms)" "Q a" "dec a v = Some y"
  then show "Q y" using assms(3) by (auto simp: jfield_def)
qed

lemma dec_string_utf8: "dec_string a v = Some y \<Longrightarrow> jutf8 v \<Longrightarrow> utf8_valid a \<Longrightarrow> utf8_valid y"
  by (cases v) auto

lemma int64_read_range: "int64_read l = Some n \<Longrightarrow> int64_range n"
  using parse_int64_range [of l] by (auto simp: int64_read_def split: prod.splits option.splits)

lemma dec_int64_range: "dec_int64 a v = Some y \<Longrightarrow> int64_range a \<Longrightarrow> int64_range y"
  by (cases v) (auto intro: int64_read_range)

lemma string_field:
  "get_field dec_string [] name ms = Some s \<Longrightarrow> jutf8 (JObj ms) \<Longrightarrow> utf8_valid s"
  by (erule get_field_inv [where Q = utf8_valid]) (auto dest: dec_string_utf8)

lemma int_field: "get_field dec_int64 0 name ms = Some n \<Longrightarrow> int64_range n"
  by (erule get_field_inv [where Q = int64_range]) (auto simp: int64_range_def [of 0] dest: dec_int64_range)

lemma raw_field:
  "get_field dec_raw None name ms = Some r \<Longrightarrow> jutf8 (JObj ms) \<Longrightarrow> r = Some j \<Longrightarrow> jutf8 j"
proof -
  assume get: "get_field dec_raw None name ms = Some r" and ms: "jutf8 (JObj ms)" and r: "r = Some j"
  have "\<forall>j. r = Some j \<longrightarrow> jutf8 j"
    by (rule get_field_inv [where Q = "\<lambda>r. \<forall>j. r = Some j \<longrightarrow> jutf8 j", OF get]) (use ms in auto)
  with r show "jutf8 j" by blast
qed

lemma members_utf8: "members j = Some ms \<Longrightarrow> jutf8 j \<Longrightarrow> jutf8 (JObj ms)"
  by (cases j) auto

lemma dec_all_inv: "dec_all dec vs = Some xs \<Longrightarrow> x \<in> set xs \<Longrightarrow> \<exists>v \<in> set vs. dec v = Some x"
  by (induction vs arbitrary: xs) (auto split: option.splits)

lemma slice_field:
  assumes "get_field (dec_slice dec) [] name ms = Some xs" "jutf8 (JObj ms)" "x \<in> set xs"
  shows "\<exists>v. jutf8 v \<and> dec v = Some x"
proof -
  have "\<forall>x \<in> set xs. \<exists>v. jutf8 v \<and> dec v = Some x"
  proof (rule get_field_inv [OF assms(1)])
    fix a k v y assume v: "(k, v) \<in> set ms" "\<forall>x \<in> set a. \<exists>v. jutf8 v \<and> dec v = Some x" "dec_slice dec a v = Some y"
    then have "jutf8 v" using assms(2) by auto
    with v(3) show "\<forall>x \<in> set y. \<exists>v. jutf8 v \<and> dec v = Some x" by (cases v) (auto dest: dec_all_inv)
  qed simp
  with assms(3) show ?thesis by blast
qed

section \<open>Messages and records\<close>

lemma message_utf8:
  assumes "message_unmarshal data = Some msg" "m_Payload msg = Some j"
  shows "jutf8 j"
proof -
  obtain v ms where v: "json_parse data = Some v" "members v = Some ms" "get_field dec_raw None ''payload'' ms = Some (m_Payload msg)"
    using assms(1) by (auto simp: message_unmarshal_def message_dec_def split: option.splits)
  show ?thesis using raw_field [OF v(3) members_utf8 [OF v(2) json_parse_utf8 [OF v(1)]] assms(2)] .
qed

lemma receive_utf8: "receive P c fr = Some msg \<Longrightarrow> m_Payload msg = Some j \<Longrightarrow> jutf8 j"
  by (auto simp: receive_def split: bool.splits option.splits if_splits sum.splits dest: message_utf8)

lemma ascii_names [simp]:
  "utf8_valid (InterfaceName n)" "utf8_valid (proto_of n)" "utf8_valid (bird_filename n)"
  by (auto intro!: utf8_valid_ascii dest: itoa_ascii simp: InterfaceName_def proto_of_def bird_filename_def)

lemma iface_of_utf8: "utf8_valid w \<Longrightarrow> utf8_valid (iface_of w n)"
  by (simp add: iface_of_def)

lemma peer_add_record:
  assumes "peer_add_dec j = Some p" "jutf8 j"
  shows "info_ok (added_info p (iface_of (pa_WgInterface p) (pa_ASN p)))"
proof -
  obtain ms where ms: "members j = Some ms" "get_field dec_int64 0 ''asn'' ms = Some (pa_ASN p)"
    "get_field dec_string [] ''remote_lla'' ms = Some (pa_RemoteLLA p)"
    "get_field dec_string [] ''wg_interface'' ms = Some (pa_WgInterface p)"
    using assms(1) by (auto simp: peer_add_dec_def bind_eq_Some_conv)
  note u = members_utf8 [OF ms(1) assms(2)]
  show ?thesis
    using int_field [OF ms(2)] string_field [OF ms(3) u] iface_of_utf8 [OF string_field [OF ms(4) u]]
    by (simp add: info_ok_def added_info_def)
qed

lemma sync_record:
  assumes "sync_peer_dec j = Some p" "jutf8 j"
  shows "info_ok (sync_info p)"
proof -
  obtain ms where ms: "members j = Some ms" "get_field dec_int64 0 ''asn'' ms = Some (sy_ASN p)"
    "get_field dec_string [] ''remote_lla'' ms = Some (sy_RemoteLLA p)"
    "get_field dec_string [] ''wg_interface'' ms = Some (sy_WgInterface p)"
    "get_field dec_string [] ''bgp_proto_name'' ms = Some (sy_BgpProtoName p)"
    "get_field dec_string [] ''bird_config_filename'' ms = Some (sy_BirdConfigFilename p)"
    using assms(1) by (auto simp: sync_peer_dec_def bind_eq_Some_conv)
  note u = members_utf8 [OF ms(1) assms(2)]
  show ?thesis
    using int_field [OF ms(2)] string_field [OF ms(3) u] iface_of_utf8 [OF string_field [OF ms(4) u]]
      string_field [OF ms(5) u] string_field [OF ms(6) u]
    by (simp add: info_ok_def sync_info_def)
qed

lemma add_payload_record:
  assumes "\<And>j. m_Payload msg = Some j \<Longrightarrow> jutf8 j" "unmarshal peer_add_dec (m_Payload msg) = Some p"
  shows "info_ok (added_info p (iface_of (pa_WgInterface p) (pa_ASN p)))"
  using assms peer_add_record by (cases "m_Payload msg") (auto simp: unmarshal_def)

lemma sync_payload_records:
  assumes "\<And>j. m_Payload msg = Some j \<Longrightarrow> jutf8 j" "unmarshal sync_dec (m_Payload msg) = Some ps" "p \<in> set ps"
  shows "info_ok (sync_info p)"
proof -
  obtain j ms where j: "m_Payload msg = Some j" "members j = Some ms"
    "get_field (dec_slice sync_peer_dec) [] ''peers'' ms = Some ps"
    using assms(2) by (auto simp: unmarshal_def sync_dec_def bind_eq_Some_conv)
  from slice_field [OF j(3) members_utf8 [OF j(2) assms(1) [OF j(1)]] assms(3)] sync_record
  show ?thesis by blast
qed

end
