(* ===== verification/Dispatch.thy ===== *)
theory Dispatch
  imports Sync Looking_Glass Update Key_Exchange Decoding
begin

text \<open>
  \<open>Handler.HandleMessage\<close> of \<open>src/internal/handler/handler.go\<close> and the reader of
  \<open>src/internal/ws/client.go\<close> that calls it: which handler a message goes to, what a sequence of
  frames does to the agent, and what the handlers have in common. The
  peer table of a running agent refines an abstract table that three of the messages change.
\<close>

section \<open>Dispatch\<close>

definition HandleMessage :: "'db env \<Rightarrow> Message \<Rightarrow> 'db agent \<Rightarrow> 'db agent" where
  "HandleMessage E msg st =
     (let ty = m_Type msg in
      if ty = ''peer.add'' then handlePeerAdd E msg st
      else if ty = ''peer.remove'' then handlePeerRemove E msg st
      else if ty = ''status.request'' then handleStatusRequest E msg st
      else if ty = ''peers.sync'' then handlePeersSync E msg st
      else if ty = ''peers.import'' then handlePeersImportCommand E msg st
      else if ty = ''bird.details'' then handleBirdDetailsCommand E msg st
      else if ty = ''agent.update'' then handleAgentUpdate E msg st
      else if ty = ''agent.resume'' then handleAgentResume E msg st
      else if ty = ''agent.rollback'' then handleAgentRollback E msg st
      else if ty = ''network.ping'' then handleNetworkPing E msg st
      else if ty = ''network.trace'' then handleNetworkTrace E msg st
      else if ty = ''network.mtr'' then handleNetworkMTR E msg st
      else if ty = ''network.bgp_route'' then handleBirdRoute E msg st
      else if ty = ''key.init_ack'' then handleKeyInitAck msg st
      else if ty = ''key.auth_ack'' then handleKeyAuthAck msg st
      else if ty = ''bird.disable'' then handleBirdDisable E msg st
      else if ty = ''bird.enable'' then handleBirdEnable E msg st
      else st)"

lemma dispatch:
  "m_Type msg = ''peer.add'' \<Longrightarrow> HandleMessage E msg st = handlePeerAdd E msg st"
  "m_Type msg = ''peer.remove'' \<Longrightarrow> HandleMessage E msg st = handlePeerRemove E msg st"
  "m_Type msg = ''status.request'' \<Longrightarrow> HandleMessage E msg st = handleStatusRequest E msg st"
  "m_Type msg = ''peers.sync'' \<Longrightarrow> HandleMessage E msg st = handlePeersSync E msg st"
  "m_Type msg = ''peers.import'' \<Longrightarrow> HandleMessage E msg st = handlePeersImportCommand E msg st"
  "m_Type msg = ''bird.details'' \<Longrightarrow> HandleMessage E msg st = handleBirdDetailsCommand E msg st"
  "m_Type msg = ''agent.update'' \<Longrightarrow> HandleMessage E msg st = handleAgentUpdate E msg st"
  "m_Type msg = ''agent.resume'' \<Longrightarrow> HandleMessage E msg st = handleAgentResume E msg st"
  "m_Type msg = ''agent.rollback'' \<Longrightarrow> HandleMessage E msg st = handleAgentRollback E msg st"
  "m_Type msg = ''network.ping'' \<Longrightarrow> HandleMessage E msg st = handleNetworkPing E msg st"
  "m_Type msg = ''network.trace'' \<Longrightarrow> HandleMessage E msg st = handleNetworkTrace E msg st"
  "m_Type msg = ''network.mtr'' \<Longrightarrow> HandleMessage E msg st = handleNetworkMTR E msg st"
  "m_Type msg = ''network.bgp_route'' \<Longrightarrow> HandleMessage E msg st = handleBirdRoute E msg st"
  "m_Type msg = ''key.init_ack'' \<Longrightarrow> HandleMessage E msg st = handleKeyInitAck msg st"
  "m_Type msg = ''key.auth_ack'' \<Longrightarrow> HandleMessage E msg st = handleKeyAuthAck msg st"
  "m_Type msg = ''bird.disable'' \<Longrightarrow> HandleMessage E msg st = handleBirdDisable E msg st"
  "m_Type msg = ''bird.enable'' \<Longrightarrow> HandleMessage E msg st = handleBirdEnable E msg st"
  by (simp_all add: HandleMessage_def)

text \<open>
  One round of the reader, and the reader on the frames of a connection: it handles one message after the other, so
  a handler that blocks or ends the process is the last.
\<close>

definition stuck :: "'db agent \<Rightarrow> bool" where
  "stuck st \<longleftrightarrow> a_blocked st \<or> a_end st \<noteq> None"

definition read_frame :: "'db env \<Rightarrow> sendItem \<Rightarrow> 'db agent \<Rightarrow> 'db agent" where
  "read_frame E fr st =
     (case receive (ePrims E) (a_ws st) fr of None \<Rightarrow> st | Some msg \<Rightarrow> HandleMessage E msg st)"

fun read_loop :: "'db env \<Rightarrow> sendItem list \<Rightarrow> 'db agent \<Rightarrow> 'db agent" where
  "read_loop E [] st = st"
| "read_loop E (fr # frs) st = (if stuck st then st else read_loop E frs (read_frame E fr st))"

text \<open>The messages that the reader hands to the handlers on the way.\<close>

fun handled_msgs :: "'db env \<Rightarrow> sendItem list \<Rightarrow> 'db agent \<Rightarrow> Message list" where
  "handled_msgs E [] st = []"
| "handled_msgs E (fr # frs) st =
     (if stuck st then []
      else (case receive (ePrims E) (a_ws st) fr of None \<Rightarrow> [] | Some msg \<Rightarrow> [msg]) @
        handled_msgs E frs (read_frame E fr st))"

section \<open>What the handlers have in common\<close>

text \<open>
  \<open>settles E msg st st' db\<close>: the handler worked on the machine, left the database \<open>db\<close> and sent one
  message with the id of the request, and did nothing else.
\<close>

definition settles :: "'db env \<Rightarrow> Message \<Rightarrow> 'db agent \<Rightarrow> 'db agent \<Rightarrow> 'db \<Rightarrow> bool" where
  "settles E msg st st' db \<longleftrightarrow>
     (\<exists>h m. m_ID m = m_ID msg \<and> st' = send_msg E m (st\<lparr>a_host := h, a_db := db\<rparr>))"

definition host_only :: "'db agent \<Rightarrow> 'db agent \<Rightarrow> bool" where
  "host_only st st' \<longleftrightarrow> st' = st\<lparr>a_host := a_host st'\<rparr>"

lemma host_only_refl [simp]: "host_only st st"
  by (simp add: host_only_def)

lemma host_only_trans: "host_only st st1 \<Longrightarrow> host_only st1 st2 \<Longrightarrow> host_only st st2"
  by (simp add: host_only_def) (metis agent.surjective agent.update_convs(1))

lemma on_host_only: "on_host f st = (r, st') \<Longrightarrow> host_only st st'" "host_only st (snd (on_host f st))"
  by (auto simp: host_only_def on_host_def split: prod.splits)

lemma settles_send: "host_only st st1 \<Longrightarrow> m_ID m = m_ID msg \<Longrightarrow> settles E msg st (send_msg E m st1) (a_db st)"
  unfolding settles_def host_only_def
  by (intro exI [of _ "a_host st1"] exI [of _ m]) (metis agent.surjective agent.update_convs(1,2))

lemma settles_response [intro]:
  "host_only st st1 \<Longrightarrow> settles E msg st (sendResponse E (m_ID msg) b t st1) (a_db st)"
  unfolding sendResponse_def by (rule settles_send) (simp_all add: response_msg_def)

lemma settles_payload [intro]:
  "host_only st st1 \<Longrightarrow> settles E msg st (send_msg E (payload_msg (m_ID msg) b j) st1) (a_db st)"
  by (rule settles_send) (simp_all add: payload_msg_def)

lemma settles_effects:
  assumes "settles E msg st st' db"
  shows "answered E msg st st'" "a_db st' = db" "a_end st' = a_end st" "a_blocked st' = a_blocked st"
    "a_pending st' = a_pending st"
  using assms by (auto simp: settles_def answered_def answers_def)

lemma host_only_upd [simp]: "host_only st (st\<lparr>a_host := h\<rparr>)"
  by (simp add: host_only_def)

named_theorems quiet \<open>the handlers that leave the store alone\<close>

lemma quiet_status [quiet]: "settles E msg st (handleStatusRequest E msg st) (a_db st)"
  by (auto simp: handleStatusRequest_def on_host_def split: prod.splits sum.splits intro!: settles_send)

lemma quiet_import [quiet]: "settles E msg st (handlePeersImportCommand E msg st) (a_db st)"
  by (auto simp: handlePeersImportCommand_def on_host_def split: prod.splits sum.splits)

lemma quiet_details [quiet]: "settles E msg st (handleBirdDetailsCommand E msg st) (a_db st)"
  by (auto simp: handleBirdDetailsCommand_def get_details_def on_host_def split: prod.splits sum.splits)

lemma quiet_resume [quiet]: "settles E msg st (handleAgentResume E msg st) (a_db st)"
  by (auto simp: handleAgentResume_def)

lemma quiet_ping [quiet]: "settles E msg st (handleNetworkPing E msg st) (a_db st)"
  by (auto simp: handleNetworkPing_def on_host_def split: prod.splits sum.splits option.splits)

lemma quiet_trace [quiet]: "settles E msg st (handleNetworkTrace E msg st) (a_db st)"
  by (auto simp: handleNetworkTrace_def on_host_def split: prod.splits sum.splits option.splits)

lemma quiet_mtr [quiet]: "settles E msg st (handleNetworkMTR E msg st) (a_db st)"
  by (auto simp: handleNetworkMTR_def on_host_def Let_def split: prod.splits sum.splits option.splits)

lemma quiet_route [quiet]: "settles E msg st (handleBirdRoute E msg st) (a_db st)"
  by (auto simp: handleBirdRoute_def on_host_def split: prod.splits sum.splits option.splits)

lemma quiet_control: "settles E msg st (bird_control f okmsg E msg st) (a_db st)"
  by (auto simp: bird_control_def on_host_def split: prod.splits sum.splits option.splits)

lemma quiet_disable [quiet]: "settles E msg st (handleBirdDisable E msg st) (a_db st)"
  by (simp add: handleBirdDisable_def quiet_control)

lemma quiet_enable [quiet]: "settles E msg st (handleBirdEnable E msg st) (a_db st)"
  by (simp add: handleBirdEnable_def quiet_control)

lemma settles_response_db:
  "settles E msg st (sendResponse E (m_ID msg) b t (st\<lparr>a_host := h, a_db := db\<rparr>)) db"
  unfolding settles_def sendResponse_def
  by (intro exI [of _ h] exI [of _ "response_msg (m_ID msg) b t"]) (simp add: response_msg_def)

lemma snd_on_host: "snd (on_host f st) = st\<lparr>a_host := snd (f (a_host st))\<rparr>"
  by (simp add: on_host_def split: prod.splits)

lemma settles_host: "settles E msg (st\<lparr>a_host := h\<rparr>) st' db \<Longrightarrow> settles E msg st st' db"
  by (auto simp: settles_def)

lemma put_unchanged: "PutPeer B k i db = (Inl e, db') \<Longrightarrow> db' = db"
  unfolding PutPeer_def by (rule db_update_err)

lemma install_settles:
  "\<exists>db. settles E msg st (install_peer E (m_ID msg) p iface st) db \<and>
     (db = a_db st \<or> (\<exists>u. PutPeer (eBolt E) (pa_PeerID p) (added_info p iface) (a_db st) = (Inr u, db)))"
proof -
  obtain r1 h1 where 1: "AddPeerWithIface (eOs E) (eWg E) iface (pa_ASN p) (pa_ListenPort p)
    (pa_RemoteWgPubkey p) (pa_RemoteEndpoint p) (pa_MTU p) (pa_WgPreSharedKey p) (a_host st) = (r1, h1)" by fastforce
  obtain r2 h2 where 2: "bird_AddPeer (eOs E) (eBird E) (pa_ASN p) (pa_RemoteLLA p) iface h1 = (r2, h2)" by fastforce
  obtain r3 db where 3: "PutPeer (eBolt E) (pa_PeerID p) (added_info p iface) (a_db st) = (r3, db)" by fastforce
  have upd: "st\<lparr>a_db := a_db st\<rparr> = st" by simp
  show ?thesis
  proof (cases "is_ok r1 \<and> is_ok r2 \<and> is_ok r3")
    case True
    with 1 2 3 settles_response_db [where E = E and msg = msg and st = st and b = True and t = "''peer added successfully''" and h = h2 and db = db] show ?thesis
      by (auto simp: install_peer_def on_host_def on_db_def is_ok_def split: sum.splits intro!: exI [of _ db])
  next
    case False
    with 1 2 3 put_unchanged [of "eBolt E" "pa_PeerID p" "added_info p iface" "a_db st"] show ?thesis
      by (auto simp: install_peer_def on_host_def on_db_def is_ok_def Let_def upd split: sum.splits prod.splits
          intro!: exI [of _ "a_db st"])
  qed
qed

lemma add_settles:
  "\<exists>db. settles E msg st (handlePeerAdd E msg st) db \<and>
     (db = a_db st \<or> (\<exists>p u. unmarshal peer_add_dec (m_Payload msg) = Some p \<and>
        PutPeer (eBolt E) (pa_PeerID p) (added_info p (iface_of (pa_WgInterface p) (pa_ASN p))) (a_db st) = (Inr u, db)))"
proof (cases "unmarshal peer_add_dec (m_Payload msg)")
  case None
  then show ?thesis by (intro exI [of _ "a_db st"]) (auto simp: handlePeerAdd_def)
next
  case (Some p)
  let ?i = "iface_of (pa_WgInterface p) (pa_ASN p)"
  define known where "known \<longleftrightarrow> \<not> isl (GetPeer (eBolt E) (pa_PeerID p) (a_db st))"
  obtain u1 h1 where 1: "IsPeerUp (eOs E) ?i (a_host st) = (u1, h1)" by fastforce
  obtain u2 h2 where 2: "IsPeerUp (eOs E) ?i h1 = (u2, h2)" by fastforce
  consider h t where "handlePeerAdd E msg st = sendResponse E (m_ID msg) True t (st\<lparr>a_host := h\<rparr>)"
    | h where "handlePeerAdd E msg st = install_peer E (m_ID msg) p ?i (st\<lparr>a_host := h\<rparr>)"
  proof (cases "known \<and> u1")
    case True
    with Some 1 show thesis
      by (intro that(1) [of "''already active''" h1]) (simp add: handlePeerAdd_def known_def on_host_def)
  next
    case False
    let ?h = "if known then h2 else h1" and ?u = "if known then u2 else u1"
    have "handlePeerAdd E msg st = install_peer E (m_ID msg) p ?i
        (st\<lparr>a_host := if ?u then snd (RemovePeerByIface (eOs E) (eWg E) ?i ?h) else ?h\<rparr>)"
      using False Some 1 2 by (cases known) (simp_all add: handlePeerAdd_def known_def [symmetric] on_host_def [of "IsPeerUp _ _"] snd_on_host Let_def)
    then show thesis by (rule that(2))
  qed
  then show ?thesis
  proof cases
    case 1
    then show ?thesis by (intro exI [of _ "a_db st"]) auto
  next
    case (2 h)
    with Some install_settles [of E msg "st\<lparr>a_host := h\<rparr>" p ?i] show ?thesis
      by (auto dest: settles_host)
  qed
qed

lemma settles_payload_db:
  "settles E msg st (send_msg E (payload_msg (m_ID msg) b j) (st\<lparr>a_host := h, a_db := db\<rparr>)) db"
  unfolding settles_def
  by (intro exI [of _ h] exI [of _ "payload_msg (m_ID msg) b j"]) (simp add: payload_msg_def)

lemma host_onlyE: "host_only st st1 \<Longrightarrow> \<exists>h. st1 = st\<lparr>a_host := h\<rparr>"
  unfolding host_only_def by blast

lemma host_only_on_db: "host_only st st1 \<Longrightarrow> snd (on_db f st1) = st\<lparr>a_host := a_host st1, a_db := snd (f (a_db st))\<rparr>"
  by (drule host_onlyE) (auto simp: on_db_def split: prod.splits)

lemma host_only_calls:
  "host_only st (remove_bird E s a st)" "host_only st (remove_wg E s a st)" "host_only st (remove_stale E i st)"
  by (auto simp: remove_bird_def remove_wg_def remove_stale_def snd_on_host Let_def split: option.splits)

lemma remove_settles:
  "\<exists>db. settles E msg st (handlePeerRemove E msg st) db \<and>
     (db = a_db st \<or> (\<exists>p u. unmarshal peer_remove_dec (m_Payload msg) = Some p \<and>
        DeletePeer (eBolt E) (pr_PeerID p) (a_db st) = (Inr u, db)))"
proof -
  have early: ?thesis if "\<exists>b t. handlePeerRemove E msg st = sendResponse E (m_ID msg) b t st"
    using that settles_response [OF host_only_refl] by metis
  show ?thesis
  proof (cases "unmarshal peer_remove_dec (m_Payload msg)")
    case None
    then show ?thesis by (intro early) (auto simp: handlePeerRemove_def)
  next
    case (Some p)
    let ?s = "stored_peer E (pr_PeerID p) st"
    define asn where "asn = (if pr_ASN p = 0 then (case ?s of Some info \<Rightarrow> pi_ASN info | None \<Rightarrow> 0) else pr_ASN p)"
    obtain r db where d: "DeletePeer (eBolt E) (pr_PeerID p) (a_db st) = (r, db)" by fastforce
    show ?thesis
    proof (cases "asn = 0")
      case True
      with Some show ?thesis by (intro early) (auto simp: handlePeerRemove_def asn_def [symmetric])
    next
      case False
      let ?st = "remove_wg E ?s asn (remove_bird E ?s asn st)"
      have "host_only st ?st" using host_only_calls(1,2) host_only_trans by blast
      then have "handlePeerRemove E msg st = sendResponse E (m_ID msg) True ''peer removed successfully''
          (st\<lparr>a_host := a_host ?st, a_db := db\<rparr>)"
        using Some False d by (simp add: handlePeerRemove_def asn_def [symmetric] Let_def host_only_on_db)
      then have "settles E msg st (handlePeerRemove E msg st) db" by (simp add: settles_response_db)
      moreover have "db = a_db st \<or> (\<exists>u. r = Inr u)"
        using d by (cases r) (auto simp: DeletePeer_def dest: db_update_err)
      ultimately show ?thesis using Some d by auto
    qed
  qed
qed

lemma path_exists_host: "path_exists E p st = (b, st1) \<Longrightarrow> host_only st st1"
  by (auto simp: path_exists_def split: prod.splits sum.splits dest: on_host_only(1))

lemma sync_wg_host: "sync_wg E p st = (r, st1) \<Longrightarrow> host_only st st1"
  by (fastforce simp: sync_wg_def Let_def split: prod.splits if_splits sum.splits
      dest!: path_exists_host on_host_only(1) intro: host_only_trans)

lemma sync_bird_host: "sync_bird E p st = (r, st1) \<Longrightarrow> host_only st st1"
  by (fastforce simp: sync_bird_def Let_def split: prod.splits if_splits sum.splits
      dest!: path_exists_host on_host_only(1) intro: host_only_trans)

lemma sync_one_host: "host_only (snd s) (snd (sync_one E p s))"
  by (cases s) (auto simp: sync_one_def Let_def split: prod.splits option.splits
      dest!: sync_wg_host sync_bird_host intro: host_only_trans)

lemma sync_fold_host: "host_only (snd s) (snd (fold (sync_one E) ps s))"
proof (induction ps arbitrary: s)
  case (Cons p ps)
  from host_only_trans [OF sync_one_host Cons.IH] show ?case by simp
qed simp

lemma stale_fold_host: "host_only st (fold (remove_stale E) is st)"
  by (induction "is" arbitrary: st) (auto intro: host_only_trans [OF host_only_calls(3)])

lemma sync_settles:
  assumes "unmarshal sync_dec (m_Payload msg) = Some peers"
  shows "\<exists>db acc st1. settles E msg st (handlePeersSync E msg st) db \<and> sync_inv peers st (acc, st1) \<and>
    (db = a_db st \<or> (\<exists>u. ReplaceAll (eBolt E) (eRange E (sa_map acc)) (a_db st) = (Inr u, db)))"
proof -
  let ?s = "(\<lparr>sa_map = [], sa_applied = [], sa_failed = []\<rparr>, st)"
  obtain acc st1 where loop: "fold (sync_one E) peers ?s = (acc, st1)" by fastforce
  have inv: "sync_inv peers st (acc, st1)"
    using sync_fold_inv [of peers st ?s peers E] loop by (simp add: sync_inv_def)
  have h1: "host_only st st1" using sync_fold_host [of ?s E peers] loop by simp
  obtain r db where d: "ReplaceAll (eBolt E) (eRange E (sa_map acc)) (a_db st) = (r, db)" by fastforce
  let ?stale = "snd (ForEachPeer (eBolt E) (collect_stale (sa_map acc)) (a_db st1) [])"
    and ?st2 = "st\<lparr>a_host := a_host st1, a_db := db\<rparr>"
  obtain h2 where "fold (remove_stale E) ?stale ?st2 = ?st2\<lparr>a_host := h2\<rparr>"
    using host_onlyE [OF stale_fold_host] by blast
  then have run: "handlePeersSync E msg st = send_msg E (payload_msg (m_ID msg) None
      (JObj [(''applied'', JArr (map JStr (sa_applied acc))), (''failed'', JArr (map JStr (sa_failed acc)))]))
      (st\<lparr>a_host := h2, a_db := db\<rparr>)"
    using assms loop d by (simp add: handlePeersSync_def Let_def host_only_on_db [OF h1])
  have "settles E msg st (handlePeersSync E msg st) db" unfolding run by (rule settles_payload_db)
  moreover have "db = a_db st \<or> (\<exists>u. r = Inr u)"
    using d by (cases r) (auto simp: ReplaceAll_def dest: db_update_err)
  ultimately show ?thesis using inv d by blast
qed

text \<open>The update and the rollback change the version and the update id in the store and nothing else in it.\<close>

definition meta_only :: "'db bolt \<Rightarrow> 'db \<Rightarrow> 'db \<Rightarrow> bool" where
  "meta_only B db db' \<longleftrightarrow> (\<forall>b. b \<noteq> bucketMeta \<longrightarrow> bGet B db' b = bGet B db b)"

definition close_keeps :: "'db bolt \<Rightarrow> bool" where
  "close_keeps B \<longleftrightarrow> (\<forall>db. bGet B (snd (bClose B db)) = bGet B db)"

lemma meta_only_refl [simp]: "meta_only B db db"
  by (simp add: meta_only_def)

lemma meta_only_trans: "meta_only B a b \<Longrightarrow> meta_only B b c \<Longrightarrow> meta_only B a c"
  by (simp add: meta_only_def)

lemma meta_put:
  assumes "bolt_laws B"
  shows "meta_only B db (snd (PutVersion B v db))" "meta_only B db (snd (PutUpdateID B v db))"
  using assms
  by (auto simp: meta_only_def PutVersion_def PutUpdateID_def db_update_def bolt_laws_def fun_eq_iff
      split: option.splits sum.splits)

lemma RestartSelf_simps [simp]:
  "a_db (RestartSelf E st) = a_db st" "a_ws (RestartSelf E st) = a_ws st"
  "a_blocked (RestartSelf E st) = a_blocked st" "a_pending (RestartSelf E st) = a_pending st"
  by (auto simp: RestartSelf_def on_host_def split: prod.splits sum.splits option.splits)

lemma finish_db:
  assumes "bolt_laws (eBolt E)" "close_keeps (eBolt E)"
  shows "meta_only (eBolt E) (a_db st) (a_db (finish_update E msg p st))"
proof -
  let ?B = "eBolt E"
  let ?db = "snd (PutUpdateID ?B (up_UpdateID p) (snd (PutVersion ?B (up_Version p) (a_db st))))"
  have "meta_only ?B (a_db st) ?db" by (rule meta_only_trans [OF meta_put(1) [OF assms(1)] meta_put(2) [OF assms(1)]])
  moreover have "meta_only ?B ?db (snd (Close ?B ?db))"
    using assms(2) by (simp add: meta_only_def close_keeps_def Close_def)
  moreover have "a_db (finish_update E msg p st) = snd (Close ?B ?db)"
    by (simp add: finish_update_def Let_def sendResponseChecked_def)
  ultimately show ?thesis using meta_only_trans by metis
qed

lemma finish_frame:
  "a_blocked (finish_update E msg p st) = a_blocked st" "a_pending (finish_update E msg p st) = a_pending st"
  by (simp_all add: finish_update_def Let_def sendResponseChecked_def)

definition meta_effect :: "'db env \<Rightarrow> Message \<Rightarrow> 'db agent \<Rightarrow> 'db agent \<Rightarrow> bool" where
  "meta_effect E msg st st' \<longleftrightarrow>
     meta_only (eBolt E) (a_db st) (a_db st') \<and> a_blocked st' = a_blocked st \<and> a_pending st' = a_pending st \<and>
     (answered E msg st st' \<or> a_end st' \<noteq> None)"

lemma meta_effect_response: "meta_effect E msg st (sendResponse E (m_ID msg) b t (st\<lparr>a_host := h\<rparr>))"
  "meta_effect E msg st (sendResponse E (m_ID msg) b t st)"
  by (auto simp: meta_effect_def)

lemma meta_effect_put:
  "bolt_laws (eBolt E) \<Longrightarrow> meta_effect E msg st
     (snd (on_db (PutUpdateID (eBolt E) i) (sendResponse E (m_ID msg) b t (st\<lparr>a_host := h\<rparr>))))"
  using answered_response [of "st\<lparr>a_host := h\<rparr>" st E msg b t]
  by (simp add: meta_effect_def meta_put answered_def answers_def)

lemma meta_effect_finish:
  assumes "bolt_laws (eBolt E)" "close_keeps (eBolt E)"
  shows "meta_effect E msg st (finish_update E msg p (st\<lparr>a_host := h\<rparr>))"
  using finish_db [OF assms, of "st\<lparr>a_host := h\<rparr>"] by (simp add: meta_effect_def finish_frame finish_update_effect)

lemma update_effect:
  assumes "bolt_laws (eBolt E)" "close_keeps (eBolt E)"
  shows "meta_effect E msg st (handleAgentUpdate E msg st)"
proof -
  note effects = meta_effect_response meta_effect_put [OF assms(1)] meta_effect_finish [OF assms]
  show ?thesis
    unfolding handleAgentUpdate_def on_host_def
    by (simp split: option.split prod.split sum.split if_split add: Let_def effects)
qed

lemma rollback_effect:
  "a_db (handleAgentRollback E msg st) = a_db st" "answered E msg st (handleAgentRollback E msg st)"
  "a_blocked (handleAgentRollback E msg st) = a_blocked st" "a_pending (handleAgentRollback E msg st) = a_pending st"
proof -
  let ?ver = "fst (GetVersion (eBolt E) (a_db st))"
  obtain r h where r: "RollbackFrom E (BackupPath ?ver) (a_host st) = (r, h)" by fastforce
  have "\<exists>b t h. handleAgentRollback E msg st = sendResponse E (m_ID msg) b t (st\<lparr>a_host := h\<rparr>) \<or>
      handleAgentRollback E msg st = RestartSelf E (sendResponse E (m_ID msg) b t (st\<lparr>a_host := h\<rparr>))"
  proof (cases "?ver = []")
    case True
    then have "handleAgentRollback E msg st =
        sendResponse E (m_ID msg) False ''no previous version to roll back to'' (st\<lparr>a_host := a_host st\<rparr>)"
      by (simp add: handleAgentRollback_def)
    then show ?thesis by blast
  next
    case False
    then have "handleAgentRollback E msg st =
      (case r of Inl e \<Rightarrow> sendResponse E (m_ID msg) False (''rollback failed: '' @ e) (st\<lparr>a_host := h\<rparr>)
       | Inr _ \<Rightarrow> RestartSelf E (sendResponse E (m_ID msg) True ''rollback applied, restarting'' (st\<lparr>a_host := h\<rparr>)))"
      using r by (simp add: handleAgentRollback_def on_host_def Let_def)
    then show ?thesis by (cases r) auto
  qed
  then obtain b t h where run: "handleAgentRollback E msg st = sendResponse E (m_ID msg) b t (st\<lparr>a_host := h\<rparr>) \<or>
      handleAgentRollback E msg st = RestartSelf E (sendResponse E (m_ID msg) b t (st\<lparr>a_host := h\<rparr>))"
    by blast
  have "answered E msg st (sendResponse E (m_ID msg) b t (st\<lparr>a_host := h\<rparr>))" by auto
  with run show "answered E msg st (handleAgentRollback E msg st)" by (auto simp: answered_def answers_def)
  from run show "a_db (handleAgentRollback E msg st) = a_db st"
    "a_blocked (handleAgentRollback E msg st) = a_blocked st" "a_pending (handleAgentRollback E msg st) = a_pending st"
    by auto
qed

lemma ack_effect:
  "a_db (handleKeyInitAck msg st) = a_db st" "a_db (handleKeyAuthAck msg st) = a_db st"
  "a_ws (handleKeyInitAck msg st) = a_ws st" "a_ws (handleKeyAuthAck msg st) = a_ws st"
  "a_host (handleKeyInitAck msg st) = a_host st" "a_host (handleKeyAuthAck msg st) = a_host st"
  "a_end (handleKeyInitAck msg st) = a_end st" "a_end (handleKeyAuthAck msg st) = a_end st"
  by (auto simp: handleKeyInitAck_def handleKeyAuthAck_def pass_on_def split: option.splits list.splits)

section \<open>Every command is answered\<close>

definition commands :: "string list" where
  "commands = [''peer.add'', ''peer.remove'', ''status.request'', ''peers.sync'', ''peers.import'', ''bird.details'',
     ''agent.update'', ''agent.resume'', ''agent.rollback'', ''network.ping'', ''network.trace'', ''network.mtr'',
     ''network.bgp_route'', ''bird.disable'', ''bird.enable'']"

lemma quiet_answered:
  "settles E msg st st' db \<Longrightarrow> answered E msg st st' \<and> a_blocked st' = a_blocked st"
  by (simp add: settles_effects)

lemma ex_settles_answered:
  "\<exists>db. settles E msg st st' db \<and> Q db \<Longrightarrow> answered E msg st st' \<and> a_blocked st' = a_blocked st"
  by (elim exE conjE) (rule quiet_answered)

lemmas add_answered = ex_settles_answered [OF add_settles]
lemmas remove_answered = ex_settles_answered [OF remove_settles]

lemma sync_answered:
  assumes "unmarshal sync_dec (m_Payload msg) \<noteq> None"
  shows "answered E msg st (handlePeersSync E msg st) \<and> a_blocked (handlePeersSync E msg st) = a_blocked st"
proof -
  from assms obtain peers where "unmarshal sync_dec (m_Payload msg) = Some peers" by blast
  from sync_settles [OF this, of E st] show ?thesis by (elim exE conjE) (rule quiet_answered)
qed

lemma update_answered:
  assumes "bolt_laws (eBolt E)" "close_keeps (eBolt E)"
  shows "(answered E msg st (handleAgentUpdate E msg st) \<or> a_end (handleAgentUpdate E msg st) \<noteq> None) \<and>
    a_blocked (handleAgentUpdate E msg st) = a_blocked st"
  using update_effect [OF assms, of msg st] by (auto simp: meta_effect_def)

text \<open>
  C8: every command of the center is answered by exactly one message with its id, whatever the payload,
  the machine and the store do, with two exceptions: a \<open>peers.sync\<close> whose payload cannot be decoded gets no
  answer, and a successful update reports and replaces the process. A message that is no command
  and no acknowledgement of a key exchange changes nothing. No command blocks the reader.
\<close>

theorem every_command_answered:
  assumes "bolt_laws (eBolt E)" "close_keeps (eBolt E)" "st' = HandleMessage E msg st"
  shows "(m_Type msg \<in> set commands \<longrightarrow> a_blocked st' = a_blocked st \<and>
      (answered E msg st st' \<or>
       m_Type msg = ''peers.sync'' \<and> unmarshal sync_dec (m_Payload msg) = None \<and> st' = st \<or>
       m_Type msg = ''agent.update'' \<and> a_end st' \<noteq> None)) \<and>
    (m_Type msg \<notin> set commands \<longrightarrow> m_Type msg \<notin> {''key.init_ack'', ''key.auth_ack''} \<longrightarrow> st' = st)"
proof (cases "m_Type msg \<in> set commands")
  case True
  note q = quiet [THEN quiet_answered] add_answered remove_answered rollback_effect(2,3)
  have sync: "answered E msg st (handlePeersSync E msg st) \<and> a_blocked (handlePeersSync E msg st) = a_blocked st \<or>
      unmarshal sync_dec (m_Payload msg) = None \<and> handlePeersSync E msg st = st"
    using sync_answered [of msg E st] by (cases "unmarshal sync_dec (m_Payload msg)") (auto simp: handlePeersSync_def)
  from True have "m_Type msg = ''peers.sync'' \<or> m_Type msg = ''agent.update'' \<or>
      answered E msg st st' \<and> a_blocked st' = a_blocked st"
    unfolding commands_def list.set insert_iff empty_iff assms(3)
    by (elim disjE) (simp_all add: dispatch q)
  with True sync update_answered [OF assms(1,2), of msg st] show ?thesis
    unfolding assms(3) by (elim disjE) (auto simp: dispatch)
next
  case False
  then show ?thesis by (simp add: assms(3) HandleMessage_def commands_def)
qed

lemma mem_close_keeps: "close_keeps mem_bolt"
  by (simp add: close_keeps_def mem_bolt_def)

theorem every_command_answered_witness:
  "answered (demo_env (\<lambda>_. False) (\<lambda>_. [])) demo_add_msg demo_agent
     (HandleMessage (demo_env (\<lambda>_. False) (\<lambda>_. [])) demo_add_msg demo_agent)"
  using every_command_answered [OF _ _ refl, of "demo_env (\<lambda>_. False) (\<lambda>_. [])" demo_add_msg demo_agent]
  by (simp add: mem_bolt_laws mem_close_keeps commands_def demo_add_msg_def)

section \<open>The peer table as the center sees it\<close>

text \<open>
  The abstract table and what a message may do to it: an add that succeeds maps the peer to the record made from
  its payload, a remove that succeeds forgets it, a synchronisation that succeeds makes the table consist of records of its
  list; every message may leave the table as it is, and every other message does.
\<close>

type_synonym table = "string \<rightharpoonup> PeerInfo"

inductive peer_spec :: "Message \<Rightarrow> table \<Rightarrow> table \<Rightarrow> bool" for msg T where
  kept: "peer_spec msg T T"
| added: "m_Type msg = ''peer.add'' \<Longrightarrow> unmarshal peer_add_dec (m_Payload msg) = Some p \<Longrightarrow>
    peer_spec msg T (T(pa_PeerID p \<mapsto> added_info p (iface_of (pa_WgInterface p) (pa_ASN p))))"
| removed: "m_Type msg = ''peer.remove'' \<Longrightarrow> unmarshal peer_remove_dec (m_Payload msg) = Some p \<Longrightarrow>
    peer_spec msg T (T(pr_PeerID p := None))"
| synced: "m_Type msg = ''peers.sync'' \<Longrightarrow> unmarshal sync_dec (m_Payload msg) = Some ps \<Longrightarrow>
    (\<forall>k i. T' k = Some i \<longrightarrow> (\<exists>p \<in> set ps. sy_PeerID p = k \<and> i = sync_info p \<and> 0 < sy_ASN p)) \<Longrightarrow>
    peer_spec msg T T'"

inductive peer_run :: "Message list \<Rightarrow> table \<Rightarrow> table \<Rightarrow> bool" where
  run_none: "peer_run [] T T"
| run_more: "peer_spec msg T T' \<Longrightarrow> peer_run msgs T' T'' \<Longrightarrow> peer_run (msg # msgs) T T''"

inductive_simps peer_run_Nil: "peer_run [] T T'"
inductive_simps peer_run_Cons: "peer_run (msg # msgs) T T''"
inductive_cases peer_specE: "peer_spec msg T T'"

text \<open>The abstraction.\<close>

definition table_of :: "'db env \<Rightarrow> 'db agent \<Rightarrow> table" where
  "table_of E st = peer_of (eBolt E) (a_db st)"

lemma table_same: "bGet (eBolt E) (a_db st') bucketPeers = bGet (eBolt E) (a_db st) bucketPeers \<Longrightarrow> table_of E st' = table_of E st"
  by (simp add: table_of_def peer_of_def fun_eq_iff)

lemma quiet_table: "settles E msg st st' (a_db st) \<Longrightarrow> table_of E st' = table_of E st"
  by (simp add: table_of_def settles_effects(2))

lemma add_refines:
  assumes "bolt_laws (eBolt E)" "\<And>j. m_Payload msg = Some j \<Longrightarrow> jutf8 j" "m_Type msg = ''peer.add''"
  shows "peer_spec msg (table_of E st) (table_of E (handlePeerAdd E msg st))"
proof -
  obtain db where db: "settles E msg st (handlePeerAdd E msg st) db"
    and c: "db = a_db st \<or> (\<exists>p u. unmarshal peer_add_dec (m_Payload msg) = Some p \<and>
        PutPeer (eBolt E) (pa_PeerID p) (added_info p (iface_of (pa_WgInterface p) (pa_ASN p))) (a_db st) = (Inr u, db))"
    using add_settles [of E msg st] by (elim exE conjE)
  have t: "table_of E (handlePeerAdd E msg st) = peer_of (eBolt E) db"
    by (simp add: table_of_def settles_effects(2) [OF db])
  from c show ?thesis
  proof (elim disjE exE conjE)
    assume "db = a_db st"
    then show ?thesis unfolding t by (simp add: table_of_def [of E st] kept)
  next
    fix p u assume p: "unmarshal peer_add_dec (m_Payload msg) = Some p"
      and put: "PutPeer (eBolt E) (pa_PeerID p) (added_info p (iface_of (pa_WgInterface p) (pa_ASN p))) (a_db st) = (Inr u, db)"
    have "peer_of (eBolt E) db = (table_of E st)(pa_PeerID p \<mapsto> added_info p (iface_of (pa_WgInterface p) (pa_ASN p)))"
      using peer_table.put_ok [OF assms(1) add_payload_record [OF assms(2) p] put] by (simp add: table_of_def)
    then show ?thesis using added [OF assms(3) p] by (simp add: t)
  qed
qed

lemma remove_refines:
  assumes "bolt_laws (eBolt E)" "m_Type msg = ''peer.remove''"
  shows "peer_spec msg (table_of E st) (table_of E (handlePeerRemove E msg st))"
proof -
  obtain db where db: "settles E msg st (handlePeerRemove E msg st) db"
    and c: "db = a_db st \<or> (\<exists>p u. unmarshal peer_remove_dec (m_Payload msg) = Some p \<and>
        DeletePeer (eBolt E) (pr_PeerID p) (a_db st) = (Inr u, db))"
    using remove_settles [of E msg st] by (elim exE conjE)
  have t: "table_of E (handlePeerRemove E msg st) = peer_of (eBolt E) db"
    by (simp add: table_of_def settles_effects(2) [OF db])
  from c show ?thesis
  proof (elim disjE exE conjE)
    assume "db = a_db st"
    then show ?thesis unfolding t by (simp add: table_of_def [of E st] kept)
  next
    fix p u assume p: "unmarshal peer_remove_dec (m_Payload msg) = Some p"
      and del: "DeletePeer (eBolt E) (pr_PeerID p) (a_db st) = (Inr u, db)"
    show ?thesis
      unfolding t peer_table.del_ok [OF assms(1) del] table_of_def [of E st, symmetric]
      by (rule removed [OF assms(2) p])
  qed
qed

lemma sync_refines:
  assumes "bolt_laws (eBolt E)" "range_ok E" "\<And>j. m_Payload msg = Some j \<Longrightarrow> jutf8 j" "m_Type msg = ''peers.sync''"
  shows "peer_spec msg (table_of E st) (table_of E (handlePeersSync E msg st))"
proof (cases "unmarshal sync_dec (m_Payload msg)")
  case None
  then show ?thesis by (simp add: handlePeersSync_def kept)
next
  case (Some ps)
  obtain db acc st1 where db: "settles E msg st (handlePeersSync E msg st) db" and inv: "sync_inv ps st (acc, st1)"
    and c: "db = a_db st \<or> (\<exists>u. ReplaceAll (eBolt E) (eRange E (sa_map acc)) (a_db st) = (Inr u, db))"
    using sync_settles [OF Some, of E st] by (elim exE conjE)
  have t: "table_of E (handlePeersSync E msg st) = peer_of (eBolt E) db"
    by (simp add: table_of_def settles_effects(2) [OF db])
  have rows: "\<forall>(k, i) \<in> set (sa_map acc). \<exists>p \<in> set ps. k = sy_PeerID p \<and> i = sync_info p \<and> 0 < sy_ASN p \<and> k \<noteq> []"
    and dist: "distinct (map fst (sa_map acc))"
    using inv by (simp_all add: sync_inv_def)
  from c show ?thesis
  proof (elim disjE exE)
    assume "db = a_db st"
    then show ?thesis unfolding t by (simp add: table_of_def [of E st] kept)
  next
    fix u assume repl: "ReplaceAll (eBolt E) (eRange E (sa_map acc)) (a_db st) = (Inr u, db)"
    note range = range_ok_map [OF assms(2) dist]
    have "\<forall>(k, i) \<in> set (eRange E (sa_map acc)). info_ok i"
      using rows assms(2) sync_payload_records [OF assms(3) Some] by (fastforce simp: range_ok_def)
    from peer_table.repl_ok [OF assms(1) this range(1) repl]
    have T': "peer_of (eBolt E) db = map_of (sa_map acc)" by (simp add: range(2))
    show ?thesis
      unfolding t T' by (rule synced [OF assms(4) Some]) (use rows in \<open>fastforce dest: map_of_SomeD\<close>)
  qed
qed

lemma meta_table: "meta_only (eBolt E) (a_db st) (a_db st') \<Longrightarrow> table_of E st' = table_of E st"
  by (rule table_same) (simp add: meta_only_def bucketPeers_def bucketMeta_def)

lemma dispatch_refines:
  assumes "bolt_laws (eBolt E)" "close_keeps (eBolt E)" "range_ok E" "\<And>j. m_Payload msg = Some j \<Longrightarrow> jutf8 j"
  shows "peer_spec msg (table_of E st) (table_of E (HandleMessage E msg st))"
proof -
  have upd: "table_of E (handleAgentUpdate E msg st) = table_of E st"
    using update_effect [OF assms(1,2), of msg st] meta_table by (auto simp: meta_effect_def)
  have acks: "table_of E (handleKeyInitAck msg st) = table_of E st" "table_of E (handleKeyAuthAck msg st) = table_of E st"
    "table_of E (handleAgentRollback E msg st) = table_of E st"
    by (simp_all add: table_of_def ack_effect rollback_effect(1))
  note same = quiet [THEN quiet_table] upd acks
  note change = add_refines [OF assms(1,4)] remove_refines [OF assms(1)] sync_refines [OF assms(1,3,4)]
  show ?thesis
    unfolding HandleMessage_def Let_def by (simp split: if_split add: same kept change)
qed

text \<open>
  C3: the agent refines the abstract peer table. Over any sequence of frames, of any content, the
  table in its store moves exactly as the messages that reached the handlers allow: adds, removes and
  synchronisations change it in the one way that their payload says or not at all, and nothing else changes it.
\<close>

theorem reader_refines_peer_table:
  assumes "bolt_laws (eBolt E)" "close_keeps (eBolt E)" "range_ok E"
  shows "peer_run (handled_msgs E frs st) (table_of E st) (table_of E (read_loop E frs st))"
proof (induction frs arbitrary: st)
  case Nil
  then show ?case by (simp add: run_none)
next
  case (Cons fr frs)
  show ?case
  proof (cases "stuck st")
    case True
    then show ?thesis by (simp add: run_none)
  next
    case False
    show ?thesis
    proof (cases "receive (ePrims E) (a_ws st) fr")
      case None
      with False Cons.IH [of st] show ?thesis by (simp add: read_frame_def)
    next
      case (Some msg)
      have "peer_spec msg (table_of E st) (table_of E (read_frame E fr st))"
        using dispatch_refines [OF assms receive_utf8 [OF Some]] Some by (simp add: read_frame_def)
      with False Some Cons.IH [of "read_frame E fr st"] show ?thesis by (simp add: run_more)
    qed
  qed
qed

definition demo_frame :: "Message \<Rightarrow> sendItem" where
  "demo_frame m = \<lparr>si_binary = False, si_data = message_marshal m\<rparr>"

lemma demo_frame_received: "message_ok m \<Longrightarrow> receive P demo_client (demo_frame m) = Some m"
  by (simp add: receive_def demo_frame_def demo_client_def NewClient_def message_text.dec_enc)

lemma demo_add_wire_ok: "message_ok demo_add_msg"
  by (simp add: message_ok_def demo_add_msg_def demo_add_payload_def num_lit_def num_unsigned_def int_part_def
      frac_part_def exp_part_def is_digit_def)

theorem reader_refines_peer_table_witness:
  "peer_run [demo_add_msg] Map.empty (table_of (demo_env (\<lambda>_. False) (\<lambda>_. []))
     (read_loop (demo_env (\<lambda>_. False) (\<lambda>_. [])) [demo_frame demo_add_msg] (demo_agent\<lparr>a_ws := demo_client\<rparr>)))"
proof -
  let ?E = "demo_env (\<lambda>_. False) (\<lambda>_. [])" and ?st = "demo_agent\<lparr>a_ws := demo_client\<rparr>"
  have "handled_msgs ?E [demo_frame demo_add_msg] ?st = [demo_add_msg]"
    using demo_frame_received [OF demo_add_wire_ok] by (simp add: stuck_def)
  moreover have "table_of ?E ?st = Map.empty" by (simp add: table_of_def peer_of_def mem_bolt_def fun_eq_iff)
  ultimately show ?thesis
    using reader_refines_peer_table [of ?E "[demo_frame demo_add_msg]" ?st]
    by (simp add: mem_bolt_laws mem_close_keeps demo_range_ok del: read_loop.simps)
qed

section \<open>Acknowledgements nobody waits for\<close>

lemma exchange_end_pending:
  "key_exchange_ends E kp w (Some m) st0 = (r, st) \<Longrightarrow> w \<noteq> NoExchange \<Longrightarrow> a_pending st = Some []"
  by (cases w) (auto simp: key_exchange_ends_def handleKeyInitAckPayload_def handleKeyAuthAckPayload_def Let_def
      split: if_splits option.splits sum.splits)

definition is_ack :: "Message \<Rightarrow> bool" where
  "is_ack m \<longleftrightarrow> m_Type m = ''key.init_ack'' \<or> m_Type m = ''key.auth_ack''"

lemma ack_dispatch: "is_ack m \<Longrightarrow> HandleMessage E m st = pass_on m st"
  by (auto simp: is_ack_def dispatch handleKeyInitAck_def handleKeyAuthAck_def)

lemma read_loop_stuck: "stuck st \<Longrightarrow> read_loop E frs st = st \<and> handled_msgs E frs st = []"
  by (cases frs) simp_all

text \<open>
  C34: once a key exchange is over, nobody takes messages out of its channel, which has room for one. The
  first acknowledgement that still arrives fills it, and the second makes the reader wait for good: the agent handles
  no further message of the connection, whatever frames follow.
\<close>

theorem late_acks_block_reader:
  assumes "key_exchange_ends E kp w (Some m0) st0 = (r, st)" "w \<noteq> NoExchange" "\<not> stuck st"
    and "receive (ePrims E) (a_ws st) f1 = Some m1" "is_ack m1"
    and "receive (ePrims E) (a_ws st) f2 = Some m2" "is_ack m2"
  shows "a_blocked (read_loop E (f1 # f2 # frs) st) \<and> handled_msgs E (f1 # f2 # frs) st = [m1, m2] \<and>
    read_loop E (f1 # f2 # frs) st = read_loop E [f1, f2] st"
proof -
  have p: "a_pending st = Some []" by (rule exchange_end_pending [OF assms(1,2)])
  let ?st1 = "st\<lparr>a_pending := Some [m1]\<rparr>" and ?st2 = "st\<lparr>a_pending := Some [m1], a_blocked := True\<rparr>"
  have 1: "read_frame E f1 st = ?st1"
    using p assms(4) by (simp add: read_frame_def ack_dispatch [OF assms(5)] pass_on_def)
  have 2: "read_frame E f2 ?st1 = ?st2" "\<not> stuck ?st1"
    using assms(3,6) by (simp_all add: read_frame_def ack_dispatch [OF assms(7)] pass_on_def stuck_def)
  have "stuck ?st2" by (simp add: stuck_def)
  from read_loop_stuck [OF this, of E] assms(3,4,6) 1 2 show ?thesis by simp
qed

definition demo_ack :: Message where
  "demo_ack = \<lparr>m_Type = ''key.init_ack'', m_ID = [], m_Payload = None, m_Success = None, m_Error = ''rejected''\<rparr>"

theorem late_acks_block_reader_witness:
  "\<exists>r st. key_exchange_ends (demo_env (\<lambda>_. False) (\<lambda>_. [])) demo_pair WaitInit (Some demo_ack)
      (demo_agent\<lparr>a_ws := demo_client\<rparr>) = (r, st) \<and>
    a_blocked (read_loop (demo_env (\<lambda>_. False) (\<lambda>_. [])) [demo_frame demo_ack, demo_frame demo_ack, demo_frame demo_add_msg] st)"
proof -
  let ?E = "demo_env (\<lambda>_. False) (\<lambda>_. [])" and ?st = "demo_agent\<lparr>a_ws := demo_client, a_pending := Some []\<rparr>"
  have e: "key_exchange_ends ?E demo_pair WaitInit (Some demo_ack) (demo_agent\<lparr>a_ws := demo_client\<rparr>) =
      (Inl (''key.init rejected by center: '' @ ''rejected''), ?st)"
    by (simp add: key_exchange_ends_def handleKeyInitAckPayload_def demo_ack_def)
  have "message_ok demo_ack" by (simp add: message_ok_def demo_ack_def)
  then have r: "receive (ePrims ?E) (a_ws ?st) (demo_frame demo_ack) = Some demo_ack"
    using demo_frame_received by simp
  have a: "is_ack demo_ack" by (simp add: is_ack_def demo_ack_def)
  have "\<not> stuck ?st" by (simp add: stuck_def)
  from late_acks_block_reader [OF e _ this r a r a, of "[demo_frame demo_add_msg]"] e show ?thesis by auto
qed

end
