(* ===== verification/Session.thy ===== *)
theory Session
  imports Startup Dispatch
begin

text \<open>
  The life of a process: everything that changes its state between start and stop, as a step relation, and
  what survives it: the key pair, and the form of the records in the store. The reader handles frames; beside it run the key exchange, the request
  for a synchronisation after it, and the collector of metrics.
\<close>

section \<open>Steps\<close>

text \<open>
  A key exchange ends with any message or by its timeout; a message that it takes out of the channel
  lets a reader that waits on the channel go on.
\<close>

inductive agent_step :: "'db env \<Rightarrow> 'db agent \<Rightarrow> 'db agent \<Rightarrow> bool" for E where
  frame: "\<not> stuck st \<Longrightarrow> agent_step E st (read_frame E fr st)"
| exchange_begins: "a_end st = None \<Longrightarrow> agent_step E st (snd (MakeKeyExchangeHandler E st))"
| exchange_ends: "a_end st = None \<Longrightarrow> eKey E = Some kp \<Longrightarrow> agent_step E st (snd (key_exchange_ends E kp w ev st))"
| unblocked: "a_blocked st \<Longrightarrow> agent_step E st (st\<lparr>a_blocked := False, a_pending := Some [msg]\<rparr>)"
| connected: "a_end st = None \<Longrightarrow> agent_step E st (RequestSync E st)"
| beat: "a_end st = None \<Longrightarrow> agent_step E st (snd (collect E R sched c st))"

section \<open>The key pair in the store\<close>

text \<open>\<open>own_keys\<close> are the entries that hold the key pair of the agent.\<close>

definition own_keys :: "'db bolt \<Rightarrow> 'db \<Rightarrow> string option \<times> string option" where
  "own_keys B db = (bGet B db bucketKeys keyLocalPriv, bGet B db bucketKeys keyLocalPub)"

lemma own_keys_bucket: "bGet B db' bucketKeys = bGet B db bucketKeys \<Longrightarrow> own_keys B db' = own_keys B db"
  by (simp add: own_keys_def)

lemma buckets_differ: "bucketKeys \<noteq> bucketPeers" "bucketKeys \<noteq> bucketMeta" "keyLocalPriv \<noteq> keyServerPub" "keyLocalPub \<noteq> keyServerPub"
  by (simp_all add: bucketKeys_def bucketPeers_def bucketMeta_def keyLocalPriv_def keyLocalPub_def keyServerPub_def)

lemma put_peer_keys:
  assumes "bolt_laws B" "PutPeer B k i db = (Inr u, db')"
  shows "own_keys B db' = own_keys B db"
proof -
  obtain tx where "bPut B bucketPeers k (peer_marshal i) db = Inr tx" "bGet B db' = bGet B tx"
    using assms(2) unfolding PutPeer_def by (rule db_update_ok [OF _ assms(1)])
  then show ?thesis using bolt_put [OF assms(1)] buckets_differ(1) by (auto simp: own_keys_def)
qed

lemma delete_peer_keys:
  assumes "bolt_laws B" "DeletePeer B k db = (Inr u, db')"
  shows "own_keys B db' = own_keys B db"
proof -
  obtain tx where "bDelete B bucketPeers k db = Inr tx" "bGet B db' = bGet B tx"
    using assms(2) unfolding DeletePeer_def by (rule db_update_ok [OF _ assms(1)])
  then show ?thesis using bolt_delete [OF assms(1)] buckets_differ(1) by (auto simp: own_keys_def)
qed

lemma server_key_keys:
  assumes "bolt_laws B"
  shows "own_keys B (snd (PutServerPubKey B pub db)) = own_keys B db"
  using assms buckets_differ(3,4)
  by (auto simp: own_keys_def PutServerPubKey_def db_update_def bolt_laws_def split: option.splits sum.splits)

lemma quiet_keys: "settles E msg st st' (a_db st) \<Longrightarrow> own_keys B (a_db st') = own_keys B (a_db st)"
  by (simp add: settles_effects(2))

lemma dispatch_keys:
  assumes "bolt_laws (eBolt E)" "close_keeps (eBolt E)" "range_ok E"
  shows "own_keys (eBolt E) (a_db (HandleMessage E msg st)) = own_keys (eBolt E) (a_db st)"
proof -
  let ?k = "own_keys (eBolt E)"
  obtain db1 where 1: "settles E msg st (handlePeerAdd E msg st) db1" "db1 = a_db st \<or> (\<exists>p u. PutPeer (eBolt E) (pa_PeerID p)
      (added_info p (iface_of (pa_WgInterface p) (pa_ASN p))) (a_db st) = (Inr u, db1))"
    using add_settles [of E msg st] by blast
  have add: "?k (a_db (handlePeerAdd E msg st)) = ?k (a_db st)"
    unfolding settles_effects(2) [OF 1(1)] using 1(2) put_peer_keys [OF assms(1)] by auto
  obtain db2 where 2: "settles E msg st (handlePeerRemove E msg st) db2"
    "db2 = a_db st \<or> (\<exists>k u. DeletePeer (eBolt E) k (a_db st) = (Inr u, db2))"
    using remove_settles [of E msg st] by blast
  have rem: "?k (a_db (handlePeerRemove E msg st)) = ?k (a_db st)"
    unfolding settles_effects(2) [OF 2(1)] using 2(2) delete_peer_keys [OF assms(1)] by auto
  have sync: "?k (a_db (handlePeersSync E msg st)) = ?k (a_db st)"
  proof (cases "unmarshal sync_dec (m_Payload msg)")
    case None
    then show ?thesis by (simp add: handlePeersSync_def)
  next
    case (Some ps)
    obtain db acc st1 where 3: "settles E msg st (handlePeersSync E msg st) db" "sync_inv ps st (acc, st1)"
      "db = a_db st \<or> (\<exists>u. ReplaceAll (eBolt E) (eRange E (sa_map acc)) (a_db st) = (Inr u, db))"
      using sync_settles [OF Some, of E st] by (elim exE conjE)
    have "distinct (map fst (eRange E (sa_map acc)))"
      using range_ok_map(1) [OF assms(3)] 3(2) by (simp add: sync_inv_def)
    with 3(3) show ?thesis
      unfolding settles_effects(2) [OF 3(1)]
      using ReplaceAll_get [OF assms(1), of "eRange E (sa_map acc)" "a_db st" _ db] buckets_differ(1)
      by (auto simp: own_keys_def)
  qed
  have upd: "?k (a_db (handleAgentUpdate E msg st)) = ?k (a_db st)"
    using update_effect [OF assms(1,2), of msg st] buckets_differ(2)
    by (intro own_keys_bucket) (simp add: meta_effect_def meta_only_def)
  show ?thesis
    unfolding HandleMessage_def Let_def
    by (simp split: if_split add: quiet [THEN quiet_keys] add rem sync upd ack_effect rollback_effect(1))
qed

lemma exchange_keys:
  assumes "bolt_laws (eBolt E)"
  shows "own_keys (eBolt E) (a_db (snd (key_exchange_ends E kp w ev st))) = own_keys (eBolt E) (a_db st)"
    "a_db (snd (MakeKeyExchangeHandler E st)) = a_db st"
proof -
  show "own_keys (eBolt E) (a_db (snd (key_exchange_ends E kp w ev st))) = own_keys (eBolt E) (a_db st)"
    using server_key_keys [OF assms]
    by (cases w; cases ev) (auto simp: key_exchange_ends_def handleKeyInitAckPayload_def handleKeyAuthAckPayload_def Let_def
        split: if_splits option.splits sum.splits)
  show "a_db (snd (MakeKeyExchangeHandler E st)) = a_db st"
    by (auto simp: MakeKeyExchangeHandler_def doKeyInit_def doKeyAuth_def draw_nonce_def on_ws_def Let_def
        split: option.splits sum.splits prod.splits)
qed

lemma details_db: "tick_details E c st = (ds, st') \<Longrightarrow> a_db st' = a_db st"
  by (auto simp: tick_details_def GetBirdDetails_def get_details_def on_host_def split: if_splits prod.splits sum.splits)

lemma states_db: "GetBirdStates E st = (ss, st') \<Longrightarrow> a_db st' = a_db st"
  by (auto simp: GetBirdStates_def on_host_def split: prod.splits sum.splits)

lemma collect_db: "a_db (snd (collect E R sched c st)) = a_db st"
proof -
  obtain r h where s: "GetStats (eOs E) (a_host st) = (r, h)" by fastforce
  obtain ss st2 where b: "GetBirdStates E (st\<lparr>a_host := h\<rparr>) = (ss, st2)" by fastforce
  let ?c = "c\<lparr>co_tickCount := co_tickCount c + 1\<rparr>"
  obtain ds st3 where d: "tick_details E ?c st2 = (ds, st3)" by fastforce
  note db = states_db [OF b] details_db [OF d]
  show ?thesis
  proof (cases r)
    case (Inr stats)
    obtain rtts st4 where p: "fold (ping_one E) (sched (ping_jobs (iface_index E (st\<lparr>a_host := h\<rparr>)) stats)) ([], st3) = (rtts, st4)"
      by fastforce
    have "a_db st4 = a_db st" using pings_frame(1) [OF p] db by simp
    with Inr s b d p show ?thesis by (simp add: collect_def on_host_def Let_def split: option.splits)
  qed (use s in \<open>simp add: collect_def on_host_def\<close>)
qed

text \<open>Every step keeps the key pair.\<close>

lemma step_keys:
  assumes "bolt_laws (eBolt E)" "close_keeps (eBolt E)" "range_ok E" "agent_step E st st'"
  shows "own_keys (eBolt E) (a_db st') = own_keys (eBolt E) (a_db st)"
  using assms(4)
proof cases
  case (frame fr)
  then show ?thesis using dispatch_keys [OF assms(1-3)] by (simp add: read_frame_def split: option.splits)
qed (simp_all add: exchange_keys [OF assms(1)] collect_db RequestSync_def)

text \<open>
  The laws of the database and of \<open>range\<close>, under which the steps of an agent keep what is asked here.
\<close>

definition lawful :: "'db env \<Rightarrow> bool" where
  "lawful E \<longleftrightarrow> bolt_laws (eBolt E) \<and> close_keeps (eBolt E) \<and> range_ok E"

interpretation agent_life: preserved "agent_step E" "\<lambda>st. lawful E \<longrightarrow> own_keys (eBolt E) (a_db st) = ks" for E ks
  by unfold_locales (auto simp: lawful_def dest: step_keys)

section \<open>Identity\<close>

lemma started_env [simp]:
  "eRange (ru_env (wire_agent bt E cfg kp pos db h)) = eRange E"
  by (simp add: wire_agent_def Let_def NewHandler_def)

lemma started_lawful:
  assumes "main_start bt E path pos disk h = Inr r" "lawful E"
  shows "lawful (ru_env r)" "eBolt (ru_env r) = eBolt E"
  using assms by (auto elim!: main_start_run simp: lawful_def range_ok_def)

text \<open>
  C5: the identity of the agent survives everything: an agent starts, handles whatever frames arrive,
  exchanges keys and reports metrics in any order, and is stopped; when it starts again on the same
  store, with whatever configuration and version, it has the key pair it had before.
\<close>

theorem identity_survives_restart:
  assumes "lawful E" "bucket_laws (eBolt E)" "aead_laws (ePrims E)" "\<forall>db. bBegin (eBolt E) db False = None"
    and "\<forall>b \<in> {bt, bt'}. \<forall>p d db. bt_open b p d = Inr db \<longrightarrow> bGet (eBolt E) db = bGet (eBolt E) d"
    and "main_start bt E path pos disk h = Inr r"
    and "(agent_step (ru_env r))\<^sup>*\<^sup>* (ru_agent r) st"
    and "main_start bt' E path' pos' (a_db (ru_agent (main_stop (r\<lparr>ru_agent := st\<rparr>)))) h' = Inr r'"
  shows "eKey (ru_env r') = eKey (ru_env r) \<and> eKey (ru_env r) \<noteq> None \<and> c_keypair (a_ws (ru_agent r')) = eKey (ru_env r)"
proof -
  have l: "bolt_laws (eBolt E)" "close_keeps (eBolt E)" using assms(1) by (simp_all add: lawful_def)
  note env = started_lawful [OF assms(6,1)]
  have "own_keys (eBolt E) (a_db st) = own_keys (eBolt E) (a_db (ru_agent r))"
    using agent_life.reach_inv [OF assms(7), of "own_keys (eBolt E) (a_db (ru_agent r))"] env by simp
  then have "\<forall>k \<in> {keyLocalPriv, keyLocalPub}.
      bGet (eBolt E) (a_db (ru_agent (main_stop (r\<lparr>ru_agent := st\<rparr>)))) bucketKeys k =
      bGet (eBolt E) (a_db (ru_agent r)) bucketKeys k"
    using l(2) env(2) by (simp add: main_stop_def Close_def close_keeps_def own_keys_def)
  from restart_same_key [OF l(1) assms(2-6) this assms(8)] show ?thesis .
qed

lemma demo_boot_simps [simp]:
  "eBolt demo_boot_env = mem_bolt" "ePrims demo_boot_env = toy_prims" "lawful demo_boot_env"
  by (simp_all add: demo_boot_env_def lawful_def mem_bolt_laws mem_close_keeps demo_range_ok)

theorem identity_survives_restart_witness:
  "\<exists>r r'. main_start (demo_boot 60) demo_boot_env ''/etc/c.yaml'' 0 [] demo_boot_host = Inr r \<and>
     main_start (demo_boot 30) demo_boot_env ''/etc/c.yaml'' 7
       (a_db (ru_agent (main_stop (r\<lparr>ru_agent := RequestSync (ru_env r) (ru_agent r)\<rparr>)))) demo_boot_host = Inr r' \<and>
     eKey (ru_env r') = eKey (ru_env r)"
proof -
  obtain r where r: "main_start (demo_boot 60) demo_boot_env ''/etc/c.yaml'' 0 [] demo_boot_host = Inr r"
    using demo_starts by blast
  let ?st = "RequestSync (ru_env r) (ru_agent r)"
  let ?disk = "a_db (ru_agent (main_stop (r\<lparr>ru_agent := ?st\<rparr>)))"
  obtain r' where r': "main_start (demo_boot 30) demo_boot_env ''/etc/c.yaml'' 7 ?disk demo_boot_host = Inr r'"
    using demo_starts by blast
  have "a_end (ru_agent r) = None" using r by (auto elim!: main_start_run simp: wire_agent_def Let_def SetWSClient_def)
  then have "agent_step (ru_env r) (ru_agent r) ?st" by (rule connected)
  then have steps: "(agent_step (ru_env r))\<^sup>*\<^sup>* (ru_agent r) ?st" by (rule r_into_rtranclp)
  have begins: "\<forall>db. bBegin mem_bolt db False = None" by (simp add: mem_bolt_def)
  have "eKey (ru_env r') = eKey (ru_env r) \<and> eKey (ru_env r) \<noteq> None \<and> c_keypair (a_ws (ru_agent r')) = eKey (ru_env r)"
    by (rule identity_survives_restart [OF _ _ _ _ _ r steps r'])
      (simp_all add: mem_bucket_laws toy_aead_laws begins demo_boot_def)
  with r r' show ?thesis by blast
qed

section \<open>The records in the store\<close>

text \<open>
  A record is complete when all its strings are valid UTF-8, its AS number fits 64 bits and it names the
  interface, the protocol and the file of the peer: the names by which the peer is torn down later.
  A store is well formed when every entry of the bucket of peers has a key and is the text of a complete record.
\<close>

definition complete_info :: "PeerInfo \<Rightarrow> bool" where
  "complete_info i \<longleftrightarrow>
     info_ok i \<and> pi_WgInterface i \<noteq> [] \<and> pi_BgpProtoName i \<noteq> [] \<and> pi_BirdConfigFilename i \<noteq> []"

definition store_ok :: "'db bolt \<Rightarrow> 'db \<Rightarrow> bool" where
  "store_ok B db \<longleftrightarrow>
     (\<forall>k v. bGet B db bucketPeers k = Some v \<longrightarrow> k \<noteq> [] \<and> (\<exists>i. complete_info i \<and> v = peer_marshal i))"

lemma store_ok_cong: "store_ok B db \<Longrightarrow> bGet B db' bucketPeers = bGet B db bucketPeers \<Longrightarrow> store_ok B db'"
  by (simp add: store_ok_def)

lemma names_given: "iface_of w n \<noteq> []" "proto_of n \<noteq> []" "bird_filename n \<noteq> []"
  by (simp_all add: iface_of_def InterfaceName_def proto_of_def bird_filename_def)

lemma written_complete:
  "info_ok (added_info p (iface_of w n)) \<Longrightarrow> complete_info (added_info p (iface_of w n))"
  "info_ok (sync_info q) \<Longrightarrow> complete_info (sync_info q)"
  by (simp_all add: complete_info_def added_info_def sync_info_def names_given)

lemma put_store_ok:
  assumes "bolt_laws B" "PutPeer B k i db = (Inr u, db')" "complete_info i" "store_ok B db"
  shows "store_ok B db'"
proof -
  obtain tx where tx: "bPut B bucketPeers k (peer_marshal i) db = Inr tx" "bGet B db' = bGet B tx"
    using assms(2) unfolding PutPeer_def by (rule db_update_ok [OF _ assms(1)])
  have "k \<noteq> []" using tx(1) assms(1) by (auto simp: bolt_laws_def is_ok_def split: sum.splits)
  with tx assms(3,4) show ?thesis using bolt_put [OF assms(1) tx(1)] by (auto simp: store_ok_def)
qed

lemma delete_store_ok:
  assumes "bolt_laws B" "DeletePeer B k db = (Inr u, db')" "store_ok B db"
  shows "store_ok B db'"
proof -
  obtain tx where tx: "bDelete B bucketPeers k db = Inr tx" "bGet B db' = bGet B tx"
    using assms(2) unfolding DeletePeer_def by (rule db_update_ok [OF _ assms(1)])
  with assms(3) show ?thesis using bolt_delete [OF assms(1) tx(1)] by (auto simp: store_ok_def)
qed

lemma replace_store_ok:
  assumes "bolt_laws B" "distinct (map fst ps)" "ReplaceAll B ps db = (Inr u, db')"
    and "\<forall>(k, i) \<in> set ps. k \<noteq> [] \<and> complete_info i"
  shows "store_ok B db'"
  using assms(4) unfolding store_ok_def ReplaceAll_get [OF assms(1-3)] by (auto dest: map_of_SomeD)

lemma quiet_store: "settles E msg st st' (a_db st) \<Longrightarrow> store_ok B (a_db st') = store_ok B (a_db st)"
  by (simp add: settles_effects(2))

lemma sync_store_ok:
  assumes "lawful E" "\<And>j. m_Payload msg = Some j \<Longrightarrow> jutf8 j" "store_ok (eBolt E) (a_db st)"
  shows "store_ok (eBolt E) (a_db (handlePeersSync E msg st))"
proof (cases "unmarshal sync_dec (m_Payload msg)")
  case None
  with assms(3) show ?thesis by (simp add: handlePeersSync_def)
next
  case (Some ps)
  obtain db acc st1 where s: "settles E msg st (handlePeersSync E msg st) db" "sync_inv ps st (acc, st1)"
    "db = a_db st \<or> (\<exists>u. ReplaceAll (eBolt E) (eRange E (sa_map acc)) (a_db st) = (Inr u, db))"
    using sync_settles [OF Some, of E st] by (elim exE conjE)
  have l: "bolt_laws (eBolt E)" "range_ok E" using assms(1) by (simp_all add: lawful_def)
  have dist: "distinct (map fst (eRange E (sa_map acc)))"
    using range_ok_map(1) [OF l(2)] s(2) by (simp add: sync_inv_def)
  have "\<forall>(k, i) \<in> set (eRange E (sa_map acc)). k \<noteq> [] \<and> complete_info i"
    using s(2) l(2) sync_payload_records [OF assms(2) Some] written_complete(2)
    by (fastforce simp: sync_inv_def range_ok_def)
  with s(3) assms(3) show ?thesis
    unfolding settles_effects(2) [OF s(1)] using replace_store_ok [OF l(1) dist] by auto
qed

lemma dispatch_store_ok:
  assumes "lawful E" "\<And>j. m_Payload msg = Some j \<Longrightarrow> jutf8 j" "store_ok (eBolt E) (a_db st)"
  shows "store_ok (eBolt E) (a_db (HandleMessage E msg st))"
proof -
  let ?ok = "\<lambda>st. store_ok (eBolt E) (a_db st)"
  have l: "bolt_laws (eBolt E)" "close_keeps (eBolt E)" using assms(1) by (simp_all add: lawful_def)
  obtain db1 where 1: "settles E msg st (handlePeerAdd E msg st) db1" "db1 = a_db st \<or>
      (\<exists>p u. unmarshal peer_add_dec (m_Payload msg) = Some p \<and> PutPeer (eBolt E) (pa_PeerID p)
        (added_info p (iface_of (pa_WgInterface p) (pa_ASN p))) (a_db st) = (Inr u, db1))"
    using add_settles [of E msg st] by blast
  have add: "?ok (handlePeerAdd E msg st)"
    unfolding settles_effects(2) [OF 1(1)] using 1(2)
  proof (elim disjE exE conjE)
    fix p u assume p: "unmarshal peer_add_dec (m_Payload msg) = Some p"
      "PutPeer (eBolt E) (pa_PeerID p) (added_info p (iface_of (pa_WgInterface p) (pa_ASN p))) (a_db st) = (Inr u, db1)"
    show "store_ok (eBolt E) db1"
      by (rule put_store_ok [OF l(1) p(2) written_complete(1) [OF add_payload_record [OF assms(2) p(1)]] assms(3)])
  qed (use assms(3) in simp)
  obtain db2 where 2: "settles E msg st (handlePeerRemove E msg st) db2"
    "db2 = a_db st \<or> (\<exists>k u. DeletePeer (eBolt E) k (a_db st) = (Inr u, db2))"
    using remove_settles [of E msg st] by blast
  have rem: "?ok (handlePeerRemove E msg st)"
    unfolding settles_effects(2) [OF 2(1)] using 2(2) assms(3) delete_store_ok [OF l(1)] by auto
  have "bGet (eBolt E) (a_db (handleAgentUpdate E msg st)) bucketPeers = bGet (eBolt E) (a_db st) bucketPeers"
    using update_effect [OF l, of msg st] by (simp add: meta_effect_def meta_only_def bucketPeers_def bucketMeta_def)
  then have upd: "?ok (handleAgentUpdate E msg st)" by (rule store_ok_cong [OF assms(3)])
  show ?thesis
    unfolding HandleMessage_def Let_def
    by (simp split: if_split
        add: quiet [THEN quiet_store] add rem upd sync_store_ok [OF assms] assms(3) ack_effect rollback_effect(1))
qed

lemma server_key_peers:
  "bolt_laws B \<Longrightarrow> bGet B (snd (PutServerPubKey B pub db)) bucketPeers = bGet B db bucketPeers"
  unfolding PutServerPubKey_def by (rule put_other_bucket) (simp_all add: buckets_differ(1) [symmetric])

lemma exchange_peers:
  "bolt_laws (eBolt E) \<Longrightarrow>
   bGet (eBolt E) (a_db (snd (key_exchange_ends E kp w ev st))) bucketPeers = bGet (eBolt E) (a_db st) bucketPeers"
  using server_key_peers [of "eBolt E"]
  by (cases w; cases ev) (auto simp: key_exchange_ends_def handleKeyInitAckPayload_def handleKeyAuthAckPayload_def Let_def
      split: if_splits option.splits sum.splits)

lemma step_store_ok:
  assumes "lawful E" "store_ok (eBolt E) (a_db st)" "agent_step E st st'"
  shows "store_ok (eBolt E) (a_db st')"
  using assms(3)
proof cases
  case (frame fr)
  then show ?thesis
    using dispatch_store_ok [OF assms(1) receive_utf8 assms(2)] assms(2) by (auto simp: read_frame_def split: option.splits)
next
  case (exchange_ends kp w ev)
  then show ?thesis
    using exchange_peers [of E kp w ev st] assms(1) by (intro store_ok_cong [OF assms(2)]) (simp add: lawful_def)
qed (use assms(1,2) in \<open>simp_all add: lawful_def exchange_keys(2) collect_db RequestSync_def\<close>)

interpretation agent_store: preserved "agent_step E" "\<lambda>st. lawful E \<longrightarrow> store_ok (eBolt E) (a_db st)" for E
  by unfold_locales (auto dest: step_store_ok)

text \<open>Neither the start nor the stop of the agent touches the peers.\<close>

lemma start_peers:
  assumes "bolt_laws (eBolt E)" "\<forall>p d db. bt_open bt p d = Inr db \<longrightarrow> bGet (eBolt E) db = bGet (eBolt E) d"
    and "main_start bt E path pos disk h = Inr r"
  shows "bGet (eBolt E) (a_db (ru_agent r)) bucketPeers = bGet (eBolt E) disk bucketPeers"
  using assms(3)
proof (cases rule: main_start_run)
  case run: (1 cfg db h' kp db')
  let ?B = "eBolt E"
  from run(1) show ?thesis
  proof (cases rule: open_store_run)
    case (1 h1 h2 u v opened db1)
    obtain tx where "create_buckets ?B opened = Inr tx" "bGet ?B db1 = bGet ?B tx"
      using 1(5) by (rule db_update_ok [OF _ assms(1)])
    then have "bGet ?B db1 bucketPeers = bGet ?B disk bucketPeers"
      using create_get [OF assms(1)] assms(2) 1(4) by simp
    then have "bGet ?B db bucketPeers = bGet ?B disk bucketPeers"
      using put_other_bucket [OF assms(1)] by (simp add: 1(6) PutVersion_def bucketPeers_def bucketMeta_def)
    moreover have "bGet ?B db' bucketPeers = bGet ?B db bucketPeers"
      using run(2) assms(1) buckets_differ(1)
      by (auto simp: own_key_pair_def PutKeyPair_def db_update_def fun_eq_iff bolt_laws_def
          split: option.splits sum.splits prod.splits)
    ultimately show ?thesis using run(3) by simp
  qed
qed

lemma stop_peers:
  "close_keeps (eBolt (ru_env r)) \<Longrightarrow>
   bGet (eBolt (ru_env r)) (a_db (ru_agent (main_stop r))) = bGet (eBolt (ru_env r)) (a_db (ru_agent r))"
  by (simp add: main_stop_def Close_def close_keeps_def)

text \<open>In a well-formed store every entry can be read, one at a time and in the walk over all of them.\<close>

lemma store_ok_get:
  "store_ok B db \<Longrightarrow> bBegin B db False = None \<Longrightarrow> bGet B db bucketPeers k \<noteq> None \<Longrightarrow>
     \<exists>i. GetPeer B k db = Inr i \<and> complete_info i"
  by (force simp: store_ok_def GetPeer_def db_view_def complete_info_def peer_record.dec_enc)

lemma walk_keys:
  "\<forall>(k, v) \<in> set kvs. peer_unmarshal v \<noteq> None \<Longrightarrow>
     for_each (\<lambda>k i ks. (None, ks @ [k])) kvs ks = (None, ks @ map fst kvs)"
  by (induction kvs arbitrary: ks) auto

lemma store_ok_walk:
  assumes "bolt_laws B" "store_ok B db" "bBegin B db False = None"
  shows "ForEachPeer B (\<lambda>k i ks. (None, ks @ [k])) db [] = (None, map fst (bCursor B db bucketPeers))"
proof -
  have "bGet B db bucketPeers k = Some v" if "(k, v) \<in> set (bCursor B db bucketPeers)" for k v
    using that bolt_cursor [OF assms(1), of db bucketPeers] by (metis map_of_eq_Some_iff)
  then have "\<forall>(k, v) \<in> set (bCursor B db bucketPeers). peer_unmarshal v \<noteq> None"
    using assms(2) by (force simp: store_ok_def complete_info_def peer_record.dec_enc)
  then show ?thesis using assms(3) by (simp add: ForEachPeer_def walk_keys)
qed

text \<open>
  C18: the store stays well formed through the whole life of the agent. It starts on a store whose
  entries are complete peer records (an empty one, at first), handles whatever frames arrive, exchanges keys
  and reports metrics in any order: at every moment, and after the stop, each entry of the bucket of peers has a
  non-blank key and is the text of a record that has valid strings, an AS number of 64 bits and names its
  interface, protocol and file. So \<open>GetPeer\<close> reads every stored peer and \<open>ForEachPeer\<close>, which passes over records
  it cannot decode, visits every key.
\<close>

theorem stored_records_complete:
  assumes "lawful E" "\<forall>p d db. bt_open bt p d = Inr db \<longrightarrow> bGet (eBolt E) db = bGet (eBolt E) d"
    and "store_ok (eBolt E) disk" "main_start bt E path pos disk h = Inr r"
    and "(agent_step (ru_env r))\<^sup>*\<^sup>* (ru_agent r) st"
  shows "store_ok (eBolt E) (a_db st) \<and>
    store_ok (eBolt E) (a_db (ru_agent (main_stop (r\<lparr>ru_agent := st\<rparr>)))) \<and>
    (bBegin (eBolt E) (a_db st) False = None \<longrightarrow>
      (\<forall>k. bGet (eBolt E) (a_db st) bucketPeers k \<noteq> None \<longrightarrow> (\<exists>i. GetPeer (eBolt E) k (a_db st) = Inr i \<and> complete_info i)) \<and>
      ForEachPeer (eBolt E) (\<lambda>k i ks. (None, ks @ [k])) (a_db st) [] = (None, map fst (bCursor (eBolt E) (a_db st) bucketPeers)))"
proof -
  have l: "bolt_laws (eBolt E)" "close_keeps (eBolt E)" using assms(1) by (simp_all add: lawful_def)
  note env = started_lawful [OF assms(4,1)]
  have "store_ok (eBolt E) (a_db (ru_agent r))"
    by (rule store_ok_cong [OF assms(3) start_peers [OF l(1) assms(2,4)]])
  then have ok: "store_ok (eBolt E) (a_db st)" using agent_store.reach_inv [OF assms(5)] env by simp
  moreover have "store_ok (eBolt E) (a_db (ru_agent (main_stop (r\<lparr>ru_agent := st\<rparr>))))"
    using stop_peers [of "r\<lparr>ru_agent := st\<rparr>"] l(2) env(2) by (intro store_ok_cong [OF ok]) simp
  ultimately show ?thesis using store_ok_get [OF ok] store_ok_walk [OF l(1) ok] by simp
qed

text \<open>A start on a store with one peer, and a frame that adds another.\<close>

definition demo_disk :: mem_db where
  "demo_disk = [((bucketPeers, ''p1''), peer_marshal demo_info)]"

lemma demo_disk_ok: "store_ok mem_bolt demo_disk"
  using demo_info_ok by (auto simp: store_ok_def demo_disk_def mem_bolt_def complete_info_def demo_info_def split: if_splits)

lemma started_receives:
  assumes "main_start bt E path pos disk h = Inr r" "message_ok m"
  shows "receive P (a_ws (ru_agent r)) (demo_frame m) = Some m" "\<not> stuck (ru_agent r)"
proof -
  have plain: "\<not> c_encrypted (new_client E cfg kp pos db) \<and> c_aead (new_client E cfg kp pos db) = None" for cfg kp pos db
    by (cases "GetServerPubKey (eBolt E) db")
      (simp_all add: new_client_def NewClient_def SetKeyPair_def SetServerPubKey_def Let_def)
  from assms(1) have "\<not> c_encrypted (a_ws (ru_agent r)) \<and> c_aead (a_ws (ru_agent r)) = None \<and> \<not> stuck (ru_agent r)"
    by (rule main_start_run) (simp add: wire_agent_def Let_def SetWSClient_def stuck_def plain)
  then show "receive P (a_ws (ru_agent r)) (demo_frame m) = Some m" "\<not> stuck (ru_agent r)"
    using assms(2) by (simp_all add: receive_def demo_frame_def message_text.dec_enc)
qed

theorem stored_records_complete_witness:
  "\<exists>r i. main_start (demo_boot 60) demo_boot_env ''/etc/c.yaml'' 0 demo_disk demo_boot_host = Inr r \<and>
     GetPeer mem_bolt ''p1'' (a_db (read_frame (ru_env r) (demo_frame demo_add_msg) (ru_agent r))) = Inr i \<and> complete_info i"
proof -
  obtain r where r: "main_start (demo_boot 60) demo_boot_env ''/etc/c.yaml'' 0 demo_disk demo_boot_host = Inr r"
    using demo_starts by blast
  let ?st = "read_frame (ru_env r) (demo_frame demo_add_msg) (ru_agent r)"
  note env = started_lawful [OF r demo_boot_simps(3)]
  note rec = started_receives [OF r demo_add_wire_ok]
  have opens: "\<forall>p d db. bt_open (demo_boot 60) p d = Inr db \<longrightarrow> bGet mem_bolt db = bGet mem_bolt d"
    by (simp add: demo_boot_def)
  have "bGet mem_bolt (a_db (ru_agent r)) bucketPeers ''p1'' = Some (peer_marshal demo_info)"
    using start_peers [OF _ _ r] opens by (simp add: mem_bolt_laws) (simp add: demo_disk_def mem_bolt_def)
  then have "table_of (ru_env r) (ru_agent r) ''p1'' = Some demo_info"
    using env(2) by (simp add: table_of_def peer_of_def peer_record.dec_enc demo_info_ok)
  moreover have "peer_spec demo_add_msg (table_of (ru_env r) (ru_agent r)) (table_of (ru_env r) ?st)"
    using dispatch_refines [of "ru_env r" demo_add_msg] env(1) receive_utf8 [OF rec(1)] rec(1)
    by (simp add: read_frame_def lawful_def)
  ultimately have "table_of (ru_env r) ?st ''p1'' \<noteq> None"
    by (auto elim!: peer_specE simp: demo_add_msg_def)
  then have "bGet mem_bolt (a_db ?st) bucketPeers ''p1'' \<noteq> None"
    using env(2) by (auto simp: table_of_def peer_of_def split: option.splits)
  moreover have "bBegin mem_bolt (a_db ?st) False = None" by (simp add: mem_bolt_def)
  moreover have "(agent_step (ru_env r))\<^sup>*\<^sup>* (ru_agent r) ?st" using frame [OF rec(2)] by (rule r_into_rtranclp)
  ultimately show ?thesis
    using stored_records_complete [OF demo_boot_simps(3) _ _ r, of ?st] opens demo_disk_ok r by auto
qed

end
