(* ===== verification/Spec2Isabelle.thy ===== *)
theory Spec2Isabelle
  imports Session
begin

text \<open>
  A verification development of the AutoPeer agent, the daemon that a node of the DN42 network runs to
  set up WireGuard tunnels and BGP sessions on the orders of a central server, the center.

  \<^bold>\<open>The program.\<close> \<open>main\<close> (\<open>src/cmd/agent/main.go\<close>) loads the configuration (\<open>src/internal/config\<close>), opens
  the store (\<open>src/internal/store\<close>, a BoltDB file with the peers, the keys, the version and the last update),
  loads or makes the key pair of the agent, and puts the other parts together: the WireGuard manager
  (\<open>src/internal/wg\<close>), the BIRD manager (\<open>src/internal/bird\<close>), the message handlers
  (\<open>src/internal/handler\<close>), the WebSocket client (\<open>src/internal/ws\<close>) and the collector of metrics
  (\<open>src/internal/metrics\<close>). The client keeps a connection to the center; after each dial the handlers run a
  key exchange over it (\<open>src/internal/crypto\<close>), which turns encryption on. Then the reader of the
  connection decodes frames and gives each message to \<open>HandleMessage\<close>, whose handlers change the host, the
  store and the executable and answer over the client. The collector sends heartbeats beside it.

  \<^bold>\<open>The model.\<close> One theory per part; pure Go functions are HOL functions, stateful ones take the state and
  return a result with the new state, and errors are the left values of a sum, with the texts of the source.

  \<^item> \<open>Prelude\<close>: strings, numbers and UTF-8 as the Go packages \<open>strings\<close>, \<open>strconv\<close> and \<open>unicode/utf8\<close> treat
    them; the locales \<open>codec\<close> (what is written is read back) and \<open>preserved\<close> (a property kept by every step
    holds in every state reached). \<open>Host\<close> and \<open>Files\<close>: the machine as a record of files, directories,
    interfaces and what BIRD has read, the calls of \<open>os\<close> and \<open>os/exec\<close> on it, and the locale \<open>kv_map\<close>.
    \<open>Go_Json\<close>, \<open>Go_Base64\<close>, \<open>Go_Regex\<close>, \<open>Go_Net\<close>: \<open>encoding/json\<close>, \<open>encoding/base64\<close>, \<open>regexp\<close> and \<open>net\<close>
    as far as the source uses them. \<open>Bolt\<close>: the interface of BoltDB, and a database in memory that satisfies
    its laws.
  \<^item> \<open>Store\<close> for \<open>store.go\<close>, with the locale \<open>peer_store\<close> that states what the handlers rely on; \<open>Wg\<close> for
    \<open>wg.go\<close>; \<open>Bird\<close> for \<open>bird.go\<close>; \<open>Crypto\<close> for \<open>crypto.go\<close>; \<open>Config\<close> for \<open>config.go\<close>.
  \<^item> \<open>Ws\<close> for \<open>client.go\<close>: messages, frames, \<open>Send\<close> and \<open>Close\<close> as functions on the record \<open>Client\<close>, and
    \<open>Run\<close> with its reader, its writer and concurrent senders as the step relation \<open>run_step\<close> on \<open>run_state\<close>.
  \<^item> \<open>Agent\<close>: the environment \<open>env\<close> (parameters and the fields of \<open>handler.Handler\<close>), the state \<open>agent\<close>
    (host, database, client, the channel \<open>pendingKeyX\<close>, whether the reader is blocked, how the process
    ended), responses and payloads. On it the handlers of \<open>handler.go\<close>: \<open>Peers\<close> (peer.add, peer.remove,
    peers.sync, peers.import, status.request, bird.details, bird.disable, bird.enable; \<open>Sync\<close> has more lemmas
    on them), \<open>Key_Exchange\<close>, and \<open>Dispatch\<close> (\<open>HandleMessage\<close> and the reader); \<open>Network\<close> with
    \<open>Looking_Glass\<close> for \<open>network.go\<close>; \<open>Update\<close> for \<open>update_helpers.go\<close> and the handlers of agent.update,
    agent.resume and agent.rollback.
  \<^item> \<open>Metrics\<close> for \<open>metrics.go\<close>; \<open>Startup\<close> for \<open>main.go\<close>, as \<open>main_start\<close> and \<open>main_stop\<close>; \<open>Session\<close> puts
    the reader, the key exchange and the collector together in the step relation \<open>agent_step\<close> of a whole
    process.
  \<^item> \<open>Decoding\<close>: what can come out of the JSON decoders.

  \<^bold>\<open>What is shown.\<close>

  \<^item> Peers: adding is all or nothing, removing tears everything down, a synchronisation makes the store
    exactly what the center asks for and tears down exactly what is stale, the import offers exactly what is not tracked,
    bird.disable and bird.enable run one birdc command. Failures that the code ignores (\<open>wg-quick down\<close>, the reload of
    BIRD, the transactions of BoltDB) are not assumed away: the conclusions say what holds when they happen.
  \<^item> Dispatch: every command is answered exactly once, with two exceptions that are stated; the stored peer
    table refines an abstract table (\<open>peer_spec\<close>) over any sequence of frames, hostile ones included, because every
    record that a message can lead to is one that storing keeps (\<open>Decoding\<close>).
  \<^item> Store: every entry of the bucket of peers stays a complete record with a key, over everything a process does from
    a start to the stop (\<open>store_ok\<close> in \<open>Session\<close>), so every stored peer can be read.
  \<^item> Keys: an exchange changes nothing or ends with the key derived from its answer, which is the one the center derives; only authenticated frames
    pass once encryption is on; the identity of the agent survives everything a process can do between a
    start and the next.
  \<^item> Connection: an invariant of the loop (delays, bound of the queue, no encryption while waiting), and the
    end of the loop after \<open>Close\<close>.
  \<^item> Update: the executable changes only to a file with the announced checksum, at every point where a call
    can fail; what an update and a rollback do when nothing fails.
  \<^item> Looking glass: the allow-list is characterised by address ranges, and only bounded probes of allowed
    addresses run.
  \<^item> Round trips: JSON, base64, hexadecimal, decimal numbers, peer records, messages, encrypted frames, the
    WireGuard and BIRD configuration files.
  \<^item> Faults of the code, stated as what the code does: a rollback after an update fails, late acknowledgements
    block the reader, a heartbeat interval of zero or below panics, a heartbeat lacks fields of the protocol document, a failed reload leaves the file, reconnecting does
    not wait after a connection, traceroute times are lost, the AS number of an own interface is misread,
    plain frames reach every handler before encryption is on.

  \<^bold>\<open>Parameters and hypotheses.\<close> Code outside the repository is an argument of the definitions: the operating
  system and the programs it runs (\<open>os\<close>: results of programs, and which calls fail, depending on the whole
  history through a counter of calls), BoltDB (\<open>bolt\<close>), the primitives of \<open>golang.org/x/crypto\<close> (\<open>prims\<close>),
  the YAML decoder, HTTP, the resolver, the dialer, \<open>strconv.ParseFloat\<close>, the order of \<open>range\<close>, the clock
  and the statistics of the runtime. What a theorem needs of them is a named hypothesis: \<open>bolt_laws\<close>, \<open>bucket_laws\<close>
  and \<open>close_keeps\<close> (a committed transaction is what is read afterwards), \<open>wg_tools\<close> and \<open>birdc_tools\<close> (what
  \<open>wg-quick\<close>, on an interface name without a slash and a configuration without hooks, and \<open>birdc\<close> change when they succeed, and
  that they change nothing else; whether they succeed is open), \<open>aead_laws\<close>, \<open>dh_laws\<close> and \<open>key_laws\<close> (opening undoes
  sealing, both sides of a key agreement get the same secret, lengths of keys) and \<open>range_ok\<close> (each entry of a map
  once). Each is satisfied by concrete instances in the witnesses.

  \<^bold>\<open>Bounds.\<close> Integers of type \<open>int\<close> and \<open>int64\<close> are HOL integers; readers that can leave the range check it
  as the source does (\<open>int64_range\<close>), and addresses and bytes are 8-bit words. The only function with fuel is
  the recursive descent of the JSON reader: \<open>json_parse\<close> gives twice the length of the text, and
  \<open>json_parse_enough_fuel\<close> shows that no text needs more. The matcher of regular expressions terminates
  by a measure on the pattern and the text; every other loop is structural. The channel of frames holds 256, as in the source, and \<open>pendingKeyX\<close> one.

  \<^bold>\<open>Not modelled.\<close> Log output, which no code reads (the fields that \<open>Load\<close> logs are in \<open>load_log\<close>); flags and signals of \<open>main\<close>; the
  mutex of the BIRD manager and the lock of the key exchange, since the model runs one handler at a time, as
  the single reader does, so that a heartbeat in the middle of a handler is not considered; deadlines of the
  transport and the closing of the socket by \<open>Close\<close>, which appear as failures that may happen at any time; a \<open>Close\<close> in the middle
  of a dial, which the loop notices in the next step; the rounding of the delay through \<open>float64\<close>, exact in the range of
  delays; the permission argument of \<open>os.MkdirAll\<close>; the limit of 10000 levels of nesting in
  \<open>encoding/json\<close>; the contents of symbolic links and of files other than regular ones. The install script,
  the unit file, the example configuration, the documentation and the tests are not part of the program.
\<close>

end
